(* ===== verification/Prelude.thy ===== *)
theory Prelude
  imports Main "HOL-Library.Word" "HOL-Library.Multiset"
begin

text \<open>
  Shared vocabulary of the development: the machine integers of the connector, \<open>std::size_t\<close>
  arithmetic written out on \<open>nat\<close>, byte order, the outcome of code that may abort, the error
  codes of \<open>boost::system\<close> as the connector uses them, and the generic notion of a reachable
  state with its invariant rule.
\<close>

unbundle bit_operations_syntax

named_theorems tnt_defs \<open>definitions that component proofs unfold freely\<close>
named_theorems frame_simps \<open>what an operation leaves unchanged\<close>

type_synonym byte = "8 word"
type_synonym u16 = "16 word"
type_synonym u32 = "32 word"
type_synonym u64 = "64 word"

subsection \<open>Definitions\<close>

text \<open>
  \<open>std::size_t\<close> values are natural numbers below \<open>2 ^ 64\<close>; additions of the source that may
  wrap are written with \<open>size_add\<close>. \<open>size_max\<close> is \<open>std::numeric_limits<std::size_t>::max()\<close>.
\<close>

definition size_max :: nat where
  "size_max = 2 ^ 64 - 1"

definition size_add :: "nat \<Rightarrow> nat \<Rightarrow> nat" where
  "size_add a b = (a + b) mod 2 ^ 64"

definition size_sub :: "nat \<Rightarrow> nat \<Rightarrow> nat" where
  "size_sub a b = (if b \<le> a then a - b else 2 ^ 64 - (b - a))"

text \<open>
  What ends the process: a failed \<open>assert\<close> (the code is modelled as built with assertions), an
  exception that leaves a \<open>noexcept\<close> function, or an access outside an object or through a reference to
  an object that is gone, after which nothing is known. A computation that may abort has type \<open>'a run\<close>.
\<close>

datatype abort = Assertion_failed | Terminate | Out_of_bounds | Dangling_reference

type_synonym 'a run = "abort + 'a"

fun run_bind :: "'a run \<Rightarrow> ('a \<Rightarrow> 'b run) \<Rightarrow> 'b run" where
  "run_bind (Inl e) f = Inl e"
| "run_bind (Inr x) f = f x"

definition assert_run :: "bool \<Rightarrow> 'a run \<Rightarrow> 'a run" where
  "assert_run b m = (if b then m else Inl Assertion_failed)"

text \<open>
  \<open>boost::system::error_code\<close>: a value and a category; \<open>if (ec)\<close> is the test that the value is
  not zero. The \<open>errc\<close> conditions the connector creates itself are named by their POSIX value.
\<close>

datatype category = system_category | tarantool_category | other_category nat

record error_code =
  ec_value :: int
  ec_category :: category

definition no_error :: error_code where
  "no_error = \<lparr>ec_value = 0, ec_category = system_category\<rparr>"

definition failed :: "error_code \<Rightarrow> bool" where
  "failed ec \<longleftrightarrow> ec_value ec \<noteq> 0"

definition errc :: "int \<Rightarrow> error_code" where
  "errc v = \<lparr>ec_value = v, ec_category = system_category\<rparr>"

abbreviation broken_pipe :: int where "broken_pipe \<equiv> 32"
abbreviation invalid_argument :: int where "invalid_argument \<equiv> 22"
abbreviation protocol_error :: int where "protocol_error \<equiv> 71"
abbreviation bad_message :: int where "bad_message \<equiv> 74"
abbreviation illegal_byte_sequence :: int where "illegal_byte_sequence \<equiv> 84"
abbreviation message_size :: int where "message_size \<equiv> 90"
abbreviation not_connected :: int where "not_connected \<equiv> 107"
abbreviation operation_canceled :: int where "operation_canceled \<equiv> 125"
abbreviation state_not_recoverable :: int where "state_not_recoverable \<equiv> 131"

text \<open>
  The exceptions the connector tells apart: \<open>std::bad_cast\<close> (the base of
  \<open>msgpack::type_error\<close>), \<open>boost::system::system_error\<close> with its code, and every other
  \<open>std::exception\<close>.
\<close>

datatype exn = Bad_cast | System_error error_code | Std_exception

text \<open>
  Byte order. \<open>le_bytes n x\<close> is the object representation of an \<open>n\<close>-byte unsigned integer on
  the little-endian platform the connector is built for; \<open>be_bytes\<close> is network order.
\<close>

fun le_bytes :: "nat \<Rightarrow> nat \<Rightarrow> byte list" where
  "le_bytes 0 x = []"
| "le_bytes (Suc n) x = of_nat (x mod 256) # le_bytes n (x div 256)"

fun le_val :: "byte list \<Rightarrow> nat" where
  "le_val [] = 0"
| "le_val (b # bs) = unat b + 256 * le_val bs"

definition be_bytes :: "nat \<Rightarrow> nat \<Rightarrow> byte list" where
  "be_bytes n x = rev (le_bytes n x)"

definition be_val :: "byte list \<Rightarrow> nat" where
  "be_val bs = le_val (rev bs)"

text \<open>Overwriting \<open>length ys\<close> elements of a list from offset \<open>off\<close> on: \<open>memcpy\<close> into an array.\<close>

definition overwrite :: "nat \<Rightarrow> 'a list \<Rightarrow> 'a list \<Rightarrow> 'a list" where
  "overwrite off ys xs = take off xs @ ys @ drop (off + length ys) xs"

text \<open>The \<open>n\<close> elements of an array from offset \<open>off\<close> on.\<close>

definition slice_list :: "nat \<Rightarrow> nat \<Rightarrow> 'a list \<Rightarrow> 'a list" where
  "slice_list off n xs = take n (drop off xs)"

text \<open>The states a system can reach from its initial ones.\<close>

inductive reach :: "('s \<Rightarrow> bool) \<Rightarrow> ('s \<Rightarrow> 's \<Rightarrow> bool) \<Rightarrow> 's \<Rightarrow> bool"
  for init :: "'s \<Rightarrow> bool" and step :: "'s \<Rightarrow> 's \<Rightarrow> bool" where
  reach_init: "init s \<Longrightarrow> reach init step s"
| reach_step: "reach init step s \<Longrightarrow> step s t \<Longrightarrow> reach init step t"

text \<open>
  The invariant rule as an interface: a component that shows its invariant for the initial
  states and for every step gets it for every reachable state.
\<close>

locale inv_system =
  fixes init :: "'s \<Rightarrow> bool" and step :: "'s \<Rightarrow> 's \<Rightarrow> bool" and I :: "'s \<Rightarrow> bool"
  assumes init_inv: "init s \<Longrightarrow> I s"
    and step_inv: "I s \<Longrightarrow> step s t \<Longrightarrow> I t"
begin

lemma reach_inv: "reach init step s \<Longrightarrow> I s"
  by (induction rule: reach.induct) (blast intro: init_inv step_inv)+

lemma steps_inv: "step\<^sup>*\<^sup>* s t \<Longrightarrow> I s \<Longrightarrow> I t"
  by (induction rule: rtranclp_induct) (blast intro: step_inv)+

end

text \<open>
  A forward simulation: the abstraction of a step is a sequence of abstract steps, as long as the run
  stays within \<open>good\<close> states. Then every good state that is reached abstracts to a reachable one.
\<close>

locale simulation = inv_system +
  fixes ainit :: "'a \<Rightarrow> bool" and astep :: "'a \<Rightarrow> 'a \<Rightarrow> bool" and abs :: "'s \<Rightarrow> 'a" and good :: "'s \<Rightarrow> bool"
  assumes good_back: "step s t \<Longrightarrow> good t \<Longrightarrow> good s"
    and sim_init: "init s \<Longrightarrow> ainit (abs s)"
    and sim_step: "I s \<Longrightarrow> good t \<Longrightarrow> step s t \<Longrightarrow> astep\<^sup>*\<^sup>* (abs s) (abs t)"
begin

lemma sim_steps: "step\<^sup>*\<^sup>* s t \<Longrightarrow> I s \<Longrightarrow> good t \<Longrightarrow> astep\<^sup>*\<^sup>* (abs s) (abs t)"
proof (induction rule: rtranclp_induct)
  case (step t u)
  from step(2,5) have "good t" by (rule good_back)
  with step have "astep\<^sup>*\<^sup>* (abs s) (abs t)" by blast
  moreover have "astep\<^sup>*\<^sup>* (abs t) (abs u)" using step by (blast intro: sim_step steps_inv)
  ultimately show ?case by (rule rtranclp_trans)
qed simp

lemma reach_sim: "reach init step s \<Longrightarrow> good s \<Longrightarrow> \<exists>a. ainit a \<and> astep\<^sup>*\<^sup>* a (abs s)"
proof (induction rule: reach.induct)
  case (reach_step s t)
  from reach_step(2,4) have "good s" by (rule good_back)
  with reach_step obtain a where "ainit a" "astep\<^sup>*\<^sup>* a (abs s)" by blast
  moreover have "astep\<^sup>*\<^sup>* (abs s) (abs t)" using reach_step by (blast intro: sim_step reach_inv)
  ultimately show ?case by (blast intro: rtranclp_trans)
qed (blast intro: sim_init)

end

subsection \<open>Lemmas\<close>

lemma reach_steps: "step\<^sup>*\<^sup>* s t \<Longrightarrow> reach init step s \<Longrightarrow> reach init step t"
  by (induction rule: rtranclp_induct) (blast intro: reach_step)+

lemma run_bind_Inr [simp]: "run_bind m f = Inr y \<longleftrightarrow> (\<exists>x. m = Inr x \<and> f x = Inr y)"
  by (cases m) auto

lemma run_bind_Inl: "run_bind m f = Inl e \<longleftrightarrow> m = Inl e \<or> (\<exists>x. m = Inr x \<and> f x = Inl e)"
  by (cases m) auto

lemma assert_run_Inr [simp]: "assert_run b m = Inr y \<longleftrightarrow> b \<and> m = Inr y"
  by (simp add: assert_run_def)

lemma assert_run_True [simp]: "assert_run True m = m"
  by (simp add: assert_run_def)

lemma assert_run_False [simp]: "assert_run False m = Inl Assertion_failed"
  by (simp add: assert_run_def)

lemma size_add_small [simp]: "a + b < 2 ^ 64 \<Longrightarrow> size_add a b = a + b"
  by (simp add: size_add_def)

lemma size_add_lt [simp]: "size_add a b < 2 ^ 64"
  by (simp add: size_add_def)

lemma size_sub_le [simp]: "b \<le> a \<Longrightarrow> size_sub a b = a - b"
  by (simp add: size_sub_def)

lemma not_failed_no_error [simp]: "\<not> failed no_error"
  by (simp add: failed_def no_error_def)

lemma failed_errc [simp]: "failed (errc v) \<longleftrightarrow> v \<noteq> 0"
  by (simp add: failed_def errc_def)

lemma length_le_bytes [simp]: "length (le_bytes n x) = n"
  by (induction n arbitrary: x) auto

lemma length_be_bytes [simp]: "length (be_bytes n x) = n"
  by (simp add: be_bytes_def)

lemma unat_byte_lt: "unat (b :: byte) < 256"
  using unsigned_less [of b, where ?'a = nat] by simp

lemma le_val_bound: "le_val bs < 256 ^ length bs"
proof (induction bs)
  case Nil
  then show ?case by simp
next
  case (Cons b bs)
  have "unat b < 256"
    by (rule unat_byte_lt)
  with Cons show ?case by simp
qed

lemma le_val_le_bytes: "le_val (le_bytes n x) = x mod 256 ^ n"
proof (induction n arbitrary: x)
  case 0
  then show ?case by simp
next
  case (Suc n)
  have "unat (of_nat (x mod 256) :: byte) = x mod 256"
    by (simp add: unat_of_nat)
  then show ?case
    by (simp add: Suc.IH mod_mult2_eq add.commute)
qed

lemma le_bytes_le_val: "le_bytes (length bs) (le_val bs) = bs"
proof (induction bs)
  case Nil
  then show ?case by simp
next
  case (Cons b bs)
  have "unat b < 256"
    by (rule unat_byte_lt)
  then have "(unat b + 256 * le_val bs) mod 256 = unat b"
    "(unat b + 256 * le_val bs) div 256 = le_val bs"
    by simp_all
  with Cons show ?case by simp
qed

lemma be_val_bound: "be_val bs < 256 ^ length bs"
  using le_val_bound [of "rev bs"] by (simp add: be_val_def)

lemma be_val_be_bytes: "be_val (be_bytes n x) = x mod 256 ^ n"
  by (simp add: be_val_def be_bytes_def le_val_le_bytes)

lemma be_bytes_be_val: "be_bytes (length bs) (be_val bs) = bs"
  using le_bytes_le_val [of "rev bs"] by (simp add: be_val_def be_bytes_def)

lemma length_overwrite [simp]:
  "off + length ys \<le> length xs \<Longrightarrow> length (overwrite off ys xs) = length xs"
  by (simp add: overwrite_def)

lemma overwrite_append_at:
  "off = length xs \<Longrightarrow> length ys = length zs \<Longrightarrow> overwrite off ys (xs @ zs @ ws) = xs @ ys @ ws"
  by (simp add: overwrite_def)

lemma length_slice_list: "length (slice_list off n xs) = min n (length xs - off)"
  by (simp add: slice_list_def min.commute)

lemma slice_list_overwrite_before:
  assumes "a + n \<le> off" "off + length ys \<le> length xs"
  shows "slice_list a n (overwrite off ys xs) = slice_list a n xs"
  using assms by (intro nth_equalityI) (auto simp: slice_list_def overwrite_def nth_append)

lemma slice_list_overwrite_adjacent:
  assumes "a \<le> off" "off + length ys \<le> length xs"
  shows "slice_list a (off - a + length ys) (overwrite off ys xs) = slice_list a (off - a) xs @ ys"
  using assms by (intro nth_equalityI) (auto simp: slice_list_def overwrite_def nth_append)

lemma slice_list_append:
  "slice_list a (m + n) xs = slice_list a m xs @ slice_list (a + m) n xs"
  by (simp add: slice_list_def take_add add.commute)

lemma take_slice_list: "k \<le> n \<Longrightarrow> take k (slice_list a n xs) = slice_list a k xs"
  by (simp add: slice_list_def min_def)

lemma drop_slice_list: "k \<le> n \<Longrightarrow> drop k (slice_list a n xs) = slice_list (a + k) (n - k) xs"
  by (simp add: slice_list_def drop_take add.commute)

end
