(* ===== verification/Endian.thy ===== *)
theory Endian
  imports Prelude
begin

text \<open>
  The byte order conversions of \<open>boost::endian\<close>, which is not part of the repository: the functions
  are the fields of \<open>endian_lib\<close>, and \<open>endian_ok\<close> states what they are documented to do on a
  little-endian platform. A value in memory is \<open>le_bytes\<close> of its width. \<open>endian_ref\<close> shows that the
  documented behaviour can hold.
\<close>

subsection \<open>Definitions\<close>

record endian_lib =
  native_to_big16 :: "u16 \<Rightarrow> u16"
  native_to_big32 :: "u32 \<Rightarrow> u32"
  big_to_native16 :: "u16 \<Rightarrow> u16"
  big_to_native32 :: "u32 \<Rightarrow> u32"
  big_to_native64 :: "u64 \<Rightarrow> u64"

definition endian_ok :: "endian_lib \<Rightarrow> bool" where
  "endian_ok E \<longleftrightarrow>
     (\<forall>x. le_bytes 2 (unat (native_to_big16 E x)) = be_bytes 2 (unat x))
     \<and> (\<forall>x. le_bytes 4 (unat (native_to_big32 E x)) = be_bytes 4 (unat x))
     \<and> (\<forall>bs. length bs = 2 \<longrightarrow> unat (big_to_native16 E (of_nat (le_val bs))) = be_val bs)
     \<and> (\<forall>bs. length bs = 4 \<longrightarrow> unat (big_to_native32 E (of_nat (le_val bs))) = be_val bs)
     \<and> (\<forall>bs. length bs = 8 \<longrightarrow> unat (big_to_native64 E (of_nat (le_val bs))) = be_val bs)"

text \<open>Reading an integer object from memory: \<open>*static_cast<const uint32_t*>(p)\<close> and its like.\<close>

definition load16 :: "byte list \<Rightarrow> u16" where
  "load16 bs = of_nat (le_val (take 2 bs))"

definition load32 :: "byte list \<Rightarrow> u32" where
  "load32 bs = of_nat (le_val (take 4 bs))"

definition load64 :: "byte list \<Rightarrow> u64" where
  "load64 bs = of_nat (le_val (take 8 bs))"

definition endian_ref :: endian_lib where
  "endian_ref =
     \<lparr>native_to_big16 = (\<lambda>x. of_nat (be_val (le_bytes 2 (unat x)))),
      native_to_big32 = (\<lambda>x. of_nat (be_val (le_bytes 4 (unat x)))),
      big_to_native16 = (\<lambda>x. of_nat (be_val (le_bytes 2 (unat x)))),
      big_to_native32 = (\<lambda>x. of_nat (be_val (le_bytes 4 (unat x)))),
      big_to_native64 = (\<lambda>x. of_nat (be_val (le_bytes 8 (unat x))))\<rparr>"

subsection \<open>Lemmas\<close>

lemma unat_of_be_val:
  "length bs = 2 \<Longrightarrow> unat (of_nat (be_val bs) :: u16) = be_val bs"
  "length bs = 4 \<Longrightarrow> unat (of_nat (be_val bs) :: u32) = be_val bs"
  "length bs = 8 \<Longrightarrow> unat (of_nat (be_val bs) :: u64) = be_val bs"
  using be_val_bound [of bs] by (simp_all add: unat_of_nat)

lemma unat_of_le_val:
  "length bs = 2 \<Longrightarrow> unat (of_nat (le_val bs) :: u16) = le_val bs"
  "length bs = 4 \<Longrightarrow> unat (of_nat (le_val bs) :: u32) = le_val bs"
  "length bs = 8 \<Longrightarrow> unat (of_nat (le_val bs) :: u64) = le_val bs"
  using le_val_bound [of bs] by (simp_all add: unat_of_nat)

lemma le_bytes_be_val: "length bs = n \<Longrightarrow> le_bytes n (be_val bs) = rev bs"
  using le_bytes_le_val [of "rev bs"] by (simp add: be_val_def)

lemma le_bytes_le_val_len: "length bs = n \<Longrightarrow> le_bytes n (le_val bs) = bs"
  using le_bytes_le_val [of bs] by simp

lemma endian_ref_ok: "endian_ok endian_ref"
  unfolding endian_ok_def endian_ref_def
  by (auto simp: unat_of_be_val unat_of_le_val le_bytes_be_val le_bytes_le_val_len be_bytes_def)

lemma endian_store:
  "endian_ok E \<Longrightarrow> le_bytes 2 (unat (native_to_big16 E x)) = be_bytes 2 (unat x)"
  "endian_ok E \<Longrightarrow> le_bytes 4 (unat (native_to_big32 E y)) = be_bytes 4 (unat y)"
  by (simp_all add: endian_ok_def)

lemma endian_load:
  "endian_ok E \<Longrightarrow> length bs = 2 \<Longrightarrow> unat (big_to_native16 E (load16 bs)) = be_val bs"
  "endian_ok E \<Longrightarrow> length bs = 4 \<Longrightarrow> unat (big_to_native32 E (load32 bs)) = be_val bs"
  "endian_ok E \<Longrightarrow> length bs = 8 \<Longrightarrow> unat (big_to_native64 E (load64 bs)) = be_val bs"
  by (simp_all add: endian_ok_def load16_def load32_def load64_def)

end
