(* ===== verification/Iproto_Errors.thy ===== *)
theory Iproto_Errors
  imports Prelude
begin

text \<open>
  The error codes of the Tarantool server and their messages, from \<open>detail/iproto_typedefs.h\<close>: the
  enumeration \<open>TarantoolError\<close> (name and value, in the order of the source), the \<open>switch\<close> of
  \<open>TarantoolErrorCategory::message\<close> (the enumerator of each \<open>case\<close> with its value, and the string
  it returns), the texts the comments of the enumeration promise, and the conversion from an integer. An
  enumerator is modelled by its value, as the C++ enumeration is an integer type. What \<open>message\<close> returns is
  compared with the promised texts.
\<close>

subsection \<open>Definitions\<close>

definition TarantoolError_1 :: "(string \<times> nat) list" where
  \<open>TarantoolError_1 = [
   (''Unknown'', 0),
   (''IllegalParams'', 1),
   (''MemoryIssue'', 2),
   (''TupleFound'', 3),
   (''TupleNotFound'', 4),
   (''Unsupported'', 5),
   (''NonMaster'', 6),
   (''Readonly'', 7),
   (''Injection'', 8),
   (''CreateSpace'', 9),
   (''SpaceExists'', 10),
   (''DropSpace'', 11),
   (''AltSpace'', 12),
   (''IndexType'', 13),
   (''ModifyIndex'', 14),
   (''LastDrop'', 15),
   (''TupleFormatLimit'', 16),
   (''DropPrimaryKey'', 17),
   (''KeyPartType'', 18),
   (''ExactMatch'', 19),
   (''InvalidMsgpack'', 20),
   (''ProcRet'', 21),
   (''TupleNotArray'', 22),
   (''FieldTypeMismatch'', 23),
   (''IndexPartTypeMismatch'', 24),
   (''UpdateSplice'', 25),
   (''UpdateArgType'', 26),
   (''FormatMismatchIndexPart'', 27),
   (''UnknownUpdateOp'', 28),
   (''UpdateField'', 29),
   (''FunctionTxActive'', 30),
   (''KeyPartCount'', 31),
   (''ProcLua'', 32),
   (''NoSuchProc'', 33),
   (''NoSuchTrigger'', 34),
   (''NoSuchIndexId'', 35),
   (''NoSuchSpace'', 36),
   (''NoSuchFieldNo'', 37),
   (''ExactFieldCount'', 38),
   (''FieldMissing'', 39),
   (''WalIo'', 40),
   (''MoreThanOneTuple'', 41),
   (''AccessDenied'', 42),
   (''CreateUser'', 43),
   (''DropUser'', 44),
   (''NoSuchUser'', 45),
   (''UserExists'', 46),
   (''CredentialsMismatch'', 47),
   (''UnknownRequestType'', 48),
   (''UnknownSchemaObject'', 49),
   (''CreateFunction'', 50),
   (''NoSuchFunction'', 51),
   (''FunctionExists'', 52),
   (''BeforeReplaceRet'', 53),
   (''MultistatementTransaction'', 54),
   (''TriggerExists'', 55),
   (''UserMax'', 56),
   (''NoSuchEngine'', 57),
   (''ReloadCfg'', 58),
   (''Cfg'', 59),
   (''SavepointEmptyTx'', 60),
   (''NoSuchSavepoint'', 61),
   (''UnknownReplica'', 62),
   (''ReplicasetUuidMismatch'', 63),
   (''InvalidUuid'', 64),
   (''ReplicasetUuidIsRo'', 65),
   (''InstanceUuidMismatch'', 66),
   (''ReplicaIdIsReserved'', 67),
   (''InvalidOrder'', 68),
   (''MissingRequestField'', 69),
   (''Identifier'', 70),
   (''DropFunction'', 71),
   (''IteratorType'', 72),
   (''ReplicaMax'', 73),
   (''InvalidXlog'', 74),
   (''InvalidXlogName'', 75),
   (''InvalidXlogOrder'', 76),
   (''NoConnection'', 77),
   (''Timeout'', 78),
   (''ActiveTransaction'', 79),
   (''CursorNoTransaction'', 80),
   (''CrossEngineTransaction'', 81),
   (''NoSuchRole'', 82),
   (''RoleExists'', 83),
   (''CreateRole'', 84),
   (''IndexExists'', 85),
   (''SessionClosed'', 86),
   (''RoleLoop'', 87),
   (''Grant'', 88),
   (''PrivGranted'', 89),
   (''RoleGranted'', 90),
   (''PrivNotGranted'', 91),
   (''RoleNotGranted'', 92),
   (''MissingSnapshot'', 93),
   (''CantUpdatePrimaryKey'', 94),
   (''UpdateIntegoverflow'', 95),
   (''GuestUserPassword'', 96),
   (''TransactionConflict'', 97),
   (''UnsupportedPriv'', 98),
   (''LoadFunction'', 99)]\<close>

definition TarantoolError_2 :: "(string \<times> nat) list" where
  \<open>TarantoolError_2 = [
   (''FunctionLanguage'', 100),
   (''RtreeRect'', 101),
   (''ProcC'', 102),
   (''UnknownRtreeIndexDistanceType'', 103),
   (''Protocol'', 104),
   (''UpsertUniqueSecondaryKey'', 105),
   (''WrongIndexRecord'', 106),
   (''WrongIndexParts'', 107),
   (''WrongIndexOptions'', 108),
   (''WrongSchemaVersion'', 109),
   (''MemtxMaxTupleSize'', 110),
   (''WrongSpaceOptions'', 111),
   (''UnsupportedIndexFeature'', 112),
   (''ViewIsRo'', 113),
   (''NoTransaction'', 114),
   (''System'', 115),
   (''Loading'', 116),
   (''ConnectionToSelf'', 117),
   (''KeyPartIsTooLong'', 118),
   (''Compression'', 119),
   (''CheckpointInProgress'', 120),
   (''SubStmtMax'', 121),
   (''CommitInSubStmt'', 122),
   (''RollbackInSubStmt'', 123),
   (''Decompression'', 124),
   (''InvalidXlogType'', 125),
   (''AlreadyRunning'', 126),
   (''IndexFieldCountLimit'', 127),
   (''LocalInstanceIdIsReadOnly'', 128),
   (''BackupInProgress'', 129),
   (''ReadViewAborted'', 130),
   (''InvalidIndexFile'', 131),
   (''InvalidRunFile'', 132),
   (''InvalidVylogFile'', 133),
   (''CascadeRollback'', 134),
   (''VyQuotaTimeout'', 135),
   (''PartialKey'', 136),
   (''TruncateSystemSpace'', 137),
   (''LoadModule'', 138),
   (''VinylMaxTupleSize'', 139),
   (''WrongDdVersion'', 140),
   (''WrongSpaceFormat'', 141),
   (''CreateSequence'', 142),
   (''AltSequence'', 143),
   (''DropSequence'', 144),
   (''NoSuchSequence'', 145),
   (''SequenceExists'', 146),
   (''SequenceOverflow'', 147),
   (''NoSuchIndexName'', 148),
   (''SpaceFieldIsDuplicate'', 149),
   (''CantCreateCollation'', 150),
   (''WrongCollationOptions'', 151),
   (''NullablePrimary'', 152),
   (''NoSuchFieldNameInSpace'', 153),
   (''TransactionYield'', 154),
   (''NoSuchGroup'', 155),
   (''SqlBindValue'', 156),
   (''SqlBindType'', 157),
   (''SqlBindParameterMax'', 158),
   (''SqlExecute'', 159),
   (''UpdateDecimalOverflow'', 160),
   (''SqlBindNotFound'', 161),
   (''ActionMismatch'', 162),
   (''ViewMissingSql'', 163),
   (''ForeignKeyConstraint'', 164),
   (''NoSuchModule'', 165),
   (''NoSuchCollation'', 166),
   (''CreateFkConstraint'', 167),
   (''DropFkConstraint'', 168),
   (''NoSuchConstraint'', 169),
   (''ConstraintExists'', 170),
   (''SqlTypeMismatch'', 171),
   (''RowidOverflow'', 172),
   (''DropCollation'', 173),
   (''IllegalCollationMix'', 174),
   (''SqlNoSuchPragma'', 175),
   (''SqlCantResolveField'', 176),
   (''IndexExistsInSpace'', 177),
   (''InconsistentTypes'', 178),
   (''SqlSyntaxWithPos'', 179),
   (''SqlStackOverflow'', 180),
   (''SqlSelectWildcard'', 181),
   (''SqlStatementEmpty'', 182),
   (''SqlKeywordIsReserved'', 183),
   (''SqlSyntaxNearToken'', 184),
   (''SqlUnknownToken'', 185),
   (''SqlParseGeneric'', 186),
   (''SqlAnalyzeArgument'', 187),
   (''SqlColumnCountMax'', 188),
   (''HexLiteralMax'', 189),
   (''IntLiteralMax'', 190),
   (''SqlParseLimit'', 191),
   (''IndexDefUnsupported'', 192),
   (''CkDefUnsupported'', 193),
   (''MultikeyIndexMismatch'', 194),
   (''CreateCkConstraint'', 195),
   (''CkConstraintFailed'', 196),
   (''SqlColumnCount'', 197),
   (''FuncIndexFunc'', 198),
   (''FuncIndexFormat'', 199)]\<close>

definition TarantoolError_3 :: "(string \<times> nat) list" where
  \<open>TarantoolError_3 = [
   (''FuncIndexParts'', 200),
   (''NoSuchFieldName'', 201),
   (''FuncWrongArgCount'', 202),
   (''BootstrapReadonly'', 203),
   (''SqlFuncWrongRetCount'', 204),
   (''FuncInvalidReturnType'', 205),
   (''SqlParseGenericWithPos'', 206),
   (''ReplicaNotAnon'', 207),
   (''CannotRegister'', 208),
   (''SessionSettingInvalidValue'', 209),
   (''SqlPrepare'', 210),
   (''WrongQueryId'', 211),
   (''SequenceNotStarted'', 212),
   (''NoSuchSessionSetting'', 213),
   (''UncommittedForeignSyncTxns'', 214),
   (''SyncMasterMismatch'', 215),
   (''SyncQuorumTimeout'', 216),
   (''SyncRollback'', 217),
   (''TupleMetadataIsTooBig'', 218),
   (''XlogGap'', 219),
   (''TooEarlySubscribe'', 220),
   (''SqlCantAddAutoinc'', 221),
   (''QuorumWait'', 222),
   (''InterferingPromote'', 223),
   (''ElectionDisabled'', 224),
   (''TxnRollback'', 225),
   (''NotLeader'', 226),
   (''SyncQueueUnclaimed'', 227),
   (''SyncQueueForeign'', 228),
   (''UnableToProcessInStream'', 229),
   (''UnableToProcessOutOfStream'', 230),
   (''TransactionTimeout'', 231),
   (''ActiveTimer'', 232),
   (''TupleFieldCountLimit'', 233),
   (''CreateConstraint'', 234),
   (''FieldConstraintFailed'', 235),
   (''TupleConstraintFailed'', 236),
   (''CreateForeignKey'', 237),
   (''ForeignKeyIntegrity'', 238),
   (''FieldForeignKeyFailed'', 239),
   (''ComplexForeignKeyFailed'', 240),
   (''WrongSpaceUpgradeOptions'', 241),
   (''NoElectionQuorum'', 242),
   (''Ssl'', 243),
   (''SplitBrain'', 244),
   (''OldTerm'', 245),
   (''InterferingElections'', 246),
   (''IteratorPosition'', 247),
   (''DefaultValueType'', 248),
   (''UnknownAuthMethod'', 249),
   (''InvalidAuthData'', 250),
   (''InvalidAuthRequest'', 251),
   (''WeakPassword'', 252),
   (''OldPassword'', 253),
   (''NoSuchSession'', 254),
   (''WrongSessionType'', 255),
   (''PasswordExpired'', 256),
   (''AuthDelay'', 257),
   (''AuthRequired'', 258),
   (''SqlSeqScan'', 259),
   (''NoSuchEvent'', 260),
   (''BootstrapNotUnanimous'', 261),
   (''CantCheckBootstrapLeader'', 262),
   (''BootstrapConnectionNotToAll'', 263),
   (''NilUuid'', 264),
   (''WrongFunctionOptions'', 265),
   (''MissingSystemSpaces'', 266),
   (''ClusterNameMismatch'', 267),
   (''ReplicasetNameMismatch'', 268),
   (''InstanceNameDuplicate'', 269),
   (''InstanceNameMismatch'', 270),
   (''SchemaNeedsUpgrade'', 271),
   (''SchemaUpgradeInProgress'', 272),
   (''Deprecated'', 273),
   (''Unconfigured'', 274),
   (''CreateDefaultFunc'', 275),
   (''DefaultFuncFailed'', 276),
   (''InvalidDec'', 277),
   (''InAnotherPromote'', 278),
   (''Shutdown'', 279),
   (''FieldValueOutOfRange'', 280)]\<close>

definition error_switch_1 :: "(string \<times> nat \<times> string) list" where
  \<open>error_switch_1 = [
   (''Unknown'', 0, ''Unknown''),
   (''IllegalParams'', 1, ''Illegal parameters, %s''),
   (''MemoryIssue'', 2, ''Failed to allocate %u bytes in %s for %s''),
   (''TupleFound'', 3, ''Duplicate key exists in unique index "%s" in space "%s" with old tuple - %s and new tuple - %s''),
   (''TupleNotFound'', 4, (''Tuple doesn't exist in index '%s' in space '%s'' @ [CHR 0x27])),
   (''Unsupported'', 5, ''%s does not support %s''),
   (''NonMaster'', 6, ''Can't modify data on a replication slave. My master is: %s''),
   (''Readonly'', 7, ''Can't modify data on a read-only instance''),
   (''Injection'', 8, (''Error injection '%s'' @ [CHR 0x27])),
   (''CreateSpace'', 9, ''Failed to create space '%s': %s''),
   (''SpaceExists'', 10, ''Space '%s' already exists''),
   (''DropSpace'', 11, ''Can't drop space '%s': %s''),
   (''AltSpace'', 12, ''Can't modify space '%s': %s''),
   (''IndexType'', 13, (''Unsupported index type supplied for index '%s' in space '%s'' @ [CHR 0x27])),
   (''ModifyIndex'', 14, ''Can't create or modify index '%s' in space '%s': %s''),
   (''LastDrop'', 15, (''Can't drop the primary key in a system space, space '%s'' @ [CHR 0x27])),
   (''TupleFormatLimit'', 16, ''Tuple format limit reached: %u''),
   (''DropPrimaryKey'', 17, ''Can't drop primary key in space '%s' while secondary keys exist''),
   (''KeyPartType'', 18, ''Supplied key type of part %u does not match index part type: expected %s''),
   (''ExactMatch'', 19, ''Invalid key part count in an exact match (expected %u, got %u)''),
   (''InvalidMsgpack'', 20, ''Invalid MsgPack - %s''),
   (''ProcRet'', 21, (''msgpack.encode: can not encode Lua type '%s'' @ [CHR 0x27])),
   (''TupleNotArray'', 22, ''Tuple/Key must be MsgPack array''),
   (''FieldTypeMismatch'', 23, ''Tuple field %s type does not match one required by operation: expected %s, got %s''),
   (''IndexPartTypeMismatch'', 24, ''Field %s has type '%s' in one index, but type '%s' in another''),
   (''UpdateSplice'', 25, ''SPLICE error on field %s: %s''),
   (''UpdateArgType'', 26, ''Argument type in operation '%c' on field %s does not match field type: expected %s''),
   (''FormatMismatchIndexPart'', 27, ''Field %s has type '%s' in space format, but type '%s' in index definition''),
   (''UnknownUpdateOp'', 28, ''Unknown UPDATE operation #%d: %s''),
   (''UpdateField'', 29, ''Field %s UPDATE error: %s''),
   (''FunctionTxActive'', 30, ''Transaction is active at return from function''),
   (''KeyPartCount'', 31, ''Invalid key part count (expected [0..%u], got %u)''),
   (''ProcLua'', 32, ''%s''),
   (''NoSuchProc'', 33, ''Procedure '%.*s' is not defined''),
   (''NoSuchTrigger'', 34, ''Trigger '%s' doesn't exist''),
   (''NoSuchIndexId'', 35, (''No index #%u is defined in space '%s'' @ [CHR 0x27])),
   (''NoSuchSpace'', 36, ''Space '%s' does not exist''),
   (''NoSuchFieldNo'', 37, ''Field %d was not found in the tuple''),
   (''ExactFieldCount'', 38, ''Tuple field count %u does not match space field count %u''),
   (''FieldMissing'', 39, ''Tuple field %s required by space format is missing''),
   (''WalIo'', 40, ''Failed to write to disk''),
   (''MoreThanOneTuple'', 41, ''Get() doesn't support partial keys and non-unique indexes''),
   (''AccessDenied'', 42, (''%s access to %s '%s' is denied for user '%s'' @ [CHR 0x27])),
   (''CreateUser'', 43, ''Failed to create user '%s': %s''),
   (''DropUser'', 44, ''Failed to drop user or role '%s': %s''),
   (''NoSuchUser'', 45, ''User '%s' is not found''),
   (''UserExists'', 46, ''User '%s' already exists''),
   (''CredentialsMismatch'', 47, ''User not found or supplied credentials are invalid''),
   (''UnknownRequestType'', 48, ''Unknown request type %u''),
   (''UnknownSchemaObject'', 49, (''Unknown object type '%s'' @ [CHR 0x27])),
   (''CreateFunction'', 50, ''Failed to create function '%s': %s''),
   (''NoSuchFunction'', 51, ''Function '%s' does not exist''),
   (''FunctionExists'', 52, ''Function '%s' already exists''),
   (''BeforeReplaceRet'', 53, ''Invalid return value of space:before_replace trigger: expected tuple or nil''),
   (''MultistatementTransaction'', 54, ''Can not perform %s in a multi-statement transaction''),
   (''TriggerExists'', 55, ''Trigger '%s' already exists''),
   (''UserMax'', 56, ''A limit on the total number of users has been reached: %u''),
   (''NoSuchEngine'', 57, ''Space engine '%s' does not exist''),
   (''ReloadCfg'', 58, ''Can't set option '%s' dynamically''),
   (''Cfg'', 59, ''Incorrect value for option '%s': %s'')]\<close>

definition error_switch_2 :: "(string \<times> nat \<times> string) list" where
  \<open>error_switch_2 = [
   (''SavepointEmptyTx'', 60, ''Can not set a savepoint in an empty transaction''),
   (''NoSuchSavepoint'', 61, ''Can not roll back to savepoint: the savepoint does not exist''),
   (''UnknownReplica'', 62, ''Replica %s is not registered with replica set %s''),
   (''ReplicasetUuidMismatch'', 63, ''Replica set UUID mismatch: expected %s, got %s''),
   (''InvalidUuid'', 64, ''Invalid UUID: %s''),
   (''ReplicasetUuidIsRo'', 65, ''Can't reset replica set UUID: it is already assigned''),
   (''InstanceUuidMismatch'', 66, ''Instance UUID mismatch: expected %s, got %s''),
   (''ReplicaIdIsReserved'', 67, ''Can't initialize replica id with a reserved value %u''),
   (''InvalidOrder'', 68, ''Invalid LSN order for instance %u: previous LSN = %llu, new lsn = %llu''),
   (''MissingRequestField'', 69, ''Missing mandatory field '%s' in request''),
   (''Identifier'', 70, ''Invalid identifier '%s' (expected printable symbols only or it is too long)''),
   (''DropFunction'', 71, ''Can't drop function %u: %s''),
   (''IteratorType'', 72, (''Unknown iterator type '%s'' @ [CHR 0x27])),
   (''ReplicaMax'', 73, ''Replica count limit reached: %u''),
   (''InvalidXlog'', 74, ''Failed to read xlog: %lld''),
   (''InvalidXlogName'', 75, ''Invalid xlog name: expected %lld got %lld''),
   (''InvalidXlogOrder'', 76, ''Invalid xlog order: %lld and %lld''),
   (''NoConnection'', 77, ''Connection is not established''),
   (''Timeout'', 78, ''Timeout exceeded''),
   (''ActiveTransaction'', 79, ''Operation is not permitted when there is an active transaction''),
   (''CursorNoTransaction'', 80, ''The transaction the cursor belongs to has ended''),
   (''CrossEngineTransaction'', 81, ''A multi-statement transaction can not use multiple storage engines''),
   (''NoSuchRole'', 82, ''Role '%s' is not found''),
   (''RoleExists'', 83, ''Role '%s' already exists''),
   (''CreateRole'', 84, ''Failed to create role '%s': %s''),
   (''IndexExists'', 85, ''Index '%s' already exists''),
   (''SessionClosed'', 86, ''Session is closed''),
   (''RoleLoop'', 87, ''Granting role '%s' to role '%s' would create a loop''),
   (''Grant'', 88, ''Incorrect grant arguments: %s''),
   (''PrivGranted'', 89, ''User '%s' already has %s access on %s%s''),
   (''RoleGranted'', 90, (''User '%s' already has role '%s'' @ [CHR 0x27])),
   (''PrivNotGranted'', 91, (''User '%s' does not have %s access on %s '%s'' @ [CHR 0x27])),
   (''RoleNotGranted'', 92, (''User '%s' does not have role '%s'' @ [CHR 0x27])),
   (''MissingSnapshot'', 93, ''Can't find snapshot''),
   (''CantUpdatePrimaryKey'', 94, (''Attempt to modify a tuple field which is part of primary index in space '%s'' @ [CHR 0x27])),
   (''UpdateIntegoverflow'', 95, ''Integer overflow when performing '%c' operation on field %s''),
   (''GuestUserPassword'', 96, ''Setting password for guest user has no effect''),
   (''TransactionConflict'', 97, ''Transaction has been aborted by conflict''),
   (''UnsupportedPriv'', 98, (''Unsupported %s privilege '%s'' @ [CHR 0x27])),
   (''LoadFunction'', 99, ''Failed to dynamically load function '%s': %s''),
   (''FunctionLanguage'', 100, (''Unsupported language '%s' specified for function '%s'' @ [CHR 0x27])),
   (''RtreeRect'', 101, ''RTree: %s must be an array with %u (point) or %u (rectangle/box) numeric coordinates''),
   (''ProcC'', 102, ''%s''),
   (''UnknownRtreeIndexDistanceType'', 103, ''Unknown RTREE index distance type %s''),
   (''Protocol'', 104, ''%s''),
   (''UpsertUniqueSecondaryKey'', 105, ''Space %s has a unique secondary index and does not support UPSERT''),
   (''WrongIndexRecord'', 106, ''Wrong record in _index space: got {%s}, expected {%s}''),
   (''WrongIndexParts'', 107, ''Wrong index part %u: %s''),
   (''WrongIndexOptions'', 108, ''Wrong index options: %s''),
   (''WrongSchemaVersion'', 109, ''Wrong schema version, current: %d, in request: %llu''),
   (''MemtxMaxTupleSize'', 110, ''Failed to allocate %u bytes for tuple: tuple is too large. Check 'memtx_max_tuple_size' configuration option.''),
   (''WrongSpaceOptions'', 111, ''Wrong space options: %s''),
   (''UnsupportedIndexFeature'', 112, ''Index '%s' (%s) of space '%s' (%s) does not support %s''),
   (''ViewIsRo'', 113, ''View '%s' is read-only''),
   (''NoTransaction'', 114, ''No active transaction''),
   (''System'', 115, ''%s''),
   (''Loading'', 116, ''Instance bootstrap hasn't finished yet''),
   (''ConnectionToSelf'', 117, ''Connection to self''),
   (''KeyPartIsTooLong'', 118, ''Key part is too long: %u of %u bytes''),
   (''Compression'', 119, ''Compression error: %s'')]\<close>

definition error_switch_3 :: "(string \<times> nat \<times> string) list" where
  \<open>error_switch_3 = [
   (''CheckpointInProgress'', 120, ''Snapshot is already in progress''),
   (''SubStmtMax'', 121, ''Can not execute a nested statement: nesting limit reached''),
   (''CommitInSubStmt'', 122, ''Can not commit transaction in a nested statement''),
   (''RollbackInSubStmt'', 123, ''Rollback called in a nested statement''),
   (''Decompression'', 124, ''Decompression error: %s''),
   (''InvalidXlogType'', 125, ''Invalid xlog type: expected %s, got %s''),
   (''AlreadyRunning'', 126, ''Failed to lock WAL directory %s and hot_standby mode is off''),
   (''IndexFieldCountLimit'', 127, ''Indexed field count limit reached: %d indexed fields''),
   (''LocalInstanceIdIsReadOnly'', 128, ''The local instance id %u is read-only''),
   (''BackupInProgress'', 129, ''Backup is already in progress''),
   (''ReadViewAborted'', 130, ''The read view is aborted''),
   (''InvalidIndexFile'', 131, ''Invalid INDEX file %s: %s''),
   (''InvalidRunFile'', 132, ''Invalid RUN file: %s''),
   (''InvalidVylogFile'', 133, ''Invalid VYLOG file: %s''),
   (''CascadeRollback'', 134, ''WAL has a rollback in progress''),
   (''VyQuotaTimeout'', 135, ''Timed out waiting for Vinyl memory quota''),
   (''PartialKey'', 136, ''%s index  does not support selects via a partial key (expected %u parts, got %u). Please Consider changing index type to TREE.''),
   (''TruncateSystemSpace'', 137, (''Can't truncate a system space, space '%s'' @ [CHR 0x27])),
   (''LoadModule'', 138, ''Failed to dynamically load module '%.*s': %s''),
   (''VinylMaxTupleSize'', 139, ''Failed to allocate %u bytes for tuple: tuple is too large. Check 'vinyl_max_tuple_size' configuration option.''),
   (''WrongDdVersion'', 140, (''Wrong _schema version: expected 'major.minor[.patch]'' @ [CHR 0x27])),
   (''WrongSpaceFormat'', 141, ''Wrong space format field %u: %s''),
   (''CreateSequence'', 142, ''Failed to create sequence '%s': %s''),
   (''AltSequence'', 143, ''Can't modify sequence '%s': %s''),
   (''DropSequence'', 144, ''Can't drop sequence '%s': %s''),
   (''NoSuchSequence'', 145, ''Sequence '%s' does not exist''),
   (''SequenceExists'', 146, ''Sequence '%s' already exists''),
   (''SequenceOverflow'', 147, ''Sequence '%s' has overflowed''),
   (''NoSuchIndexName'', 148, (''No index '%s' is defined in space '%s'' @ [CHR 0x27])),
   (''SpaceFieldIsDuplicate'', 149, ''Space field '%s' is duplicate''),
   (''CantCreateCollation'', 150, ''Failed to initialize collation: %s.''),
   (''WrongCollationOptions'', 151, ''Wrong collation options: %s''),
   (''NullablePrimary'', 152, ''Primary index of space '%s' can not contain nullable parts''),
   (''NoSuchFieldNameInSpace'', 153, ''Field '%s' was not found in space '%s' format''),
   (''TransactionYield'', 154, ''Transaction has been aborted by a fiber yield''),
   (''NoSuchGroup'', 155, ''Replication group '%s' does not exist''),
   (''SqlBindValue'', 156, ''Bind value for parameter %s is out of range for type %s''),
   (''SqlBindType'', 157, ''Bind value type %s for parameter %s is not supported''),
   (''SqlBindParameterMax'', 158, ''SQL bind parameter limit reached: %d''),
   (''SqlExecute'', 159, ''Failed to execute SQL statement: %s''),
   (''UpdateDecimalOverflow'', 160, ''Decimal overflow when performing operation '%c' on field %s''),
   (''SqlBindNotFound'', 161, ''Parameter %s was not found in the statement''),
   (''ActionMismatch'', 162, ''Field %s contains %s on conflict action, but %s in index parts''),
   (''ViewMissingSql'', 163, ''Space declared as a view must have SQL statement''),
   (''ForeignKeyConstraint'', 164, ''Can not commit transaction: deferred foreign keys violations are not resolved''),
   (''NoSuchModule'', 165, ''Module '%s' does not exist''),
   (''NoSuchCollation'', 166, ''Collation '%s' does not exist''),
   (''CreateFkConstraint'', 167, ''Failed to create foreign key constraint '%s': %s''),
   (''DropFkConstraint'', 168, ''Failed to drop foreign key constraint '%s': %s''),
   (''NoSuchConstraint'', 169, (''Constraint '%s' does not exist in space '%s'' @ [CHR 0x27])),
   (''ConstraintExists'', 170, (''%s constraint '%s' already exists in space '%s'' @ [CHR 0x27])),
   (''SqlTypeMismatch'', 171, ''Type mismatch: can not convert %s to %s''),
   (''RowidOverflow'', 172, ''Rowid is overflowed: too many entries in ephemeral space''),
   (''DropCollation'', 173, ''Can't drop collation '%s': %s''),
   (''IllegalCollationMix'', 174, ''Illegal mix of collations''),
   (''SqlNoSuchPragma'', 175, ''Pragma '%s' does not exist''),
   (''SqlCantResolveField'', 176, (''Can'' @ [CHR 0xE2, CHR 0x80, CHR 0x99] @ ''t resolve field '%s'' @ [CHR 0x27])),
   (''IndexExistsInSpace'', 177, (''Index '%s' already exists in space '%s'' @ [CHR 0x27])),
   (''InconsistentTypes'', 178, ''Inconsistent types: expected %s got %s''),
   (''SqlSyntaxWithPos'', 179, ''Syntax error at line %d at or near position %d: %s'')]\<close>

definition error_switch_4 :: "(string \<times> nat \<times> string) list" where
  \<open>error_switch_4 = [
   (''SqlStackOverflow'', 180, ''Failed to parse SQL statement: parser stack limit reached''),
   (''SqlSelectWildcard'', 181, ''Failed to expand '*' in SELECT statement without FROM clause''),
   (''SqlStatementEmpty'', 182, ''Failed to execute an empty SQL statement''),
   (''SqlKeywordIsReserved'', 183, ''At line %d at or near position %d: keyword '%.*s' is reserved. Please use double quotes if '%.*s' is an identifier.''),
   (''SqlSyntaxNearToken'', 184, (''Syntax error at line %d near '%.*s'' @ [CHR 0x27])),
   (''SqlUnknownToken'', 185, (''At line %d at or near position %d: unrecognized token '%.*s'' @ [CHR 0x27])),
   (''SqlParseGeneric'', 186, ''%s''),
   (''SqlAnalyzeArgument'', 187, ''ANALYZE statement argument %s is not a base table''),
   (''SqlColumnCountMax'', 188, ''Failed to create space '%s': space column count %d exceeds the limit (%d)''),
   (''HexLiteralMax'', 189, ''Hex literal %s%s length %d exceeds the supported limit (%d)''),
   (''IntLiteralMax'', 190, ''Integer literal %s%s exceeds the supported range [-9223372036854775808, 18446744073709551615]''),
   (''SqlParseLimit'', 191, ''%s %d exceeds the limit (%d)''),
   (''IndexDefUnsupported'', 192, ''%s are prohibited in an index definition''),
   (''CkDefUnsupported'', 193, ''%s are prohibited in a ck constraint definition''),
   (''MultikeyIndexMismatch'', 194, ''Field %s is used as multikey in one index and as single key in another''),
   (''CreateCkConstraint'', 195, ''Failed to create check constraint '%s': %s''),
   (''CkConstraintFailed'', 196, ''Check constraint failed '%s': %s''),
   (''SqlColumnCount'', 197, ''Unequal number of entries in row expression: left side has %u, but right side - %u''),
   (''FuncIndexFunc'', 198, ''Failed to build a key for functional index '%s' of space '%s': %s''),
   (''FuncIndexFormat'', 199, ''Key format doesn't match one defined in functional index '%s' of space '%s': %s''),
   (''FuncIndexParts'', 200, ''Wrong functional index definition: %s''),
   (''NoSuchFieldName'', 201, ''Field '%s' was not found in the tuple''),
   (''FuncWrongArgCount'', 202, ''Wrong number of arguments is passed to %s(): expected %s, got %d''),
   (''BootstrapReadonly'', 203, ''Trying to bootstrap a local read-only instance as master''),
   (''SqlFuncWrongRetCount'', 204, ''SQL expects exactly one argument returned from %s, got %d''),
   (''FuncInvalidReturnType'', 205, ''Function '%s' returned value of invalid type: expected %s got %s''),
   (''SqlParseGenericWithPos'', 206, ''At line %d at or near position %d: %s''),
   (''ReplicaNotAnon'', 207, ''Replica '%s' is not anonymous and cannot register.''),
   (''CannotRegister'', 208, ''Couldn't find an instance to register this replica on.''),
   (''SessionSettingInvalidValue'', 209, ''Session setting %s expected a value of type %s''),
   (''SqlPrepare'', 210, ''Failed to prepare SQL statement: %s''),
   (''WrongQueryId'', 211, ''Prepared statement with id %u does not exist''),
   (''SequenceNotStarted'', 212, ''Sequence '%s' is not started''),
   (''NoSuchSessionSetting'', 213, ''Session setting %s doesn't exist''),
   (''UncommittedForeignSyncTxns'', 214, ''Found uncommitted sync transactions from other instance with id %u''),
   (''SyncMasterMismatch'', 215, ''CONFIRM message arrived for an unknown master id %d, expected %d''),
   (''SyncQuorumTimeout'', 216, ''Quorum collection for a synchronous transaction is timed out''),
   (''SyncRollback'', 217, ''A rollback for a synchronous transaction is received''),
   (''TupleMetadataIsTooBig'', 218, ''Can't create tuple: metadata size %u is too big''),
   (''XlogGap'', 219, ''%s''),
   (''TooEarlySubscribe'', 220, ''Can't subscribe non-anonymous replica %s until join is done''),
   (''SqlCantAddAutoinc'', 221, ''Can't add AUTOINCREMENT: space %s can't feature more than one AUTOINCREMENT field''),
   (''QuorumWait'', 222, ''Couldn't wait for quorum %d: %s''),
   (''InterferingPromote'', 223, ''Instance with replica id %u was promoted first''),
   (''ElectionDisabled'', 224, ''Elections were turned off''),
   (''TxnRollback'', 225, ''Transaction was rolled back''),
   (''NotLeader'', 226, ''The instance is not a leader. New leader is %u''),
   (''SyncQueueUnclaimed'', 227, ''The synchronous transaction queue doesn't belong to any instance''),
   (''SyncQueueForeign'', 228, ''The synchronous transaction queue belongs to other instance with id %u''),
   (''UnableToProcessInStream'', 229, ''Unable to process %s request in stream''),
   (''UnableToProcessOutOfStream'', 230, ''Unable to process %s request out of stream''),
   (''TransactionTimeout'', 231, ''Transaction has been aborted by timeout'')]\<close>

definition error_switch_5 :: "(string \<times> nat \<times> string) list" where
  \<open>error_switch_5 = [
   (''ActiveTimer'', 232, ''Operation is not permitted if timer is already running''),
   (''TupleFieldCountLimit'', 233, ''Tuple field count limit reached: see box.schema.FIELD_MAX''),
   (''CreateConstraint'', 234, ''Failed to create constraint '%s' in space '%s': %s''),
   (''FieldConstraintFailed'', 235, (''Check constraint '%s' failed for field '%s'' @ [CHR 0x27])),
   (''TupleConstraintFailed'', 236, ''Check constraint '%s' failed for a tuple''),
   (''CreateForeignKey'', 237, ''Failed to create foreign key '%s' in space '%s': %s''),
   (''ForeignKeyIntegrity'', 238, ''Foreign key '%s' integrity check failed: %s''),
   (''FieldForeignKeyFailed'', 239, ''Foreign key constraint '%s' failed for field '%s': %s''),
   (''ComplexForeignKeyFailed'', 240, ''Foreign key constraint '%s' failed: %s''),
   (''WrongSpaceUpgradeOptions'', 241, ''Wrong space upgrade options: %s''),
   (''NoElectionQuorum'', 242, ''Not enough peers connected to start elections: %d out of minimal required %d''),
   (''Ssl'', 243, ''%s''),
   (''SplitBrain'', 244, ''Split-Brain discovered: %s''),
   (''OldTerm'', 245, ''The term is outdated: old - %llu, new - %llu''),
   (''InterferingElections'', 246, ''Interfering elections started''),
   (''IteratorPosition'', 247, ''Iterator position is invalid''),
   (''DefaultValueType'', 248, ''Type of the default value does not match tuple field %s type: expected %s, got %s''),
   (''UnknownAuthMethod'', 249, (''Unknown authentication method '%s'' @ [CHR 0x27])),
   (''InvalidAuthData'', 250, ''Invalid '%s' data: %s''),
   (''InvalidAuthRequest'', 251, ''Invalid '%s' request: %s''),
   (''WeakPassword'', 252, ''Password doesn't meet security requirements: %s''),
   (''OldPassword'', 253, ''Password must differ from last %d passwords''),
   (''NoSuchSession'', 254, ''Session %llu does not exist''),
   (''WrongSessionType'', 255, ''Session '%s' is not supported''),
   (''PasswordExpired'', 256, ''Password expired''),
   (''AuthDelay'', 257, ''Too many authentication attempts''),
   (''AuthRequired'', 258, ''Authentication required''),
   (''SqlSeqScan'', 259, ''Scanning is not allowed for %s''),
   (''NoSuchEvent'', 260, ''Unknown event %s''),
   (''BootstrapNotUnanimous'', 261, ''Replica %s chose a different bootstrap leader %s''),
   (''CantCheckBootstrapLeader'', 262, ''Can't check who replica %s chose its bootstrap leader''),
   (''BootstrapConnectionNotToAll'', 263, ''Some replica set members were not specified in box.cfg.replication''),
   (''NilUuid'', 264, ''Nil UUID is reserved and can't be used in replication''),
   (''WrongFunctionOptions'', 265, ''Wrong function options: %s''),
   (''MissingSystemSpaces'', 266, ''Snapshot has no system spaces''),
   (''ClusterNameMismatch'', 267, (''Cluster name mismatch: name '%s' provided in config conflicts with the instance one '%s'' @ [CHR 0x27])),
   (''ReplicasetNameMismatch'', 268, (''Replicaset name mismatch: name '%s' provided in config conflicts with the instance one '%s'' @ [CHR 0x27])),
   (''InstanceNameDuplicate'', 269, ''Duplicate replica name %s, already occupied by %s''),
   (''InstanceNameMismatch'', 270, (''Instance name mismatch: name '%s' provided in config conflicts with the instance one '%s'' @ [CHR 0x27])),
   (''SchemaNeedsUpgrade'', 271, ''Your schema version is %u.%u.%u while Tarantool %s requires a more recent schema version. Please, consider using box.schema.upgrade().''),
   (''SchemaUpgradeInProgress'', 272, ''Schema upgrade is already in progress''),
   (''Deprecated'', 273, ''%s is deprecated''),
   (''Unconfigured'', 274, ''Please call box.cfg{} first''),
   (''CreateDefaultFunc'', 275, ''Failed to create field default function '%s': %s''),
   (''DefaultFuncFailed'', 276, ''Error calling field default function '%s': %s''),
   (''InvalidDec'', 277, (''Invalid decimal: '%s'' @ [CHR 0x27])),
   (''InAnotherPromote'', 278, ''box.ctl.promote() is already running''),
   (''Shutdown'', 279, ''Server is shutting down''),
   (''FieldValueOutOfRange'', 280, ''The value of field %s exceeds the supported range for type '%s': expected [%s..%s], got %s'')]\<close>

definition tarantool_errors :: "(string \<times> nat) list" where
  "tarantool_errors = TarantoolError_1 @ TarantoolError_2 @ TarantoolError_3"

text \<open>
  What the comments of the enumeration say each error means, transcribed from them and not from the \<open>switch\<close>.
\<close>

definition error_docs_1 :: "(string \<times> string) list" where
  \<open>error_docs_1 = [
   (''Unknown'', ''Unknown error''),
   (''IllegalParams'', ''Illegal parameters, %s''),
   (''MemoryIssue'', ''Failed to allocate %u bytes in %s for %s''),
   (''TupleFound'', ''Duplicate key exists in unique index "%s" in space "%s" with old tuple - %s and new tuple - %s''),
   (''TupleNotFound'', (''Tuple doesn't exist in index '%s' in space '%s'' @ [CHR 0x27])),
   (''Unsupported'', ''%s does not support %s''),
   (''NonMaster'', ''Can't modify data on a replication slave. My master is: %s''),
   (''Readonly'', ''Can't modify data on a read-only instance''),
   (''Injection'', (''Error injection '%s'' @ [CHR 0x27])),
   (''CreateSpace'', ''Failed to create space '%s': %s''),
   (''SpaceExists'', ''Space '%s' already exists''),
   (''DropSpace'', ''Can't drop space '%s': %s''),
   (''AltSpace'', ''Can't modify space '%s': %s''),
   (''IndexType'', (''Unsupported index type supplied for index '%s' in space '%s'' @ [CHR 0x27])),
   (''ModifyIndex'', ''Can't create or modify index '%s' in space '%s': %s''),
   (''LastDrop'', (''Can't drop the primary key in a system space, space '%s'' @ [CHR 0x27])),
   (''TupleFormatLimit'', ''Tuple format limit reached: %u''),
   (''DropPrimaryKey'', ''Can't drop primary key in space '%s' while secondary keys exist''),
   (''KeyPartType'', ''Supplied key type of part %u does not match index part type: expected %s''),
   (''ExactMatch'', ''Invalid key part count in an exact match (expected %u, got %u)''),
   (''InvalidMsgpack'', ''Invalid MsgPack - %s''),
   (''ProcRet'', (''msgpack.encode: can not encode Lua type '%s'' @ [CHR 0x27])),
   (''TupleNotArray'', ''Tuple/Key must be MsgPack array''),
   (''FieldTypeMismatch'', ''Tuple field %s type does not match one required by operation: expected %s, got %s''),
   (''IndexPartTypeMismatch'', ''Field %s has type '%s' in one index, but type '%s' in another''),
   (''UpdateSplice'', ''SPLICE error on field %s: %s''),
   (''UpdateArgType'', ''Argument type in operation '%c' on field %s does not match field type: expected %s''),
   (''FormatMismatchIndexPart'', ''Field %s has type '%s' in space format, but type '%s' in index definition''),
   (''UnknownUpdateOp'', ''Unknown UPDATE operation #%d: %s''),
   (''UpdateField'', ''Field %s UPDATE error: %s''),
   (''FunctionTxActive'', ''Transaction is active at return from function''),
   (''KeyPartCount'', ''Invalid key part count (expected [0..%u], got %u)''),
   (''ProcLua'', ''%s''),
   (''NoSuchProc'', ''Procedure '%.*s' is not defined''),
   (''NoSuchTrigger'', ''Trigger '%s' doesn't exist''),
   (''NoSuchIndexId'', (''No index #%u is defined in space '%s'' @ [CHR 0x27])),
   (''NoSuchSpace'', ''Space '%s' does not exist''),
   (''NoSuchFieldNo'', ''Field %d was not found in the tuple''),
   (''ExactFieldCount'', ''Tuple field count %u does not match space field count %u''),
   (''FieldMissing'', ''Tuple field %s required by space format is missing''),
   (''WalIo'', ''Failed to write to disk''),
   (''MoreThanOneTuple'', ''Get() doesn't support partial keys and non-unique indexes''),
   (''AccessDenied'', (''%s access to %s '%s' is denied for user '%s'' @ [CHR 0x27])),
   (''CreateUser'', ''Failed to create user '%s': %s''),
   (''DropUser'', ''Failed to drop user or role '%s': %s''),
   (''NoSuchUser'', ''User '%s' is not found''),
   (''UserExists'', ''User '%s' already exists''),
   (''CredentialsMismatch'', ''User not found or supplied credentials are invalid''),
   (''UnknownRequestType'', ''Unknown request type %u''),
   (''UnknownSchemaObject'', (''Unknown object type '%s'' @ [CHR 0x27])),
   (''CreateFunction'', ''Failed to create function '%s': %s''),
   (''NoSuchFunction'', ''Function '%s' does not exist''),
   (''FunctionExists'', ''Function '%s' already exists''),
   (''BeforeReplaceRet'', ''Invalid return value of space:before_replace trigger: expected tuple or nil''),
   (''MultistatementTransaction'', ''Can not perform %s in a multi-statement transaction''),
   (''TriggerExists'', ''Trigger '%s' already exists''),
   (''UserMax'', ''A limit on the total number of users has been reached: %u''),
   (''NoSuchEngine'', ''Space engine '%s' does not exist''),
   (''ReloadCfg'', ''Can't set option '%s' dynamically''),
   (''Cfg'', ''Incorrect value for option '%s': %s''),
   (''SavepointEmptyTx'', ''Can not set a savepoint in an empty transaction''),
   (''NoSuchSavepoint'', ''Can not roll back to savepoint: the savepoint does not exist''),
   (''UnknownReplica'', ''Replica %s is not registered with replica set %s''),
   (''ReplicasetUuidMismatch'', ''Replica set UUID mismatch: expected %s, got %s''),
   (''InvalidUuid'', ''Invalid UUID: %s''),
   (''ReplicasetUuidIsRo'', ''Can't reset replica set UUID: it is already assigned''),
   (''InstanceUuidMismatch'', ''Instance UUID mismatch: expected %s, got %s''),
   (''ReplicaIdIsReserved'', ''Can't initialize replica id with a reserved value %u''),
   (''InvalidOrder'', ''Invalid LSN order for instance %u: previous LSN = %llu, new lsn = %llu''),
   (''MissingRequestField'', ''Missing mandatory field '%s' in request''),
   (''Identifier'', ''Invalid identifier '%s' (expected printable symbols only or it is too long)''),
   (''DropFunction'', ''Can't drop function %u: %s''),
   (''IteratorType'', (''Unknown iterator type '%s'' @ [CHR 0x27])),
   (''ReplicaMax'', ''Replica count limit reached: %u''),
   (''InvalidXlog'', ''Failed to read xlog: %lld''),
   (''InvalidXlogName'', ''Invalid xlog name: expected %lld got %lld''),
   (''InvalidXlogOrder'', ''Invalid xlog order: %lld and %lld''),
   (''NoConnection'', ''Connection is not established''),
   (''Timeout'', ''Timeout exceeded''),
   (''ActiveTransaction'', ''Operation is not permitted when there is an active transaction''),
   (''CursorNoTransaction'', ''The transaction the cursor belongs to has ended''),
   (''CrossEngineTransaction'', ''A multi-statement transaction can not use multiple storage engines''),
   (''NoSuchRole'', ''Role '%s' is not found''),
   (''RoleExists'', ''Role '%s' already exists''),
   (''CreateRole'', ''Failed to create role '%s': %s''),
   (''IndexExists'', ''Index '%s' already exists''),
   (''SessionClosed'', ''Session is closed''),
   (''RoleLoop'', ''Granting role '%s' to role '%s' would create a loop''),
   (''Grant'', ''Incorrect grant arguments: %s''),
   (''PrivGranted'', ''User '%s' already has %s access on %s%s''),
   (''RoleGranted'', (''User '%s' already has role '%s'' @ [CHR 0x27])),
   (''PrivNotGranted'', (''User '%s' does not have %s access on %s '%s'' @ [CHR 0x27])),
   (''RoleNotGranted'', (''User '%s' does not have role '%s'' @ [CHR 0x27])),
   (''MissingSnapshot'', ''Can't find snapshot''),
   (''CantUpdatePrimaryKey'', (''Attempt to modify a tuple field which is part of primary index in space '%s'' @ [CHR 0x27])),
   (''UpdateIntegoverflow'', ''Integer overflow when performing '%c' operation on field %s''),
   (''GuestUserPassword'', ''Setting password for guest user has no effect''),
   (''TransactionConflict'', ''Transaction has been aborted by conflict''),
   (''UnsupportedPriv'', (''Unsupported %s privilege '%s'' @ [CHR 0x27])),
   (''LoadFunction'', ''Failed to dynamically load function '%s': %s'')]\<close>

definition error_docs_2 :: "(string \<times> string) list" where
  \<open>error_docs_2 = [
   (''FunctionLanguage'', (''Unsupported language '%s' specified for function '%s'' @ [CHR 0x27])),
   (''RtreeRect'', ''RTree: %s must be an array with %u (point) or %u (rectangle/box) numeric coordinates''),
   (''ProcC'', ''%s''),
   (''UnknownRtreeIndexDistanceType'', ''Unknown RTREE index distance type %s''),
   (''Protocol'', ''%s''),
   (''UpsertUniqueSecondaryKey'', ''Space %s has a unique secondary index and does not support UPSERT''),
   (''WrongIndexRecord'', ''Wrong record in _index space: got {%s}, expected {%s}''),
   (''WrongIndexParts'', ''Wrong index part %u: %s''),
   (''WrongIndexOptions'', ''Wrong index options: %s''),
   (''WrongSchemaVersion'', ''Wrong schema version, current: %d, in request: %llu''),
   (''MemtxMaxTupleSize'', ''Failed to allocate %u bytes for tuple: tuple is too large. Check 'memtx_max_tuple_size' configuration option.''),
   (''WrongSpaceOptions'', ''Wrong space options: %s''),
   (''UnsupportedIndexFeature'', ''Index '%s' (%s) of space '%s' (%s) does not support %s''),
   (''ViewIsRo'', ''View '%s' is read-only''),
   (''NoTransaction'', ''No active transaction''),
   (''System'', ''%s''),
   (''Loading'', ''Instance bootstrap hasn't finished yet''),
   (''ConnectionToSelf'', ''Connection to self''),
   (''KeyPartIsTooLong'', ''Key part is too long: %u of %u bytes''),
   (''Compression'', ''Compression error: %s''),
   (''CheckpointInProgress'', ''Snapshot is already in progress''),
   (''SubStmtMax'', ''Can not execute a nested statement: nesting limit reached''),
   (''CommitInSubStmt'', ''Can not commit transaction in a nested statement''),
   (''RollbackInSubStmt'', ''Rollback called in a nested statement''),
   (''Decompression'', ''Decompression error: %s''),
   (''InvalidXlogType'', ''Invalid xlog type: expected %s, got %s''),
   (''AlreadyRunning'', ''Failed to lock WAL directory %s and hot_standby mode is off''),
   (''IndexFieldCountLimit'', ''Indexed field count limit reached: %d indexed fields''),
   (''LocalInstanceIdIsReadOnly'', ''The local instance id %u is read-only''),
   (''BackupInProgress'', ''Backup is already in progress''),
   (''ReadViewAborted'', ''The read view is aborted''),
   (''InvalidIndexFile'', ''Invalid INDEX file %s: %s''),
   (''InvalidRunFile'', ''Invalid RUN file: %s''),
   (''InvalidVylogFile'', ''Invalid VYLOG file: %s''),
   (''CascadeRollback'', ''WAL has a rollback in progress''),
   (''VyQuotaTimeout'', ''Timed out waiting for Vinyl memory quota''),
   (''PartialKey'', ''%s index  does not support selects via a partial key (expected %u parts, got %u). Please Consider changing index type to TREE.''),
   (''TruncateSystemSpace'', (''Can't truncate a system space, space '%s'' @ [CHR 0x27])),
   (''LoadModule'', ''Failed to dynamically load module '%.*s': %s''),
   (''VinylMaxTupleSize'', ''Failed to allocate %u bytes for tuple: tuple is too large. Check 'vinyl_max_tuple_size' configuration option.''),
   (''WrongDdVersion'', (''Wrong _schema version: expected 'major.minor[.patch]'' @ [CHR 0x27])),
   (''WrongSpaceFormat'', ''Wrong space format field %u: %s''),
   (''CreateSequence'', ''Failed to create sequence '%s': %s''),
   (''AltSequence'', ''Can't modify sequence '%s': %s''),
   (''DropSequence'', ''Can't drop sequence '%s': %s''),
   (''NoSuchSequence'', ''Sequence '%s' does not exist''),
   (''SequenceExists'', ''Sequence '%s' already exists''),
   (''SequenceOverflow'', ''Sequence '%s' has overflowed''),
   (''NoSuchIndexName'', (''No index '%s' is defined in space '%s'' @ [CHR 0x27])),
   (''SpaceFieldIsDuplicate'', ''Space field '%s' is duplicate''),
   (''CantCreateCollation'', ''Failed to initialize collation: %s.''),
   (''WrongCollationOptions'', ''Wrong collation options: %s''),
   (''NullablePrimary'', ''Primary index of space '%s' can not contain nullable parts''),
   (''NoSuchFieldNameInSpace'', ''Field '%s' was not found in space '%s' format''),
   (''TransactionYield'', ''Transaction has been aborted by a fiber yield''),
   (''NoSuchGroup'', ''Replication group '%s' does not exist''),
   (''SqlBindValue'', ''Bind value for parameter %s is out of range for type %s''),
   (''SqlBindType'', ''Bind value type %s for parameter %s is not supported''),
   (''SqlBindParameterMax'', ''SQL bind parameter limit reached: %d''),
   (''SqlExecute'', ''Failed to execute SQL statement: %s''),
   (''UpdateDecimalOverflow'', ''Decimal overflow when performing operation '%c' on field %s''),
   (''SqlBindNotFound'', ''Parameter %s was not found in the statement''),
   (''ActionMismatch'', ''Field %s contains %s on conflict action, but %s in index parts''),
   (''ViewMissingSql'', ''Space declared as a view must have SQL statement''),
   (''ForeignKeyConstraint'', ''Can not commit transaction: deferred foreign keys violations are not resolved''),
   (''NoSuchModule'', ''Module '%s' does not exist''),
   (''NoSuchCollation'', ''Collation '%s' does not exist''),
   (''CreateFkConstraint'', ''Failed to create foreign key constraint '%s': %s''),
   (''DropFkConstraint'', ''Failed to drop foreign key constraint '%s': %s''),
   (''NoSuchConstraint'', (''Constraint '%s' does not exist in space '%s'' @ [CHR 0x27])),
   (''ConstraintExists'', (''%s constraint '%s' already exists in space '%s'' @ [CHR 0x27])),
   (''SqlTypeMismatch'', ''Type mismatch: can not convert %s to %s''),
   (''RowidOverflow'', ''Rowid is overflowed: too many entries in ephemeral space''),
   (''DropCollation'', ''Can't drop collation '%s': %s''),
   (''IllegalCollationMix'', ''Illegal mix of collations''),
   (''SqlNoSuchPragma'', ''Pragma '%s' does not exist''),
   (''SqlCantResolveField'', (''Can'' @ [CHR 0xE2, CHR 0x80, CHR 0x99] @ ''t resolve field '%s'' @ [CHR 0x27])),
   (''IndexExistsInSpace'', (''Index '%s' already exists in space '%s'' @ [CHR 0x27])),
   (''InconsistentTypes'', ''Inconsistent types: expected %s got %s''),
   (''SqlSyntaxWithPos'', ''Syntax error at line %d at or near position %d: %s''),
   (''SqlStackOverflow'', ''Failed to parse SQL statement: parser stack limit reached''),
   (''SqlSelectWildcard'', ''Failed to expand '*' in SELECT statement without FROM clause''),
   (''SqlStatementEmpty'', ''Failed to execute an empty SQL statement''),
   (''SqlKeywordIsReserved'', ''At line %d at or near position %d: keyword '%.*s' is reserved. Please use double quotes if '%.*s' is an identifier.''),
   (''SqlSyntaxNearToken'', (''Syntax error at line %d near '%.*s'' @ [CHR 0x27])),
   (''SqlUnknownToken'', (''At line %d at or near position %d: unrecognized token '%.*s'' @ [CHR 0x27])),
   (''SqlParseGeneric'', ''%s''),
   (''SqlAnalyzeArgument'', ''ANALYZE statement argument %s is not a base table''),
   (''SqlColumnCountMax'', ''Failed to create space '%s': space column count %d exceeds the limit (%d)''),
   (''HexLiteralMax'', ''Hex literal %s%s length %d exceeds the supported limit (%d)''),
   (''IntLiteralMax'', ''Integer literal %s%s exceeds the supported range [-9223372036854775808, 18446744073709551615]''),
   (''SqlParseLimit'', ''%s %d exceeds the limit (%d)''),
   (''IndexDefUnsupported'', ''%s are prohibited in an index definition''),
   (''CkDefUnsupported'', ''%s are prohibited in a ck constraint definition''),
   (''MultikeyIndexMismatch'', ''Field %s is used as multikey in one index and as single key in another''),
   (''CreateCkConstraint'', ''Failed to create check constraint '%s': %s''),
   (''CkConstraintFailed'', ''Check constraint failed '%s': %s''),
   (''SqlColumnCount'', ''Unequal number of entries in row expression: left side has %u, but right side - %u''),
   (''FuncIndexFunc'', ''Failed to build a key for functional index '%s' of space '%s': %s''),
   (''FuncIndexFormat'', ''Key format doesn't match one defined in functional index '%s' of space '%s': %s'')]\<close>

definition error_docs_3 :: "(string \<times> string) list" where
  \<open>error_docs_3 = [
   (''FuncIndexParts'', ''Wrong functional index definition: %s''),
   (''NoSuchFieldName'', ''Field '%s' was not found in the tuple''),
   (''FuncWrongArgCount'', ''Wrong number of arguments is passed to %s(): expected %s, got %d''),
   (''BootstrapReadonly'', ''Trying to bootstrap a local read-only instance as master''),
   (''SqlFuncWrongRetCount'', ''SQL expects exactly one argument returned from %s, got %d''),
   (''FuncInvalidReturnType'', ''Function '%s' returned value of invalid type: expected %s got %s''),
   (''SqlParseGenericWithPos'', ''At line %d at or near position %d: %s''),
   (''ReplicaNotAnon'', ''Replica '%s' is not anonymous and cannot register.''),
   (''CannotRegister'', ''Couldn't find an instance to register this replica on.''),
   (''SessionSettingInvalidValue'', ''Session setting %s expected a value of type %s''),
   (''SqlPrepare'', ''Failed to prepare SQL statement: %s''),
   (''WrongQueryId'', ''Prepared statement with id %u does not exist''),
   (''SequenceNotStarted'', ''Sequence '%s' is not started''),
   (''NoSuchSessionSetting'', ''Session setting %s doesn't exist''),
   (''UncommittedForeignSyncTxns'', ''Found uncommitted sync transactions from other instance with id %u''),
   (''SyncMasterMismatch'', ''CONFIRM message arrived for an unknown master id %d, expected %d''),
   (''SyncQuorumTimeout'', ''Quorum collection for a synchronous transaction is timed out''),
   (''SyncRollback'', ''A rollback for a synchronous transaction is received''),
   (''TupleMetadataIsTooBig'', ''Can't create tuple: metadata size %u is too big''),
   (''XlogGap'', ''%s''),
   (''TooEarlySubscribe'', ''Can't subscribe non-anonymous replica %s until join is done''),
   (''SqlCantAddAutoinc'', ''Can't add AUTOINCREMENT: space %s can't feature more than one AUTOINCREMENT field''),
   (''QuorumWait'', ''Couldn't wait for quorum %d: %s''),
   (''InterferingPromote'', ''Instance with replica id %u was promoted first''),
   (''ElectionDisabled'', ''Elections were turned off''),
   (''TxnRollback'', ''Transaction was rolled back''),
   (''NotLeader'', ''The instance is not a leader. New leader is %u''),
   (''SyncQueueUnclaimed'', ''The synchronous transaction queue doesn't belong to any instance''),
   (''SyncQueueForeign'', ''The synchronous transaction queue belongs to other instance with id %u''),
   (''UnableToProcessInStream'', ''Unable to process %s request in stream''),
   (''UnableToProcessOutOfStream'', ''Unable to process %s request out of stream''),
   (''TransactionTimeout'', ''Transaction has been aborted by timeout''),
   (''ActiveTimer'', ''Operation is not permitted if timer is already running''),
   (''TupleFieldCountLimit'', ''Tuple field count limit reached: see box.schema.FIELD_MAX''),
   (''CreateConstraint'', ''Failed to create constraint '%s' in space '%s': %s''),
   (''FieldConstraintFailed'', (''Check constraint '%s' failed for field '%s'' @ [CHR 0x27])),
   (''TupleConstraintFailed'', ''Check constraint '%s' failed for a tuple''),
   (''CreateForeignKey'', ''Failed to create foreign key '%s' in space '%s': %s''),
   (''ForeignKeyIntegrity'', ''Foreign key '%s' integrity check failed: %s''),
   (''FieldForeignKeyFailed'', ''Foreign key constraint '%s' failed for field '%s': %s''),
   (''ComplexForeignKeyFailed'', ''Foreign key constraint '%s' failed: %s''),
   (''WrongSpaceUpgradeOptions'', ''Wrong space upgrade options: %s''),
   (''NoElectionQuorum'', ''Not enough peers connected to start elections: %d out of minimal required %d''),
   (''Ssl'', ''%s''),
   (''SplitBrain'', ''Split-Brain discovered: %s''),
   (''OldTerm'', ''The term is outdated: old - %llu, new - %llu''),
   (''InterferingElections'', ''Interfering elections started''),
   (''IteratorPosition'', ''Iterator position is invalid''),
   (''DefaultValueType'', ''Type of the default value does not match tuple field %s type: expected %s, got %s''),
   (''UnknownAuthMethod'', (''Unknown authentication method '%s'' @ [CHR 0x27])),
   (''InvalidAuthData'', ''Invalid '%s' data: %s''),
   (''InvalidAuthRequest'', ''Invalid '%s' request: %s''),
   (''WeakPassword'', ''Password doesn't meet security requirements: %s''),
   (''OldPassword'', ''Password must differ from last %d passwords''),
   (''NoSuchSession'', ''Session %llu does not exist''),
   (''WrongSessionType'', ''Session '%s' is not supported''),
   (''PasswordExpired'', ''Password expired''),
   (''AuthDelay'', ''Too many authentication attempts''),
   (''AuthRequired'', ''Authentication required''),
   (''SqlSeqScan'', ''Scanning is not allowed for %s''),
   (''NoSuchEvent'', ''Unknown event %s''),
   (''BootstrapNotUnanimous'', ''Replica %s chose a different bootstrap leader %s''),
   (''CantCheckBootstrapLeader'', ''Can't check who replica %s chose its bootstrap leader''),
   (''BootstrapConnectionNotToAll'', ''Some replica set members were not specified in box.cfg.replication''),
   (''NilUuid'', ''Nil UUID is reserved and can't be used in replication''),
   (''WrongFunctionOptions'', ''Wrong function options: %s''),
   (''MissingSystemSpaces'', ''Snapshot has no system spaces''),
   (''ClusterNameMismatch'', (''Cluster name mismatch: name '%s' provided in config conflicts with the instance one '%s'' @ [CHR 0x27])),
   (''ReplicasetNameMismatch'', (''Replicaset name mismatch: name '%s' provided in config conflicts with the instance one '%s'' @ [CHR 0x27])),
   (''InstanceNameDuplicate'', ''Duplicate replica name %s, already occupied by %s''),
   (''InstanceNameMismatch'', (''Instance name mismatch: name '%s' provided in config conflicts with the instance one '%s'' @ [CHR 0x27])),
   (''SchemaNeedsUpgrade'', ''Your schema version is %u.%u.%u while Tarantool %s requires a more recent schema version. Please, consider using box.schema.upgrade().''),
   (''SchemaUpgradeInProgress'', ''Schema upgrade is already in progress''),
   (''Deprecated'', ''%s is deprecated''),
   (''Unconfigured'', ''Please call box.cfg{} first''),
   (''CreateDefaultFunc'', ''Failed to create field default function '%s': %s''),
   (''DefaultFuncFailed'', ''Error calling field default function '%s': %s''),
   (''InvalidDec'', (''Invalid decimal: '%s'' @ [CHR 0x27])),
   (''InAnotherPromote'', ''box.ctl.promote() is already running''),
   (''Shutdown'', ''Server is shutting down''),
   (''FieldValueOutOfRange'', ''The value of field %s exceeds the supported range for type '%s': expected [%s..%s], got %s'')]\<close>

definition error_docs :: "(string \<times> string) list" where
  "error_docs = error_docs_1 @ error_docs_2 @ error_docs_3"

definition error_switch :: "(string \<times> nat \<times> string) list" where
  "error_switch = error_switch_1 @ error_switch_2 @ error_switch_3 @ error_switch_4 @ error_switch_5"

definition TarantoolError_Unknown :: u64 where
  "TarantoolError_Unknown = 0"

definition TarantoolError_FieldValueOutOfRange :: u64 where
  "TarantoolError_FieldValueOutOfRange = 280"

definition int_to_tarantool_error :: "u64 \<Rightarrow> u64" where
  "int_to_tarantool_error ec =
     (if ec \<le> TarantoolError_FieldValueOutOfRange then ec else TarantoolError_Unknown)"

definition category_name :: string where
  "category_name = ''tarantool_error''"

text \<open>\<open>TarantoolErrorCategory::message(int ev)\<close>: the first \<open>case\<close> whose enumerator equals the code.\<close>

definition message :: "int \<Rightarrow> string run" where
  "message ev =
     assert_run (0 \<le> ev)
       (let ec = int_to_tarantool_error (word_of_int ev)
        in Inr (case find (\<lambda>(n, v, m). v = unat ec) error_switch of
                  Some (n, v, m) \<Rightarrow> m
                | None \<Rightarrow> ''Unknown''))"

subsection \<open>Lemmas\<close>

lemmas switch_defs = error_switch_def error_switch_1_def error_switch_2_def error_switch_3_def
  error_switch_4_def error_switch_5_def

lemmas errors_defs = tarantool_errors_def TarantoolError_1_def TarantoolError_2_def TarantoolError_3_def

lemmas docs_defs = error_docs_def error_docs_1_def error_docs_2_def error_docs_3_def

text \<open>The two tables were written by hand in the source; they agree but for their first texts.\<close>

lemma docs_of_switch:
  "error_docs = (''Unknown'', ''Unknown error'') # map (\<lambda>(n, v, m). (n, m)) (tl error_switch)"
  "hd error_switch = (''Unknown'', 0, ''Unknown'')"
  by (simp_all only: docs_defs switch_defs append.simps list.sel list.map prod.case)

text \<open>The \<open>switch\<close> has one case per enumerator, in the order of the enumeration.\<close>

lemma switch_covers_enum: "map (\<lambda>(n, v, m). (n, v)) error_switch = tarantool_errors"
  by (simp add: switch_defs errors_defs)

lemma enum_values: "map snd tarantool_errors = [0..<281]"
  by (simp add: errors_defs upt_rec)

lemma length_tables: "length tarantool_errors = 281" "length error_switch = 281"
  using arg_cong [OF enum_values, of length] arg_cong [OF switch_covers_enum, of length] by simp_all

lemma find_indexed:
  assumes "map f xs = [0..<n]" "i < n"
  shows "find (\<lambda>x. f x = i) xs = Some (xs ! i)"
proof -
  have len: "length xs = n" using arg_cong [OF assms(1), of length] by simp
  have at: "f (xs ! k) = k" if "k < n" for k
    using that arg_cong [OF assms(1), of "\<lambda>ys. ys ! k"] len by simp
  show ?thesis
    unfolding find_Some_iff using assms(2) len at by (intro exI [of _ i]) auto
qed

lemma switch_values: "map (\<lambda>(n, v, m). v) error_switch = [0..<281]"
proof -
  have "map (\<lambda>(n, v, m). v) error_switch = map snd (map (\<lambda>(n, v, m). (n, v)) error_switch)"
    by (simp add: split_def)
  then show ?thesis by (simp only: switch_covers_enum enum_values)
qed

lemma int_to_tarantool_error_unat:
  "unat (int_to_tarantool_error ec) = (if unat ec \<le> 280 then unat ec else 0)"
  by (simp add: int_to_tarantool_error_def TarantoolError_FieldValueOutOfRange_def
      TarantoolError_Unknown_def word_le_nat_alt)

lemma message_at:
  assumes "0 \<le> ev" "ev < 2 ^ 31"
  shows "message ev = Inr (snd (snd (error_switch ! (if ev \<le> 280 then nat ev else 0))))"
proof -
  let ?i = "if ev \<le> 280 then nat ev else 0"
  have "unat (word_of_int ev :: u64) = nat ev"
    using assms by (simp add: unsigned_of_int take_bit_int_eq_self)
  then have "unat (int_to_tarantool_error (word_of_int ev)) = ?i"
    using assms by (auto simp: int_to_tarantool_error_unat)
  moreover have "?i < 281" by auto
  then have "find (\<lambda>(n, v, m). v = ?i) error_switch = Some (error_switch ! ?i)"
    using find_indexed [OF switch_values, of ?i] by (simp only: split_def)
  ultimately show ?thesis
    using assms by (simp add: message_def Let_def split_def)
qed

lemma doc_at:
  assumes "i < length error_switch" "error_switch ! i = (name, v, msg)"
  shows "error_docs ! i = (name, if i = 0 then ''Unknown error'' else msg)" "i = 0 \<Longrightarrow> name = ''Unknown'' \<and> msg = ''Unknown''"
proof -
  have 0: "error_switch ! 0 = (''Unknown'', 0, ''Unknown'')"
    using docs_of_switch(2) assms(1) hd_conv_nth [of error_switch] by (cases "error_switch = []") auto
  show "i = 0 \<Longrightarrow> name = ''Unknown'' \<and> msg = ''Unknown''" using assms(2) 0 by auto
  show "error_docs ! i = (name, if i = 0 then ''Unknown error'' else msg)"
  proof (cases i)
    case 0
    then show ?thesis using assms(2) \<open>error_switch ! 0 = _\<close> by (simp add: docs_of_switch(1))
  next
    case (Suc j)
    then show ?thesis using assms by (simp add: docs_of_switch(1) nth_tl)
  qed
qed

subsection \<open>Properties\<close>

text \<open>
  C38: every code of the server has the message its documentation promises. For each code from 1 to 280
  there is an enumerator with that value, and \<open>message\<close> returns the very text its comment gives; for
  code 0 the comment says ``Unknown error'', but the message is ``Unknown''. A larger code gets that
  message too; a negative one fails the assertion.
\<close>

theorem message_of_code:
  assumes "ev < 2 ^ 31"
  shows "(0 \<le> ev \<and> ev \<le> 280 \<longrightarrow>
       (\<exists>name text. tarantool_errors ! nat ev = (name, nat ev) \<and> error_docs ! nat ev = (name, text)
          \<and> message ev = Inr (if ev = 0 then ''Unknown'' else text)))
     \<and> error_docs ! 0 = (''Unknown'', ''Unknown error'')
     \<and> (280 < ev \<longrightarrow> message ev = Inr ''Unknown'') \<and> (ev < 0 \<longrightarrow> message ev = Inl Assertion_failed)"
proof (intro conjI impI)
  assume ev: "0 \<le> ev \<and> ev \<le> 280"
  obtain name v msg where sw: "error_switch ! nat ev = (name, v, msg)" by (metis prod_cases3)
  have lt: "nat ev < length error_switch" using ev length_tables(2) by (simp add: nat_less_iff)
  have "tarantool_errors ! nat ev = (name, v)"
    using sw lt by (simp flip: switch_covers_enum)
  moreover have "v = nat ev"
    using sw lt arg_cong [OF switch_values, of "\<lambda>xs. xs ! nat ev"] ev by (simp add: length_tables)
  moreover have "message ev = Inr msg"
    using message_at [of ev] ev sw by simp
  moreover have "error_docs ! nat ev = (name, if ev = 0 then ''Unknown error'' else msg)" "ev = 0 \<Longrightarrow> msg = ''Unknown''"
    using doc_at [OF lt] sw ev by auto
  ultimately show "\<exists>name text. tarantool_errors ! nat ev = (name, nat ev) \<and> error_docs ! nat ev = (name, text)
      \<and> message ev = Inr (if ev = 0 then ''Unknown'' else text)"
    by auto
next
  show "error_docs ! 0 = (''Unknown'', ''Unknown error'')" by (simp add: docs_of_switch)
next
  assume "280 < ev"
  then have "message ev = Inr (snd (snd (error_switch ! 0)))" using message_at [of ev] assms by simp
  then show "message ev = Inr ''Unknown''" by (simp add: switch_defs)
next
  assume "ev < 0"
  then show "message ev = Inl Assertion_failed" by (simp add: message_def)
qed

theorem message_of_code_witness:
  "message 0 = Inr ''Unknown'' \<and> message 281 = Inr ''Unknown''
     \<and> message 47 = Inr ''User not found or supplied credentials are invalid''"
  using message_of_code [of 47] message_of_code [of 281] message_of_code [of 0]
  by (simp add: docs_defs)

end
