(* ===== verification/Msgpack.thy ===== *)
theory Msgpack
  imports Prelude
begin

text \<open>
  The MessagePack library (\<open>msgpack-cxx\<close>) is not part of the repository. Its values are a
  datatype, because the connector looks at their type tags; its functions are the fields of the
  record \<open>msgpack_lib\<close>, an argument of every definition that calls them; and \<open>msgpack_ok\<close> states
  what its documentation promises and the connector relies on. The end of the theory gives one
  encoder and decoder for the format and shows that they meet \<open>msgpack_ok\<close>, so that the promise is
  known to be satisfiable.
\<close>

subsection \<open>Definitions\<close>

datatype mp_object =
    Mp_nil
  | Mp_bool bool
  | Mp_uint u64
  | Mp_neg u64
  | Mp_float "byte list"
  | Mp_str "byte list"
  | Mp_bin "byte list"
  | Mp_ext byte "byte list"
  | Mp_array "mp_object list"
  | Mp_map "(mp_object \<times> mp_object) list"

text \<open>
  \<open>mp_pack\<close> is \<open>msgpack::pack\<close> on a value of any adapted type, \<open>mp_pack_map\<close> is
  \<open>packer::pack_map\<close> (the header of a map with the given number of entries), \<open>mp_unpack\<close> is
  \<open>msgpack::unpack(data, len, off)\<close> with the advanced offset, \<open>mp_convert_u64\<close> is
  \<open>object::convert\<close> to \<open>uint64_t\<close> and \<open>mp_as_string\<close> is \<open>object::as<std::string>\<close>. A value of
  C++ type \<open>uint64_t\<close>, \<open>bool\<close>, \<open>std::string\<close> or \<open>std::tuple\<close> is packed as \<open>Mp_uint\<close>,
  \<open>Mp_bool\<close>, \<open>Mp_str\<close> or \<open>Mp_array\<close>.
\<close>

record msgpack_lib =
  mp_pack :: "mp_object \<Rightarrow> byte list"
  mp_pack_map :: "u32 \<Rightarrow> byte list"
  mp_unpack :: "byte list \<Rightarrow> nat \<Rightarrow> exn + (mp_object \<times> nat)"
  mp_convert_u64 :: "mp_object \<Rightarrow> exn + u64"
  mp_as_string :: "mp_object \<Rightarrow> exn + byte list"

text \<open>The objects the format can express: lengths fit 32 bits, a float has eight bytes.\<close>

fun mp_wf :: "mp_object \<Rightarrow> bool" where
  "mp_wf (Mp_float bs) = (length bs = 8)"
| "mp_wf (Mp_str bs) = (length bs < 2 ^ 32)"
| "mp_wf (Mp_bin bs) = (length bs < 2 ^ 32)"
| "mp_wf (Mp_ext t bs) = (length bs < 2 ^ 32)"
| "mp_wf (Mp_array os) = (length os < 2 ^ 32 \<and> list_all mp_wf os)"
| "mp_wf (Mp_map kvs) = (length kvs < 2 ^ 32 \<and> list_all (\<lambda>(k, v). mp_wf k \<and> mp_wf v) kvs)"
| "mp_wf Mp_nil = True"
| "mp_wf (Mp_bool b) = True"
| "mp_wf (Mp_uint n) = True"
| "mp_wf (Mp_neg n) = True"

abbreviation pack_entries :: "msgpack_lib \<Rightarrow> (mp_object \<times> mp_object) list \<Rightarrow> byte list" where
  "pack_entries L kvs \<equiv> concat (map (\<lambda>(k, v). mp_pack L k @ mp_pack L v) kvs)"

text \<open>
  The documented behaviour: unpacking finds the packed object at the given offset and advances the
  offset past it; a map is its header and its entries; the format also writes a map of fewer than
  \<open>2 ^ 16\<close> entries as the byte \<open>0xde\<close>, two bytes for the count in network order and the entries;
  unpacking at the end of the data throws; and the two conversions.
\<close>

definition unpack_ok :: "msgpack_lib \<Rightarrow> bool" where
  "unpack_ok L \<longleftrightarrow> (\<forall>obj pre rest. mp_wf obj \<longrightarrow>
     mp_unpack L (pre @ mp_pack L obj @ rest) (length pre)
       = Inr (obj, length pre + length (mp_pack L obj)))"

definition unpack_map16_ok :: "msgpack_lib \<Rightarrow> bool" where
  "unpack_map16_ok L \<longleftrightarrow> (\<forall>kvs pre rest. mp_wf (Mp_map kvs) \<longrightarrow> length kvs < 2 ^ 16 \<longrightarrow>
     mp_unpack L (pre @ (0xde # be_bytes 2 (length kvs) @ pack_entries L kvs) @ rest) (length pre)
       = Inr (Mp_map kvs, length pre + 3 + length (pack_entries L kvs)))"

definition msgpack_ok :: "msgpack_lib \<Rightarrow> bool" where
  "msgpack_ok L \<longleftrightarrow> unpack_ok L \<and> unpack_map16_ok L
     \<and> (\<forall>kvs. length kvs < 2 ^ 32 \<longrightarrow>
          mp_pack L (Mp_map kvs) = mp_pack_map L (of_nat (length kvs)) @ pack_entries L kvs)
     \<and> (\<forall>data. mp_unpack L data (length data) = Inl Std_exception)
     \<and> (\<forall>n. mp_convert_u64 L (Mp_uint n) = Inr n)
     \<and> (\<forall>s. mp_as_string L (Mp_str s) = Inr s)"

subsection \<open>An implementation of the format\<close>

text \<open>
  Used only to show that \<open>msgpack_ok\<close> can hold and to evaluate examples. Integers and the heads of
  strings, arrays and maps take the shortest form, as the library writes them.
\<close>

definition head_bytes :: "nat \<Rightarrow> byte \<Rightarrow> byte \<Rightarrow> nat \<Rightarrow> byte list" where
  "head_bytes short fix tag16 n =
     (if n < short then [fix + of_nat n]
      else if n < 2 ^ 16 then tag16 # be_bytes 2 n
      else (tag16 + 1) # be_bytes 4 n)"

fun enc :: "mp_object \<Rightarrow> byte list" where
  "enc Mp_nil = [0xc0]"
| "enc (Mp_bool b) = [if b then 0xc3 else 0xc2]"
| "enc (Mp_uint n) =
     (let k = unat n in
      if k < 128 then [of_nat k] else if k < 2 ^ 8 then 0xcc # be_bytes 1 k
      else if k < 2 ^ 16 then 0xcd # be_bytes 2 k else if k < 2 ^ 32 then 0xce # be_bytes 4 k
      else 0xcf # be_bytes 8 k)"
| "enc (Mp_neg n) = 0xd3 # be_bytes 8 (unat n)"
| "enc (Mp_float bs) = 0xcb # bs"
| "enc (Mp_str bs) = head_bytes 32 0xa0 0xda (length bs) @ bs"
| "enc (Mp_bin bs) = 0xc6 # be_bytes 4 (length bs) @ bs"
| "enc (Mp_ext t bs) = 0xc9 # be_bytes 4 (length bs) @ t # bs"
| "enc (Mp_array os) = head_bytes 16 0x90 0xdc (length os) @ concat (map enc os)"
| "enc (Mp_map kvs) = head_bytes 16 0x80 0xde (length kvs) @ concat (map (\<lambda>(k, v). enc k @ enc v) kvs)"

text \<open>The head of an object: what its first bytes announce.\<close>

datatype head = H_obj mp_object | H_uint nat | H_neg nat | H_float | H_str nat nat | H_bin nat
  | H_ext nat | H_array nat nat | H_map nat nat | H_bad

text \<open>
  \<open>H_uint w\<close>, \<open>H_neg w\<close> and \<open>H_bin w\<close> read \<open>w\<close> more bytes; \<open>H_str w n\<close> reads the length from \<open>w\<close>
  bytes, or takes it to be \<open>n\<close> when \<open>w = 0\<close>.
\<close>

definition head_of :: "nat \<Rightarrow> head" where
  "head_of t =
     (if t < 0x80 then H_obj (Mp_uint (of_nat t))
      else if t < 0x90 then H_map 0 (t - 0x80)
      else if t < 0xa0 then H_array 0 (t - 0x90)
      else if t < 0xc0 then H_str 0 (t - 0xa0)
      else if t = 0xc0 then H_obj Mp_nil
      else if t = 0xc2 then H_obj (Mp_bool False)
      else if t = 0xc3 then H_obj (Mp_bool True)
      else if t = 0xc6 then H_bin 4
      else if t = 0xc9 then H_ext 4
      else if t = 0xcb then H_float
      else if t = 0xcc then H_uint 1
      else if t = 0xcd then H_uint 2
      else if t = 0xce then H_uint 4
      else if t = 0xcf then H_uint 8
      else if t = 0xd3 then H_neg 8
      else if t = 0xda then H_str 2 0
      else if t = 0xdb then H_str 4 0
      else if t = 0xdc then H_array 2 0
      else if t = 0xdd then H_array 4 0
      else if t = 0xde then H_map 2 0
      else if t = 0xdf then H_map 4 0
      else H_bad)"

definition take_exact :: "nat \<Rightarrow> byte list \<Rightarrow> (byte list \<times> byte list) option" where
  "take_exact n bs = (if n \<le> length bs then Some (take n bs, drop n bs) else None)"

definition read_len :: "nat \<Rightarrow> nat \<Rightarrow> byte list \<Rightarrow> (nat \<times> byte list) option" where
  "read_len w n bs =
     (if w = 0 then Some (n, bs)
      else case take_exact w bs of None \<Rightarrow> None | Some (l, rest) \<Rightarrow> Some (be_val l, rest))"

fun dec_seq :: "(byte list \<Rightarrow> ('a \<times> byte list) option) \<Rightarrow> nat \<Rightarrow> byte list \<Rightarrow> ('a list \<times> byte list) option"
where
  "dec_seq d 0 bs = Some ([], bs)"
| "dec_seq d (Suc n) bs =
     (case d bs of None \<Rightarrow> None
      | Some (x, rest) \<Rightarrow>
          (case dec_seq d n rest of None \<Rightarrow> None | Some (xs, rest') \<Rightarrow> Some (x # xs, rest')))"

definition dec_pair ::
  "(byte list \<Rightarrow> ('a \<times> byte list) option) \<Rightarrow> byte list \<Rightarrow> (('a \<times> 'a) \<times> byte list) option" where
  "dec_pair d bs =
     (case d bs of None \<Rightarrow> None
      | Some (k, rest) \<Rightarrow> (case d rest of None \<Rightarrow> None | Some (v, rest') \<Rightarrow> Some ((k, v), rest')))"

text \<open>The first argument bounds the nesting depth.\<close>

fun dec :: "nat \<Rightarrow> byte list \<Rightarrow> (mp_object \<times> byte list) option" where
  "dec 0 bs = None"
| "dec (Suc d) [] = None"
| "dec (Suc d) (b # bs) =
     (case head_of (unat b) of
        H_obj obj \<Rightarrow> Some (obj, bs)
      | H_uint w \<Rightarrow> map_option (\<lambda>(x, rest). (Mp_uint (of_nat (be_val x)), rest)) (take_exact w bs)
      | H_neg w \<Rightarrow> map_option (\<lambda>(x, rest). (Mp_neg (of_nat (be_val x)), rest)) (take_exact w bs)
      | H_float \<Rightarrow> map_option (\<lambda>(x, rest). (Mp_float x, rest)) (take_exact 8 bs)
      | H_str w n \<Rightarrow> Option.bind (read_len w n bs) (\<lambda>(k, r).
          map_option (\<lambda>(x, rest). (Mp_str x, rest)) (take_exact k r))
      | H_bin w \<Rightarrow> Option.bind (read_len w 0 bs) (\<lambda>(k, r).
          map_option (\<lambda>(x, rest). (Mp_bin x, rest)) (take_exact k r))
      | H_ext w \<Rightarrow> Option.bind (read_len w 0 bs) (\<lambda>(k, r).
          map_option (\<lambda>(x, rest). (Mp_ext (hd x) (tl x), rest)) (take_exact (Suc k) r))
      | H_array w n \<Rightarrow> Option.bind (read_len w n bs) (\<lambda>(k, r).
          map_option (\<lambda>(xs, rest). (Mp_array xs, rest)) (dec_seq (dec d) k r))
      | H_map w n \<Rightarrow> Option.bind (read_len w n bs) (\<lambda>(k, r).
          map_option (\<lambda>(xs, rest). (Mp_map xs, rest)) (dec_seq (dec_pair (dec d)) k r))
      | H_bad \<Rightarrow> None)"

definition unpack_ref :: "byte list \<Rightarrow> nat \<Rightarrow> exn + (mp_object \<times> nat)" where
  "unpack_ref data off =
     (case dec (Suc (length data)) (drop off data) of
        None \<Rightarrow> Inl Std_exception
      | Some (obj, rest) \<Rightarrow> Inr (obj, length data - length rest))"

definition msgpack_ref :: msgpack_lib where
  "msgpack_ref =
     \<lparr>mp_pack = enc,
      mp_pack_map = (\<lambda>n. head_bytes 16 0x80 0xde (unat n)),
      mp_unpack = unpack_ref,
      mp_convert_u64 = (\<lambda>obj. case obj of Mp_uint n \<Rightarrow> Inr n | _ \<Rightarrow> Inl Bad_cast),
      mp_as_string = (\<lambda>obj. case obj of Mp_str s \<Rightarrow> Inr s | Mp_bin s \<Rightarrow> Inr s | _ \<Rightarrow> Inl Bad_cast)\<rparr>"

subsection \<open>The implementation meets the documented behaviour\<close>

lemma take_exact_append: "length x = k \<Longrightarrow> take_exact k (x @ rest) = Some (x, rest)"
  by (simp add: take_exact_def)

lemma read_len_be_bytes:
  "0 < w \<Longrightarrow> k < 256 ^ w \<Longrightarrow> read_len w n (be_bytes w k @ r) = Some (k, r)"
  by (simp add: read_len_def take_exact_append be_val_be_bytes)

lemma read_len_0 [simp]: "read_len 0 n bs = Some (n, bs)"
  by (simp add: read_len_def)

lemma unat_byte_add: "unat a + n < 256 \<Longrightarrow> unat (a + of_nat n :: byte) = unat a + n"
  by (simp add: unat_word_ariths unat_of_nat)

lemma head_of_fix:
  "n < 32 \<Longrightarrow> head_of (unat (0xa0 + of_nat n :: byte)) = H_str 0 n"
  "n < 16 \<Longrightarrow> head_of (unat (0x90 + of_nat n :: byte)) = H_array 0 n"
  "n < 16 \<Longrightarrow> head_of (unat (0x80 + of_nat n :: byte)) = H_map 0 n"
  using unat_byte_add [of "0xa0" n] unat_byte_add [of "0x90" n] unat_byte_add [of "0x80" n]
  by (simp_all add: head_of_def)

lemma head_of_tags [simp]:
  "head_of 0xc0 = H_obj Mp_nil" "head_of 0xc2 = H_obj (Mp_bool False)"
  "head_of 0xc3 = H_obj (Mp_bool True)" "head_of 0xc6 = H_bin 4" "head_of 0xc9 = H_ext 4"
  "head_of 0xcb = H_float" "head_of 0xcc = H_uint 1" "head_of 0xcd = H_uint 2"
  "head_of 0xce = H_uint 4" "head_of 0xcf = H_uint 8" "head_of 0xd3 = H_neg 8"
  "head_of 0xda = H_str 2 0" "head_of 0xdb = H_str 4 0" "head_of 0xdc = H_array 2 0"
  "head_of 0xdd = H_array 4 0" "head_of 0xde = H_map 2 0" "head_of 0xdf = H_map 4 0"
  by (simp_all add: head_of_def)

lemma head_of_small: "t < 128 \<Longrightarrow> head_of t = H_obj (Mp_uint (of_nat t))"
  by (simp add: head_of_def)

lemma dec_seq_concat:
  assumes "\<And>x rest. x \<in> set xs \<Longrightarrow> d (f x @ rest) = Some (x, rest)"
  shows "dec_seq d (length xs) (concat (map f xs) @ rest) = Some (xs, rest)"
  using assms by (induction xs) auto

lemma head_bytes_cases:
  assumes "n < 2 ^ 32"
  obtains "n < short" "head_bytes short fix tag n = [fix + of_nat n]"
  | "\<not> n < short" "n < 2 ^ 16" "head_bytes short fix tag n = tag # be_bytes 2 n"
  | "\<not> n < short" "\<not> n < 2 ^ 16" "head_bytes short fix tag n = (tag + 1) # be_bytes 4 n"
  by (metis head_bytes_def)

lemma dec_str_head:
  assumes "n < 2 ^ 32"
  shows "dec (Suc d) (head_bytes 32 0xa0 0xda n @ r) =
    map_option (\<lambda>(x, rest). (Mp_str x, rest)) (take_exact n r)"
  by (rule head_bytes_cases [OF assms, of 32 "0xa0" "0xda"])
    (use assms in \<open>simp_all add: head_of_fix read_len_be_bytes\<close>)

lemma dec_array_head:
  assumes "n < 2 ^ 32"
  shows "dec (Suc d) (head_bytes 16 0x90 0xdc n @ r) =
    map_option (\<lambda>(xs, rest). (Mp_array xs, rest)) (dec_seq (dec d) n r)"
  by (rule head_bytes_cases [OF assms, of 16 "0x90" "0xdc"])
    (use assms in \<open>simp_all add: head_of_fix read_len_be_bytes\<close>)

lemma dec_map_head:
  assumes "n < 2 ^ 32"
  shows "dec (Suc d) (head_bytes 16 0x80 0xde n @ r) =
    map_option (\<lambda>(xs, rest). (Mp_map xs, rest)) (dec_seq (dec_pair (dec d)) n r)"
  by (rule head_bytes_cases [OF assms, of 16 "0x80" "0xde"])
    (use assms in \<open>simp_all add: head_of_fix read_len_be_bytes\<close>)

lemma dec_map16:
  assumes "n < 2 ^ 16"
  shows "dec (Suc d) (0xde # be_bytes 2 n @ r) =
    map_option (\<lambda>(xs, rest). (Mp_map xs, rest)) (dec_seq (dec_pair (dec d)) n r)"
  using assms by (simp add: read_len_be_bytes)

lemma dec_uint: "dec (Suc d) (enc (Mp_uint n) @ rest) = Some (Mp_uint n, rest)"
proof -
  obtain k where n: "n = of_nat k" and k: "k < 2 ^ 64" and u: "unat n = k"
    using unsigned_less [of n, where ?'a = nat] that [of "unat n"] by simp
  have b: "unat (of_nat k :: byte) = k" if "k < 256"
    using that by (simp add: unat_of_nat)
  consider "k < 128" | "\<not> k < 128" "k < 2 ^ 8" | "\<not> k < 2 ^ 8" "k < 2 ^ 16"
    | "\<not> k < 2 ^ 16" "k < 2 ^ 32" | "\<not> k < 2 ^ 32" by linarith
  then show ?thesis
    unfolding enc.simps u Let_def using k
    by cases (simp_all add: b head_of_small take_exact_append be_val_be_bytes n)
qed

lemma head_fuel:
  assumes "length (head_bytes short fix tag n) + m \<le> d"
  obtains d' where "d = Suc d'" "m \<le> d'"
  using assms by (cases d) (auto simp: head_bytes_def split: if_splits)

lemma enc_nonempty: "enc obj \<noteq> []"
  by (cases obj) (auto simp: head_bytes_def Let_def)

lemma length_enc_member:
  "x \<in> set xs \<Longrightarrow> length (f x) \<le> length (concat (map f xs))"
  by (induction xs) auto

lemma dec_pair_append:
  assumes "\<And>rest. d (x @ rest) = Some (k, rest)" "\<And>rest. d (y @ rest) = Some (v, rest)"
  shows "dec_pair d ((x @ y) @ rest) = Some ((k, v), rest)"
  by (simp add: dec_pair_def assms)

lemma dec_enc: "mp_wf obj \<Longrightarrow> length (enc obj) \<le> d \<Longrightarrow> dec d (enc obj @ rest) = Some (obj, rest)"
proof (induction obj arbitrary: d rest)
  case (Mp_array os)
  from Mp_array.prems(2) obtain d' where d: "d = Suc d'" and d': "length (concat (map enc os)) \<le> d'"
    by (auto elim: head_fuel)
  have "dec_seq (dec d') (length os) (concat (map enc os) @ rest) = Some (os, rest)"
    using Mp_array.IH Mp_array.prems(1) d' length_enc_member [of _ os enc]
    by (intro dec_seq_concat) (fastforce simp: list_all_iff)
  then show ?case using Mp_array.prems(1) by (simp add: d dec_array_head)
next
  case (Mp_map kvs)
  let ?f = "\<lambda>(k, v). enc k @ enc v"
  from Mp_map.prems(2) obtain d' where d: "d = Suc d'" and d': "length (concat (map ?f kvs)) \<le> d'"
    by (auto elim: head_fuel)
  have "dec_pair (dec d') (?f kv @ r) = Some (kv, r)" if kv: "kv \<in> set kvs" for kv r
  proof -
    obtain k v where p: "kv = (k, v)" by force
    have "mp_wf k" "mp_wf v" using Mp_map.prems(1) kv p by (auto simp: list_all_iff)
    moreover have "length (enc k) \<le> d'" "length (enc v) \<le> d'"
      using length_enc_member [OF kv, of ?f] d' p by auto
    ultimately show ?thesis
      using Mp_map.IH [of kv] kv p by (auto intro: dec_pair_append simp flip: append_assoc)
  qed
  then have "dec_seq (dec_pair (dec d')) (length kvs) (concat (map ?f kvs) @ rest) = Some (kvs, rest)"
    by (intro dec_seq_concat)
  then show ?case using Mp_map.prems(1) by (simp add: d dec_map_head)
next
  case (Mp_uint n)
  then show ?case using enc_nonempty [of "Mp_uint n"] by (cases d) (simp_all only: dec_uint, simp)
next
  case (Mp_str bs)
  then show ?case
    by (auto elim!: head_fuel simp: dec_str_head take_exact_append)
next
  case (Mp_ext t bs)
  then show ?case using take_exact_append [of "t # bs" "Suc (length bs)" rest]
    by (cases d) (auto simp: read_len_be_bytes)
next
  case (Mp_neg n)
  have "unat n < 2 ^ 64" using unsigned_less [of n, where ?'a = nat] by simp
  with Mp_neg show ?case by (cases d) (auto simp: take_exact_append be_val_be_bytes)
next
  case (Mp_float bs)
  then show ?case using take_exact_append [of bs 8 rest] by (cases d) simp_all
next
  case (Mp_bin bs)
  then show ?case using take_exact_append [of bs "length bs" rest]
    by (cases d) (simp_all add: read_len_be_bytes)
next
  case Mp_nil
  then show ?case by (cases d) simp_all
next
  case (Mp_bool b)
  then show ?case by (cases d) simp_all
qed

lemma unpack_ref_at:
  assumes "dec (Suc (length data)) (drop off data) = Some (obj, rest)"
    and "data = pre @ x @ rest" "off = length pre"
  shows "unpack_ref data off = Inr (obj, length pre + length x)"
  using assms by (simp add: unpack_ref_def)

lemma msgpack_ref_unpack: "unpack_ok msgpack_ref"
  unfolding unpack_ok_def
proof (intro allI impI)
  fix obj pre rest assume "mp_wf obj"
  then have "dec (Suc (length (pre @ enc obj @ rest))) (drop (length pre) (pre @ enc obj @ rest)) = Some (obj, rest)"
    by (simp add: dec_enc del: dec.simps)
  from unpack_ref_at [OF this refl refl]
  show "mp_unpack msgpack_ref (pre @ mp_pack msgpack_ref obj @ rest) (length pre)
      = Inr (obj, length pre + length (mp_pack msgpack_ref obj))"
    by (simp add: msgpack_ref_def)
qed

lemma msgpack_ref_unpack_map16: "unpack_map16_ok msgpack_ref"
  unfolding unpack_map16_ok_def
proof (intro allI impI)
  fix kvs pre rest
  let ?es = "pack_entries msgpack_ref kvs" and ?h = "0xde # be_bytes 2 (length kvs)"
  let ?data = "pre @ (?h @ ?es) @ rest"
  assume wf: "mp_wf (Mp_map kvs)" and len: "length kvs < 2 ^ 16"
  have "dec_pair (dec (length ?data)) ((\<lambda>(k, v). enc k @ enc v) kv @ r) = Some (kv, r)"
    if kv: "kv \<in> set kvs" for kv r
  proof -
    obtain k v where p: "kv = (k, v)" by force
    have "length (enc k @ enc v) \<le> length ?es"
      using length_enc_member [OF kv, of "\<lambda>(k, v). enc k @ enc v"] p by (simp add: msgpack_ref_def)
    then show ?thesis
      using wf kv p by (auto intro!: dec_pair_append dec_enc simp: list_all_iff simp flip: append_assoc)
  qed
  from dec_seq_concat [OF this] have
    "dec_seq (dec_pair (dec (length ?data))) (length kvs) (?es @ rest) = Some (kvs, rest)"
    by (simp add: msgpack_ref_def)
  then have "dec (Suc (length ?data)) (drop (length pre) ?data) = Some (Mp_map kvs, rest)"
    using dec_map16 [OF len, of "length ?data" "?es @ rest"] by simp
  from unpack_ref_at [OF this refl refl]
  show "mp_unpack msgpack_ref (pre @ (0xde # be_bytes 2 (length kvs) @ ?es) @ rest) (length pre)
      = Inr (Mp_map kvs, length pre + 3 + length ?es)"
    by (simp add: msgpack_ref_def)
qed

theorem msgpack_ref_ok: "msgpack_ok msgpack_ref"
proof -
  have "mp_pack msgpack_ref (Mp_map kvs) =
      mp_pack_map msgpack_ref (of_nat (length kvs)) @ pack_entries msgpack_ref kvs"
    if "length kvs < 2 ^ 32" for kvs
    using that by (simp add: msgpack_ref_def unat_of_nat)
  moreover have "mp_unpack msgpack_ref data (length data) = Inl Std_exception" for data
    by (simp add: msgpack_ref_def unpack_ref_def)
  moreover have "mp_convert_u64 msgpack_ref (Mp_uint n) = Inr n"
    "mp_as_string msgpack_ref (Mp_str str) = Inr str" for n str
    by (simp_all add: msgpack_ref_def)
  ultimately show ?thesis
    using msgpack_ref_unpack msgpack_ref_unpack_map16 unfolding msgpack_ok_def by blast
qed

text \<open>The facts client theories use.\<close>

lemma msgpack_unpack:
  assumes "msgpack_ok L" "mp_wf obj"
  shows "mp_unpack L (mp_pack L obj @ rest) 0 = Inr (obj, length (mp_pack L obj))"
proof -
  have "mp_unpack L ([] @ mp_pack L obj @ rest) (length ([] :: byte list)) = Inr (obj, length ([] :: byte list) + length (mp_pack L obj))"
    using assms unfolding msgpack_ok_def unpack_ok_def by blast
  then show ?thesis by simp
qed

lemma msgpack_unpack_map16:
  assumes "msgpack_ok L" "mp_wf (Mp_map kvs)" "length kvs < 2 ^ 16"
  shows "mp_unpack L (0xde # be_bytes 2 (length kvs) @ pack_entries L kvs) 0
    = Inr (Mp_map kvs, 3 + length (pack_entries L kvs))"
proof -
  have "mp_unpack L ([] @ (0xde # be_bytes 2 (length kvs) @ pack_entries L kvs) @ []) (length ([] :: byte list))
      = Inr (Mp_map kvs, length ([] :: byte list) + 3 + length (pack_entries L kvs))"
    using assms unfolding msgpack_ok_def unpack_map16_ok_def by blast
  then show ?thesis by simp
qed

lemma msgpack_pack_map:
  "msgpack_ok L \<Longrightarrow> length kvs < 2 ^ 32 \<Longrightarrow>
     mp_pack_map L (of_nat (length kvs)) @ pack_entries L kvs = mp_pack L (Mp_map kvs)"
  by (simp add: msgpack_ok_def)

lemma msgpack_convert [simp]:
  "msgpack_ok L \<Longrightarrow> mp_convert_u64 L (Mp_uint n) = Inr n"
  "msgpack_ok L \<Longrightarrow> mp_as_string L (Mp_str s) = Inr s"
  by (simp_all add: msgpack_ok_def)

lemma msgpack_unpack_Nil [simp]: "msgpack_ok L \<Longrightarrow> mp_unpack L [] 0 = Inl Std_exception"
  unfolding msgpack_ok_def by (metis list.size(3))

end
