(* ===== verification/Iproto_Types.thy ===== *)
theory Iproto_Types
  imports Iproto_Errors Msgpack
begin

text \<open>
  The protocol vocabulary of \<open>detail/iproto_typedefs.h\<close>: request types, field types, the message
  header, its MessagePack form in both directions, and the error code a header carries.
\<close>

subsection \<open>Definitions: request types\<close>

datatype request_type =
    R_Ok | R_Chunk | R_TypeErrorBegin | R_TypeErrorEnd
  | R_Select | R_Insert | R_Replace | R_Update | R_Delete | R_Auth | R_Eval | R_Upsert
  | R_Call | R_Nop | R_Ping | R_Id | R_Unknown

fun request_type_val :: "request_type \<Rightarrow> u64" where
  "request_type_val R_Ok = 0x00"
| "request_type_val R_Chunk = 0x80"
| "request_type_val R_TypeErrorBegin = 0x8000"
| "request_type_val R_TypeErrorEnd = 0x8999"
| "request_type_val R_Select = 0x01"
| "request_type_val R_Insert = 0x02"
| "request_type_val R_Replace = 0x03"
| "request_type_val R_Update = 0x04"
| "request_type_val R_Delete = 0x05"
| "request_type_val R_Auth = 0x07"
| "request_type_val R_Eval = 0x08"
| "request_type_val R_Upsert = 0x09"
| "request_type_val R_Call = 0x0a"
| "request_type_val R_Nop = 0x0c"
| "request_type_val R_Ping = 0x40"
| "request_type_val R_Id = 0x49"
| "request_type_val R_Unknown = -1"

fun req_type_to_str :: "request_type \<Rightarrow> string" where
  "req_type_to_str R_Ok = ''Ok''"
| "req_type_to_str R_TypeErrorBegin = ''TypeError''"
| "req_type_to_str R_TypeErrorEnd = ''TypeError''"
| "req_type_to_str R_Chunk = ''Chunk''"
| "req_type_to_str R_Select = ''Select''"
| "req_type_to_str R_Insert = ''Insert''"
| "req_type_to_str R_Replace = ''Replace''"
| "req_type_to_str R_Update = ''Update''"
| "req_type_to_str R_Delete = ''Delete''"
| "req_type_to_str R_Auth = ''Auth''"
| "req_type_to_str R_Eval = ''Eval''"
| "req_type_to_str R_Upsert = ''Upsert''"
| "req_type_to_str R_Call = ''Call''"
| "req_type_to_str R_Nop = ''Nop''"
| "req_type_to_str R_Ping = ''Ping''"
| "req_type_to_str R_Id = ''Id''"
| "req_type_to_str R_Unknown = ''Unknown''"

text \<open>
  A cast from an integer to an enumeration followed by a \<open>switch\<close> finds the enumerator with that
  value among the \<open>case\<close> labels, here in their order.
\<close>

definition req_type_cases :: "request_type list" where
  "req_type_cases =
     [R_Ok, R_Chunk, R_TypeErrorBegin, R_TypeErrorEnd, R_Select, R_Insert, R_Replace, R_Update,
      R_Delete, R_Auth, R_Eval, R_Upsert, R_Call, R_Nop, R_Ping, R_Id, R_Unknown]"

definition int_to_req_type :: "u64 \<Rightarrow> request_type" where
  "int_to_req_type type =
     (case find (\<lambda>r. request_type_val r = type) req_type_cases of Some r \<Rightarrow> r | None \<Rightarrow> R_Unknown)"

definition is_error_req_type :: "u64 \<Rightarrow> bool" where
  "is_error_req_type type \<longleftrightarrow>
     type \<ge> request_type_val R_TypeErrorBegin \<and> type \<le> request_type_val R_TypeErrorEnd"

subsection \<open>Definitions: field types\<close>

datatype field_type =
    F_Version | F_Features | F_Sync | F_SchemaVersion | F_Timestamp | F_SpaceId | F_IndexId
  | F_Limit | F_Offset | F_Iterator | F_RequestType | F_Key | F_Data | F_Error_24 | F_StreamId
  | F_Tuple | F_FunctionName | F_Username | F_Expr | F_AfterPosition | F_AfterTuple
  | F_FetchPosition

fun field_type_val :: "field_type \<Rightarrow> u64" where
  "field_type_val F_Version = 0x54"
| "field_type_val F_Features = 0x55"
| "field_type_val F_Sync = 0x01"
| "field_type_val F_SchemaVersion = 0x05"
| "field_type_val F_Timestamp = 0x04"
| "field_type_val F_SpaceId = 0x10"
| "field_type_val F_IndexId = 0x11"
| "field_type_val F_Limit = 0x12"
| "field_type_val F_Offset = 0x13"
| "field_type_val F_Iterator = 0x14"
| "field_type_val F_RequestType = 0x00"
| "field_type_val F_Key = 0x20"
| "field_type_val F_Data = 0x30"
| "field_type_val F_Error_24 = 0x31"
| "field_type_val F_StreamId = 0x0a"
| "field_type_val F_Tuple = 0x21"
| "field_type_val F_FunctionName = 0x22"
| "field_type_val F_Username = 0x23"
| "field_type_val F_Expr = 0x27"
| "field_type_val F_AfterPosition = 0x2e"
| "field_type_val F_AfterTuple = 0x2f"
| "field_type_val F_FetchPosition = 0x1f"

definition field_type_cases :: "field_type list" where
  "field_type_cases =
     [F_Version, F_Features, F_Sync, F_SchemaVersion, F_Timestamp, F_SpaceId, F_IndexId, F_Limit,
      F_Offset, F_Iterator, F_RequestType, F_Key, F_Data, F_Error_24, F_StreamId, F_Tuple,
      F_FunctionName, F_Username, F_Expr, F_AfterPosition, F_AfterTuple, F_FetchPosition]"

definition int_to_field_type :: "u64 \<Rightarrow> field_type option" where
  "int_to_field_type type = find (\<lambda>f. field_type_val f = type) field_type_cases"

subsection \<open>Definitions: the message header\<close>

record message_header =
  request_type :: u64
  sync :: u64
  schema_version :: u64
  stream_id :: "u64 option"

definition MessageHeader_default :: message_header where
  "MessageHeader_default =
     \<lparr>request_type = request_type_val R_Unknown, sync = 0, schema_version = 0, stream_id = None\<rparr>"

definition set_request_type :: "request_type \<Rightarrow> message_header \<Rightarrow> message_header" where
  "set_request_type req_type h = h\<lparr>request_type := request_type_val req_type\<rparr>"

definition header_is_error :: "message_header \<Rightarrow> bool" where
  "header_is_error h = is_error_req_type (request_type h)"

text \<open>The cast to \<open>int\<close> keeps the value, which is at most 280.\<close>

definition header_get_error_code :: "message_header \<Rightarrow> error_code" where
  "header_get_error_code h =
     (if \<not> header_is_error h then no_error
      else let code = request_type h - request_type_val R_TypeErrorBegin
           in \<lparr>ec_value = uint (int_to_tarantool_error code), ec_category = tarantool_category\<rparr>)"

text \<open>
  \<open>convert<MessageHeader>\<close>: which member the \<open>switch\<close> over the field type assigns (the other field
  types are skipped), and the loop over the entries of the map, which stops at the first entry that
  throws. The header under construction is an argument, as the code fills an existing object.
\<close>

definition header_setter :: "field_type \<Rightarrow> (u64 \<Rightarrow> message_header \<Rightarrow> message_header) option" where
  "header_setter f =
     (if f = F_RequestType then Some (\<lambda>n v. v\<lparr>request_type := n\<rparr>)
      else if f = F_Sync then Some (\<lambda>n v. v\<lparr>sync := n\<rparr>)
      else if f = F_SchemaVersion then Some (\<lambda>n v. v\<lparr>schema_version := n\<rparr>)
      else if f = F_StreamId then Some (\<lambda>n v. v\<lparr>stream_id := Some n\<rparr>)
      else None)"

fun convert_entries ::
  "msgpack_lib \<Rightarrow> (mp_object \<times> mp_object) list \<Rightarrow> message_header \<Rightarrow> exn + message_header" where
  "convert_entries L [] v = Inr v"
| "convert_entries L ((Mp_uint k, val) # rest) v =
     (case int_to_field_type k of
        None \<Rightarrow> Inl Bad_cast
      | Some f \<Rightarrow>
          (case header_setter f of
             None \<Rightarrow> convert_entries L rest v
           | Some set_field \<Rightarrow>
               (case mp_convert_u64 L val of
                  Inl e \<Rightarrow> Inl e
                | Inr n \<Rightarrow> convert_entries L rest (set_field n v))))"
| "convert_entries L ((key, val) # rest) v = Inl Bad_cast"

definition header_convert :: "msgpack_lib \<Rightarrow> mp_object \<Rightarrow> message_header \<Rightarrow> exn + message_header" where
  "header_convert L obj v =
     (case obj of Mp_map kvs \<Rightarrow> convert_entries L kvs v | _ \<Rightarrow> Inl Bad_cast)"

abbreviation mp_field :: "field_type \<Rightarrow> mp_object" where
  "mp_field f \<equiv> Mp_uint (field_type_val f)"

definition header_pack :: "msgpack_lib \<Rightarrow> message_header \<Rightarrow> byte list" where
  "header_pack L v =
     mp_pack_map L (case stream_id v of Some _ \<Rightarrow> 3 | None \<Rightarrow> 2)
     @ mp_pack L (mp_field F_Sync) @ mp_pack L (Mp_uint (sync v))
     @ mp_pack L (mp_field F_RequestType) @ mp_pack L (Mp_uint (request_type v))
     @ (case stream_id v of
          Some sid \<Rightarrow> mp_pack L (mp_field F_StreamId) @ mp_pack L (Mp_uint sid)
        | None \<Rightarrow> [])"

text \<open>The map that a header stands for on the wire.\<close>

definition header_entries :: "message_header \<Rightarrow> (mp_object \<times> mp_object) list" where
  "header_entries v =
     [(mp_field F_Sync, Mp_uint (sync v)), (mp_field F_RequestType, Mp_uint (request_type v))]
     @ (case stream_id v of Some sid \<Rightarrow> [(mp_field F_StreamId, Mp_uint sid)] | None \<Rightarrow> [])"

subsection \<open>Lemmas\<close>

declare field_type_val.simps [simp del]

lemma find_distinct_val:
  assumes "distinct (map f xs)" "x \<in> set xs"
  shows "find (\<lambda>y. f y = f x) xs = Some x"
  using assms by (induction xs) (auto simp: rev_image_eqI)

lemma set_req_type_cases: "r \<in> set req_type_cases"
  by (cases r) (simp_all add: req_type_cases_def)

lemma set_field_type_cases: "f \<in> set field_type_cases"
  by (cases f) (simp_all add: field_type_cases_def)

lemma distinct_field_type_val: "distinct (map field_type_val field_type_cases)"
  by (simp add: field_type_cases_def field_type_val.simps)

lemma int_to_field_type_val [simp]: "int_to_field_type (field_type_val f) = Some f"
  unfolding int_to_field_type_def
  by (rule find_distinct_val [OF distinct_field_type_val set_field_type_cases])

lemma int_to_req_type_val: "int_to_req_type (request_type_val r) = r"
proof -
  have "distinct (map request_type_val req_type_cases)" by (simp add: req_type_cases_def)
  from find_distinct_val [OF this set_req_type_cases] show ?thesis
    by (simp add: int_to_req_type_def)
qed

lemma int_to_field_type_Some: "int_to_field_type n = Some f \<longleftrightarrow> n = field_type_val f"
  using int_to_field_type_val [of f] by (auto simp: int_to_field_type_def find_Some_iff)

lemma header_pack_eq:
  "msgpack_ok L \<Longrightarrow> header_pack L v = mp_pack L (Mp_map (header_entries v))"
proof -
  assume ok: "msgpack_ok L"
  have n: "of_nat (length (header_entries v)) = (case stream_id v of Some _ \<Rightarrow> 3 | None \<Rightarrow> (2 :: u32))"
    by (cases "stream_id v") (simp_all add: header_entries_def)
  have "length (header_entries v) < 2 ^ 32"
    by (cases "stream_id v") (simp_all add: header_entries_def)
  from msgpack_pack_map [OF ok this] show ?thesis
    unfolding n by (cases "stream_id v") (simp_all add: header_pack_def header_entries_def)
qed

lemma mp_wf_header_entries: "mp_wf (Mp_map (header_entries v))"
  by (cases "stream_id v") (simp_all add: header_entries_def)

lemma convert_header_entries:
  "msgpack_ok L \<Longrightarrow> convert_entries L (header_entries v) MessageHeader_default = Inr (v\<lparr>schema_version := 0\<rparr>)"
  by (cases v; cases "stream_id v")
    (simp_all add: header_entries_def MessageHeader_default_def header_setter_def)

lemma header_convert_cases:
  "header_convert L obj v = Inr w \<Longrightarrow> \<exists>kvs. obj = Mp_map kvs \<and> convert_entries L kvs v = Inr w"
  by (auto simp: header_convert_def split: mp_object.splits)

lemma convert_entries_keys:
  "convert_entries L kvs v = Inr w \<Longrightarrow> (k, x) \<in> set kvs \<Longrightarrow> \<exists>f. k = mp_field f"
  by (induction L kvs v rule: convert_entries.induct)
    (auto simp: int_to_field_type_Some split: option.splits sum.splits)

lemma header_error_code_value:
  assumes "header_is_error h"
  shows "ec_value (header_get_error_code h) =
    (if unat (request_type h) - 0x8000 \<le> 280 then int (unat (request_type h) - 0x8000) else 0)"
proof -
  have "0x8000 \<le> request_type h" using assms by (simp add: header_is_error_def is_error_req_type_def)
  then have "unat (request_type h - 0x8000) = unat (request_type h) - 0x8000"
    by (simp add: unat_sub)
  moreover have "ec_value (header_get_error_code h) = int (unat (int_to_tarantool_error (request_type h - 0x8000)))"
    using assms by (simp add: header_get_error_code_def)
  ultimately show ?thesis
    by (simp add: int_to_tarantool_error_unat)
qed

text \<open>An error response whose code is zero or unknown gives an error code that tests as success.\<close>

lemma error_code_failed_iff:
  assumes "header_is_error h"
  shows "failed (header_get_error_code h) \<longleftrightarrow>
    1 \<le> unat (request_type h) - 0x8000 \<and> unat (request_type h) - 0x8000 \<le> 280"
  using header_error_code_value [OF assms] by (auto simp: failed_def)

subsection \<open>Properties\<close>

text \<open>
  C31: a packed header survives the wire. Unpacking a packed header, whatever follows it, gives an
  object that ends exactly where the header ends and that converts back to the same request type,
  sync and stream id; the schema version, which requests do not carry, is zero.
\<close>

theorem header_roundtrip:
  assumes "msgpack_ok L"
  shows "\<exists>obj. mp_unpack L (header_pack L v @ rest) 0 = Inr (obj, length (header_pack L v))
    \<and> header_convert L obj MessageHeader_default = Inr (v\<lparr>schema_version := 0\<rparr>)"
  using msgpack_unpack [OF assms mp_wf_header_entries] convert_header_entries [OF assms, of v]
  by (simp add: header_pack_eq [OF assms] header_convert_def)

theorem header_roundtrip_witness:
  "\<exists>obj. mp_unpack msgpack_ref
      (header_pack msgpack_ref \<lparr>request_type = 0x40, sync = 7, schema_version = 0, stream_id = Some 3\<rparr> @ [0x80]) 0
      = Inr (obj, length (header_pack msgpack_ref
          \<lparr>request_type = 0x40, sync = 7, schema_version = 0, stream_id = Some 3\<rparr>))
    \<and> header_convert msgpack_ref obj MessageHeader_default
      = Inr \<lparr>request_type = 0x40, sync = 7, schema_version = 0, stream_id = Some 3\<rparr>"
  using header_roundtrip [OF msgpack_ref_ok,
      of "\<lparr>request_type = 0x40, sync = 7, schema_version = 0, stream_id = Some 3\<rparr>" "[0x80]"]
  by simp

text \<open>
  A received header is accepted only if it is a map all of whose keys are known field types;
  a single key outside the enumeration makes the conversion throw \<open>msgpack::type_error\<close>.
\<close>

lemma header_rejects_unknown_key:
  assumes "header_convert L obj v = Inr w"
  shows "\<exists>kvs. obj = Mp_map kvs \<and> (\<forall>(k, x) \<in> set kvs. \<exists>f. k = mp_field f)"
proof -
  from header_convert_cases [OF assms] obtain kvs
    where kvs: "obj = Mp_map kvs" and conv: "convert_entries L kvs v = Inr w" by blast
  from convert_entries_keys [OF conv] have "\<forall>(k, x) \<in> set kvs. \<exists>f. k = mp_field f" by auto
  with kvs show ?thesis by blast
qed

text \<open>
  The conversions from integers to the enumerations are exact: an integer converts to a field
  type if and only if it is that type's value, every request type is recovered from its value, and
  an integer that is no request type's value converts to \<open>Unknown\<close>.
\<close>

lemma enum_conversions:
  "(int_to_field_type n = Some f \<longleftrightarrow> n = field_type_val f)
   \<and> int_to_req_type (request_type_val r) = r
   \<and> (n \<notin> range request_type_val \<longrightarrow> int_to_req_type n = R_Unknown)"
proof (intro conjI impI)
  assume "n \<notin> range request_type_val"
  then have "find (\<lambda>r. request_type_val r = n) req_type_cases = None"
    by (auto simp: find_None_iff)
  then show "int_to_req_type n = R_Unknown" by (simp add: int_to_req_type_def)
qed (simp_all only: int_to_field_type_Some int_to_req_type_val)

end
