(* ===== verification/Request.thy ===== *)
theory Request
  imports Endian Iproto_Types
begin

text \<open>
  The request packer of \<open>detail/tntpp_request.h\<close>: a byte stream that starts with the size field,
  to which header and body are appended and whose size field, and map length, are patched at the
  end. Packing a value of any type appends the bytes its MessagePack adaptor produces.
\<close>

subsection \<open>Definitions\<close>

record request_packer =
  m_stream :: "byte list"
  map_len_offset :: nat
  m_header_count :: u16

definition size_tag :: byte where
  "size_tag = 0xce"

definition map_tag :: byte where
  "map_tag = 0xde"

definition RequestPacker_init :: request_packer where
  "RequestPacker_init =
     \<lparr>m_stream = [size_tag] @ le_bytes 4 (2 ^ 32 - 1), map_len_offset = 0, m_header_count = 0\<rparr>"

definition pack :: "('t \<Rightarrow> byte list) \<Rightarrow> 't \<Rightarrow> request_packer \<Rightarrow> request_packer" where
  "pack adaptor data p = p\<lparr>m_stream := m_stream p @ adaptor data\<rparr>"

definition begin_map_count :: "msgpack_lib \<Rightarrow> u32 \<Rightarrow> request_packer \<Rightarrow> request_packer" where
  "begin_map_count L n p = p\<lparr>m_stream := m_stream p @ mp_pack_map L n\<rparr>"

definition begin_map :: "request_packer \<Rightarrow> request_packer" where
  "begin_map p =
     (let p1 = p\<lparr>m_stream := m_stream p @ [map_tag]\<rparr>;
          p2 = p1\<lparr>map_len_offset := length (m_stream p1)\<rparr>
      in p2\<lparr>m_stream := m_stream p2 @ le_bytes 2 (2 ^ 16 - 1)\<rparr>)"

definition finalize_map :: "endian_lib \<Rightarrow> request_packer \<Rightarrow> request_packer run" where
  "finalize_map E p =
     assert_run (map_len_offset p \<noteq> 0)
       (let header_count = native_to_big16 E (m_header_count p)
        in Inr (p\<lparr>m_stream := overwrite (map_len_offset p) (le_bytes 2 (unat header_count)) (m_stream p)\<rparr>))"

definition pack_map_entry :: "msgpack_lib \<Rightarrow> field_type \<Rightarrow> mp_object \<Rightarrow> request_packer \<Rightarrow> request_packer" where
  "pack_map_entry L field data p =
     p\<lparr>m_stream := m_stream p @ mp_pack L (Mp_uint (field_type_val field)) @ mp_pack L data,
       m_header_count := m_header_count p + 1\<rparr>"

definition finalize :: "endian_lib \<Rightarrow> request_packer \<Rightarrow> request_packer" where
  "finalize E p =
     (let real_size = of_nat (length (m_stream p)) - 1 - 4 :: u32;
          real_size' = native_to_big32 E real_size
      in p\<lparr>m_stream := overwrite 1 (le_bytes 4 (unat real_size')) (m_stream p)\<rparr>)"

definition packer_str :: "request_packer \<Rightarrow> byte list" where
  "packer_str p = m_stream p"

text \<open>What a finished request is on the wire: the size of the message and the message.\<close>

definition wire_frame :: "byte list \<Rightarrow> byte list" where
  "wire_frame body = size_tag # be_bytes 4 (length body) @ body"

text \<open>The message packed so far, and that the space for the size field is in front of it.\<close>

definition packer_body :: "request_packer \<Rightarrow> byte list" where
  "packer_body p = drop 5 (m_stream p)"

definition packer_ok :: "request_packer \<Rightarrow> bool" where
  "packer_ok p \<longleftrightarrow> (\<exists>s body. length s = 4 \<and> m_stream p = size_tag # s @ body)"

definition pack_map_entries ::
  "msgpack_lib \<Rightarrow> (field_type \<times> mp_object) list \<Rightarrow> request_packer \<Rightarrow> request_packer" where
  "pack_map_entries L es p = fold (\<lambda>(f, obj). pack_map_entry L f obj) es p"

abbreviation entry_objects :: "(field_type \<times> mp_object) list \<Rightarrow> (mp_object \<times> mp_object) list" where
  "entry_objects es \<equiv> map (\<lambda>(f, obj). (mp_field f, obj)) es"

subsection \<open>Lemmas\<close>

lemmas packer_defs = RequestPacker_init_def pack_def begin_map_count_def begin_map_def
  pack_map_entry_def packer_str_def

lemma packer_ok_iff: "packer_ok p \<longleftrightarrow> 5 \<le> length (m_stream p) \<and> hd (m_stream p) = size_tag"
proof
  assume "5 \<le> length (m_stream p) \<and> hd (m_stream p) = size_tag"
  then have "m_stream p = size_tag # take 4 (tl (m_stream p)) @ drop 4 (tl (m_stream p))"
    by (cases "m_stream p") auto
  moreover have "length (take 4 (tl (m_stream p))) = 4"
    using \<open>5 \<le> length (m_stream p) \<and> _\<close> by (auto simp: min_def)
  ultimately show "packer_ok p" unfolding packer_ok_def by blast
qed (auto simp: packer_ok_def)

lemma packer_ok_init: "packer_ok RequestPacker_init"
  by (simp add: packer_ok_iff RequestPacker_init_def)

lemma packer_ok_append:
  "packer_ok p \<Longrightarrow> m_stream q = m_stream p @ bs \<Longrightarrow> packer_ok q \<and> packer_body q = packer_body p @ bs"
  by (cases "m_stream p") (auto simp: packer_ok_iff packer_body_def)

lemma packer_body_init [simp]: "packer_body RequestPacker_init = []"
  by (simp add: packer_body_def RequestPacker_init_def)

lemma packer_append_ops:
  "m_stream (pack adaptor data p) = m_stream p @ adaptor data"
  "m_stream (begin_map_count L n p) = m_stream p @ mp_pack_map L n"
  "m_stream (begin_map p) = m_stream p @ map_tag # le_bytes 2 (2 ^ 16 - 1)"
  "m_stream (pack_map_entry L field obj p) = m_stream p @ mp_pack L (mp_field field) @ mp_pack L obj"
  by (simp_all add: packer_defs Let_def)

lemma pack_map_entries_stream:
  "m_stream (pack_map_entries L es p) = m_stream p @ pack_entries L (entry_objects es)"
  and pack_map_entries_count:
  "m_header_count (pack_map_entries L es p) = m_header_count p + of_nat (length es)"
  and pack_map_entries_offset:
  "map_len_offset (pack_map_entries L es p) = map_len_offset p"
  by (induction es arbitrary: p) (simp_all add: pack_map_entries_def pack_map_entry_def split_def)

lemma packer_ok_pack [simp]:
  "packer_ok p \<Longrightarrow> packer_ok (pack adaptor data p)"
  "packer_ok p \<Longrightarrow> packer_body (pack adaptor data p) = packer_body p @ adaptor data"
  by (simp_all add: packer_ok_append [OF _ packer_append_ops(1)])

lemma packer_ok_begin_map_count [simp]:
  "packer_ok p \<Longrightarrow> packer_ok (begin_map_count L n p)"
  "packer_ok p \<Longrightarrow> packer_body (begin_map_count L n p) = packer_body p @ mp_pack_map L n"
  by (simp_all add: packer_ok_append [OF _ packer_append_ops(2)])

lemma packer_ok_begin_map [simp]:
  "packer_ok p \<Longrightarrow> packer_ok (begin_map p)"
  "packer_ok p \<Longrightarrow> packer_body (begin_map p) = packer_body p @ map_tag # le_bytes 2 (2 ^ 16 - 1)"
  by (simp_all add: packer_ok_append [OF _ packer_append_ops(3)])

lemma packer_ok_entries [simp]:
  "packer_ok p \<Longrightarrow> packer_ok (pack_map_entries L es p)"
  "packer_ok p \<Longrightarrow> packer_body (pack_map_entries L es p) = packer_body p @ pack_entries L (entry_objects es)"
  by (simp_all only: packer_ok_append [OF _ pack_map_entries_stream])

lemma finalize_stream:
  assumes ok: "packer_ok p" and E: "endian_ok E"
  shows "packer_str (finalize E p) =
    size_tag # be_bytes 4 (length (packer_body p) mod 2 ^ 32) @ packer_body p"
proof -
  from ok obtain s body where s: "length s = 4" and st: "m_stream p = size_tag # s @ body"
    by (auto simp: packer_ok_def)
  have body: "packer_body p = body" using s st by (simp add: packer_body_def)
  have "(of_nat (length (m_stream p)) - 1 - 4 :: u32) = of_nat (length body)"
    using s st by simp
  moreover have "unat (of_nat (length body) :: u32) = length body mod 2 ^ 32"
    by (simp add: unat_of_nat)
  ultimately show ?thesis
    using overwrite_append_at [of 1 "[size_tag]" "be_bytes 4 (length body mod 2 ^ 32)" s body] s st body
    by (simp add: finalize_def Let_def packer_str_def endian_store [OF E])
qed

lemma finalize_map_body:
  assumes ok: "packer_ok p" and E: "endian_ok E" and n: "length es < 2 ^ 16"
    and "m_header_count p = 0"
  shows "\<exists>q. finalize_map E (pack_map_entries L es (begin_map p)) = Inr q \<and> packer_ok q
    \<and> packer_body q = packer_body p @ map_tag # be_bytes 2 (length es) @ pack_entries L (entry_objects es)"
proof -
  let ?p = "pack_map_entries L es (begin_map p)"
  let ?pre = "m_stream p @ [map_tag]" and ?es = "pack_entries L (entry_objects es)"
  have st: "m_stream ?p = ?pre @ le_bytes 2 (2 ^ 16 - 1) @ ?es"
    by (simp add: pack_map_entries_stream packer_append_ops)
  have off: "map_len_offset ?p = length ?pre"
    by (simp add: pack_map_entries_offset begin_map_def Let_def)
  have cnt: "unat (m_header_count ?p) = length es"
    using n assms(4) by (simp add: pack_map_entries_count begin_map_def Let_def unat_of_nat)
  have "finalize_map E ?p = Inr (?p\<lparr>m_stream := ?pre @ be_bytes 2 (length es) @ ?es\<rparr>)"
    using overwrite_append_at [OF off, of "be_bytes 2 (length es)" "le_bytes 2 (2 ^ 16 - 1)" ?es]
    by (simp add: finalize_map_def off st endian_store [OF E] cnt)
  then show ?thesis
    using packer_ok_append [OF ok, of "?p\<lparr>m_stream := ?pre @ be_bytes 2 (length es) @ ?es\<rparr>"
        "map_tag # be_bytes 2 (length es) @ ?es"]
    by simp
qed

lemma le_bytes_4:
  "le_bytes 4 x = [of_nat (x mod 256), of_nat (x div 256 mod 256), of_nat (x div 256 div 256 mod 256),
     of_nat (x div 256 div 256 div 256 mod 256)]"
proof -
  have four: "(4 :: nat) = Suc (Suc (Suc (Suc 0)))" by simp
  show ?thesis unfolding four by simp
qed

lemma counted_body:
  assumes "msgpack_ok L" "length es < 2 ^ 32"
  shows "packer_body (pack_map_entries L es (begin_map_count L (of_nat (length es))
      (pack (header_pack L) h RequestPacker_init)))
    = header_pack L h @ mp_pack L (Mp_map (entry_objects es))"
  using msgpack_pack_map [OF assms(1), of "entry_objects es"] assms(2)
  by (simp add: packer_ok_init)

lemma wire_frame_finalize:
  "packer_ok p \<Longrightarrow> endian_ok E \<Longrightarrow> length (packer_body p) < 2 ^ 32 \<Longrightarrow>
     packer_str (finalize E p) = wire_frame (packer_body p)"
  by (simp add: finalize_stream wire_frame_def)

lemma counted_frame:
  assumes "msgpack_ok L" "endian_ok E" "length es < 2 ^ 32"
    "length (header_pack L h @ mp_pack L (Mp_map (entry_objects es))) < 2 ^ 32"
  shows "packer_str (finalize E (pack_map_entries L es (begin_map_count L (of_nat (length es))
      (pack (header_pack L) h RequestPacker_init))))
    = wire_frame (header_pack L h @ mp_pack L (Mp_map (entry_objects es)))"
proof -
  let ?p = "pack_map_entries L es (begin_map_count L (of_nat (length es)) (pack (header_pack L) h RequestPacker_init))"
  have "packer_ok ?p" by (simp add: packer_ok_init)
  from wire_frame_finalize [OF this assms(2)] show ?thesis
    using assms(4) unfolding counted_body [OF assms(1,3)] by blast
qed

lemma patched_frame:
  assumes "msgpack_ok L" "endian_ok E" "length es < 2 ^ 16" "mp_wf (Mp_map (entry_objects es))"
    "length (header_pack L h) + 3 + length (pack_entries L (entry_objects es)) < 2 ^ 32"
  shows "\<exists>q body. finalize_map E (pack_map_entries L es (begin_map (pack (header_pack L) h RequestPacker_init))) = Inr q
    \<and> packer_str (finalize E q) = wire_frame (header_pack L h @ body)
    \<and> mp_unpack L body 0 = Inr (Mp_map (entry_objects es), length body)"
proof -
  let ?p = "pack (header_pack L) h RequestPacker_init"
  let ?body = "map_tag # be_bytes 2 (length es) @ pack_entries L (entry_objects es)"
  have "packer_ok ?p" "m_header_count ?p = 0" "packer_body ?p = header_pack L h"
    by (simp_all add: packer_ok_init) (simp add: pack_def RequestPacker_init_def)
  from finalize_map_body [OF this(1) assms(2,3) this(2), of L] this(3) obtain q
    where q: "finalize_map E (pack_map_entries L es (begin_map ?p)) = Inr q" "packer_ok q"
      and body: "packer_body q = header_pack L h @ ?body" by auto
  have "packer_str (finalize E q) = wire_frame (header_pack L h @ ?body)"
    using wire_frame_finalize [OF q(2) assms(2)] assms(5) by (simp add: body)
  moreover have "mp_unpack L ?body 0 = Inr (Mp_map (entry_objects es), length ?body)"
    using msgpack_unpack_map16 [OF assms(1,4)] assms(3) by (simp add: map_tag_def)
  ultimately show ?thesis using q(1) by blast
qed

text \<open>A header to evaluate examples with.\<close>

abbreviation sample_header :: message_header where
  "sample_header \<equiv> \<lparr>request_type = 0x40, sync = 7, schema_version = 0, stream_id = None\<rparr>"

end
