(* ===== verification/Mutable_Buffer.thy ===== *)
theory Mutable_Buffer
  imports Prelude
begin

text \<open>
  The receive buffers of \<open>detail/tntpp_mutable_buffer.h\<close>. A \<open>SharedBuffer\<close> is a block of memory
  with a read and a write pointer; a \<open>MutableBuffer\<close> points to the current block and allocates a
  new one when it runs out of space; a \<open>FrozenBuffer\<close> is a view of bytes already consumed that
  stays alive, and must stay unchanged, while the connection goes on reading into the same block.
  The blocks live in an explicit heap, so that this sharing is part of the model. Blocks are never
  removed from the heap: \<open>std::shared_ptr\<close> frees one only when nothing refers to it.
\<close>

subsection \<open>Definitions: SharedBuffer\<close>

record shared_buffer =
  m_write_pointer :: nat
  m_read_pointer :: nat
  m_size :: nat
  m_data :: "byte list"

text \<open>An \<open>asio\<close> buffer into a block: where it starts and how long it is.\<close>

record region =
  reg_off :: nat
  reg_len :: nat

definition SharedBuffer_init :: "nat \<Rightarrow> shared_buffer" where
  "SharedBuffer_init n =
     \<lparr>m_write_pointer = 0, m_read_pointer = 0, m_size = n, m_data = replicate n 0\<rparr>"

definition sb_free :: "shared_buffer \<Rightarrow> nat run" where
  "sb_free b = assert_run (m_size b \<ge> m_write_pointer b) (Inr (m_size b - m_write_pointer b))"

definition sb_ready :: "shared_buffer \<Rightarrow> nat run" where
  "sb_ready b =
     assert_run (m_write_pointer b \<ge> m_read_pointer b) (Inr (m_write_pointer b - m_read_pointer b))"

definition sb_advance_reader :: "nat \<Rightarrow> shared_buffer \<Rightarrow> shared_buffer run" where
  "sb_advance_reader bytes b =
     (let b' = b\<lparr>m_read_pointer := size_add (m_read_pointer b) bytes\<rparr>
      in assert_run (m_write_pointer b' \<ge> m_read_pointer b') (Inr b'))"

definition sb_advance_writer :: "nat \<Rightarrow> shared_buffer \<Rightarrow> shared_buffer run" where
  "sb_advance_writer bytes b =
     (let b' = b\<lparr>m_write_pointer := size_add (m_write_pointer b) bytes\<rparr>
      in assert_run (m_write_pointer b' \<le> m_size b') (Inr b'))"

definition sb_get_receive_buffer :: "shared_buffer \<Rightarrow> region run" where
  "sb_get_receive_buffer b =
     run_bind (sb_free b) (\<lambda>n. Inr \<lparr>reg_off = m_write_pointer b, reg_len = n\<rparr>)"

definition sb_get_ready_buffer :: "shared_buffer \<Rightarrow> region run" where
  "sb_get_ready_buffer b =
     run_bind (sb_ready b) (\<lambda>n. Inr \<lparr>reg_off = m_read_pointer b, reg_len = n\<rparr>)"

definition sb_is_empty :: "shared_buffer \<Rightarrow> bool" where
  "sb_is_empty b \<longleftrightarrow> m_write_pointer b = 0"

text \<open>
  \<open>copy_rest_from\<close> changes both blocks: the unread bytes are copied to the start of \<open>b\<close>, whose
  write pointer moves on, and \<open>other\<close> counts as read.
\<close>

definition copy_rest_from :: "shared_buffer \<Rightarrow> shared_buffer \<Rightarrow> (shared_buffer \<times> shared_buffer) run" where
  "copy_rest_from b other =
     run_bind (sb_ready other) (\<lambda>n.
       assert_run (n < m_size b)
         (let b1 = b\<lparr>m_data := overwrite 0 (slice_list (m_read_pointer other) n (m_data other)) (m_data b)\<rparr>
          in run_bind (sb_advance_writer n b1) (\<lambda>b2.
               run_bind (sb_advance_reader n other) (\<lambda>other'. Inr (b2, other')))))"

subsection \<open>Definitions: FrozenBuffer\<close>

text \<open>
  \<open>m_data\<close> is a null pointer or a block and an offset in it; \<open>m_buf\<close> is the shared pointer that
  keeps the block alive.
\<close>

record frozen_buffer =
  fb_data :: "(nat \<times> nat) option"
  fb_size :: nat
  fb_buf :: "nat option"

definition FrozenBuffer_default :: frozen_buffer where
  "FrozenBuffer_default = \<lparr>fb_data = None, fb_size = 0, fb_buf = None\<rparr>"

definition fb_slice :: "frozen_buffer \<Rightarrow> nat \<Rightarrow> nat \<Rightarrow> frozen_buffer run" where
  "fb_slice f start len =
     assert_run (start < fb_size f)
       (let len' = (if len = size_max then fb_size f - start else len)
        in Inr \<lparr>fb_data = map_option (\<lambda>(a, off). (a, off + start)) (fb_data f),
                fb_size = len', fb_buf = fb_buf f\<rparr>)"

subsection \<open>Definitions: MutableBuffer\<close>

record mutable_buffer =
  mb_heap :: "shared_buffer list"
  mb_default_length :: nat
  mb_buffer :: nat

abbreviation current :: "mutable_buffer \<Rightarrow> shared_buffer" where
  "current mb \<equiv> mb_heap mb ! mb_buffer mb"

definition set_current :: "shared_buffer \<Rightarrow> mutable_buffer \<Rightarrow> mutable_buffer" where
  "set_current b mb = mb\<lparr>mb_heap := (mb_heap mb)[mb_buffer mb := b]\<rparr>"

text \<open>\<open>std::make_shared<SharedBuffer>\<close> followed by the assignment to \<open>m_buffer\<close>.\<close>

definition set_new_buffer :: "shared_buffer \<Rightarrow> mutable_buffer \<Rightarrow> mutable_buffer" where
  "set_new_buffer b mb = mb\<lparr>mb_heap := mb_heap mb @ [b], mb_buffer := length (mb_heap mb)\<rparr>"

definition MutableBuffer_init :: "nat \<Rightarrow> mutable_buffer" where
  "MutableBuffer_init default_length =
     \<lparr>mb_heap = [SharedBuffer_init default_length], mb_default_length = default_length,
      mb_buffer = 0\<rparr>"

definition prepare :: "nat \<Rightarrow> mutable_buffer \<Rightarrow> mutable_buffer run" where
  "prepare bytes mb =
     run_bind (sb_free (current mb)) (\<lambda>f.
       if f \<ge> bytes then Inr mb
       else run_bind (sb_ready (current mb)) (\<lambda>r.
              let new_buffer = SharedBuffer_init (size_add (size_add r bytes) (mb_default_length mb))
              in run_bind (copy_rest_from new_buffer (current mb)) (\<lambda>(new_buffer', old').
                   Inr (set_new_buffer new_buffer' (set_current old' mb)))))"

definition get_receive_buffer :: "mutable_buffer \<Rightarrow> (region \<times> mutable_buffer) run" where
  "get_receive_buffer mb =
     run_bind (sb_free (current mb)) (\<lambda>f.
       run_bind (if f = 0 then prepare (mb_default_length mb) mb else Inr mb) (\<lambda>mb'.
         run_bind (sb_get_receive_buffer (current mb')) (\<lambda>r. Inr (r, mb'))))"

definition advance_writer :: "nat \<Rightarrow> mutable_buffer \<Rightarrow> mutable_buffer run" where
  "advance_writer bytes mb =
     run_bind (sb_advance_writer bytes (current mb)) (\<lambda>b. Inr (set_current b mb))"

definition advance_reader :: "nat \<Rightarrow> mutable_buffer \<Rightarrow> (frozen_buffer \<times> mutable_buffer) run" where
  "advance_reader bytes mb =
     run_bind (sb_get_ready_buffer (current mb)) (\<lambda>const_buf.
       assert_run (reg_len const_buf \<ge> bytes)
         (let frozen = \<lparr>fb_data = Some (mb_buffer mb, reg_off const_buf), fb_size = bytes,
                        fb_buf = Some (mb_buffer mb)\<rparr>
          in run_bind (sb_advance_reader bytes (current mb)) (\<lambda>b. Inr (frozen, set_current b mb))))"

definition get_ready_buffer :: "mutable_buffer \<Rightarrow> region run" where
  "get_ready_buffer mb = sb_get_ready_buffer (current mb)"

definition mb_ready :: "mutable_buffer \<Rightarrow> nat run" where
  "mb_ready mb = sb_ready (current mb)"

definition mb_clear :: "mutable_buffer \<Rightarrow> mutable_buffer" where
  "mb_clear mb =
     (if sb_is_empty (current mb) then mb
      else set_new_buffer (SharedBuffer_init (mb_default_length mb)) mb)"

text \<open>
  What a read operation does to the memory behind the buffer that \<open>get_receive_buffer\<close> returned:
  the received bytes are stored at its start.
\<close>

definition store_received :: "region \<Rightarrow> byte list \<Rightarrow> mutable_buffer \<Rightarrow> mutable_buffer" where
  "store_received r bs mb =
     set_current ((current mb)\<lparr>m_data := overwrite (reg_off r) bs (m_data (current mb))\<rparr>) mb"

text \<open>A read into the buffer as a whole: take the receive buffer, store the bytes, mark them written.\<close>

definition receive_into :: "byte list \<Rightarrow> mutable_buffer \<Rightarrow> mutable_buffer run" where
  "receive_into bs mb =
     run_bind (get_receive_buffer mb) (\<lambda>(r, mb1). advance_writer (length bs) (store_received r bs mb1))"

text \<open>The bytes a frozen buffer shows, and the bytes that wait for the reader.\<close>

definition frozen_bytes :: "mutable_buffer \<Rightarrow> frozen_buffer \<Rightarrow> byte list" where
  "frozen_bytes mb f =
     (case fb_data f of None \<Rightarrow> []
      | Some (a, off) \<Rightarrow> slice_list off (fb_size f) (m_data (mb_heap mb ! a)))"

definition ready_data :: "mutable_buffer \<Rightarrow> byte list" where
  "ready_data mb =
     slice_list (m_read_pointer (current mb)) (m_write_pointer (current mb) - m_read_pointer (current mb))
       (m_data (current mb))"

definition room :: "mutable_buffer \<Rightarrow> nat" where
  "room mb = m_size (current mb) - m_write_pointer (current mb)"

text \<open>The class invariant, and when a frozen buffer is a view of consumed bytes.\<close>

definition sb_ok :: "shared_buffer \<Rightarrow> bool" where
  "sb_ok b \<longleftrightarrow> m_read_pointer b \<le> m_write_pointer b \<and> m_write_pointer b \<le> m_size b
     \<and> m_size b < 2 ^ 64 \<and> length (m_data b) = m_size b"

definition mb_ok :: "mutable_buffer \<Rightarrow> bool" where
  "mb_ok mb \<longleftrightarrow> mb_buffer mb < length (mb_heap mb) \<and> list_all sb_ok (mb_heap mb)
     \<and> mb_default_length mb < 2 ^ 64"

definition frozen_ok :: "mutable_buffer \<Rightarrow> frozen_buffer \<Rightarrow> bool" where
  "frozen_ok mb f \<longleftrightarrow>
     (case fb_data f of None \<Rightarrow> fb_size f = 0
      | Some (a, off) \<Rightarrow> a < length (mb_heap mb) \<and> fb_buf f = Some a
          \<and> off + fb_size f \<le> m_read_pointer (mb_heap mb ! a))"

text \<open>\<open>mb'\<close> keeps every consumed byte of \<open>mb\<close>: the frozen buffers stay valid and show the same.\<close>

definition keeps_frozen :: "mutable_buffer \<Rightarrow> mutable_buffer \<Rightarrow> bool" where
  "keeps_frozen mb mb' \<longleftrightarrow>
     (\<forall>f. frozen_ok mb f \<longrightarrow> frozen_ok mb' f \<and> frozen_bytes mb' f = frozen_bytes mb f)"

text \<open>
  A client's calls in sequence: \<open>Fill\<close> prepares space and reads bytes into it, \<open>Consume\<close> takes
  bytes out as a frozen buffer, which the client keeps.
\<close>

datatype buf_op = Fill "byte list" | Consume nat

fun buf_step :: "buf_op \<Rightarrow> frozen_buffer list \<times> mutable_buffer \<Rightarrow> (frozen_buffer list \<times> mutable_buffer) run"
where
  "buf_step (Fill bs) (fs, mb) =
     run_bind (prepare (length bs) mb) (\<lambda>mb1. run_bind (receive_into bs mb1) (\<lambda>mb2. Inr (fs, mb2)))"
| "buf_step (Consume n) (fs, mb) =
     run_bind (advance_reader n mb) (\<lambda>(f, mb'). Inr (fs @ [f], mb'))"

fun buf_run :: "buf_op list \<Rightarrow> frozen_buffer list \<times> mutable_buffer \<Rightarrow> (frozen_buffer list \<times> mutable_buffer) run"
where
  "buf_run [] p = Inr p"
| "buf_run (op # ops) p = run_bind (buf_step op p) (buf_run ops)"

text \<open>The bytes filled in, and that no call consumes more than is there (\<open>avail\<close> at the start).\<close>

fun filled :: "buf_op list \<Rightarrow> byte list" where
  "filled [] = []"
| "filled (Fill bs # ops) = bs @ filled ops"
| "filled (Consume n # ops) = filled ops"

fun consumed :: "buf_op list \<Rightarrow> nat list" where
  "consumed [] = []"
| "consumed (Fill bs # ops) = consumed ops"
| "consumed (Consume n # ops) = n # consumed ops"

fun avail_ok :: "nat \<Rightarrow> buf_op list \<Rightarrow> bool" where
  "avail_ok avail [] = True"
| "avail_ok avail (Fill bs # ops) = (bs \<noteq> [] \<and> avail_ok (avail + length bs) ops)"
| "avail_ok avail (Consume n # ops) = (n \<le> avail \<and> avail_ok (avail - n) ops)"

subsection \<open>The interface the framing relies on\<close>

text \<open>
  A byte stream buffer: bytes wait in order (\<open>bytes_of\<close>), \<open>prep\<close> makes room, \<open>put\<close> appends what
  was received, \<open>take_out\<close> hands out a view of the first bytes, and no operation changes what a
  view handed out before shows (\<open>keeps\<close>).
\<close>

locale stream_buffer =
  fixes ok :: "'b \<Rightarrow> bool"
    and bytes_of :: "'b \<Rightarrow> byte list"
    and space :: "'b \<Rightarrow> nat"
    and extra :: "'b \<Rightarrow> nat"
    and valid :: "'b \<Rightarrow> 'f \<Rightarrow> bool"
    and view :: "'b \<Rightarrow> 'f \<Rightarrow> byte list"
    and keeps :: "'b \<Rightarrow> 'b \<Rightarrow> bool"
    and prep :: "nat \<Rightarrow> 'b \<Rightarrow> 'b run"
    and put :: "byte list \<Rightarrow> 'b \<Rightarrow> 'b run"
    and take_out :: "nat \<Rightarrow> 'b \<Rightarrow> ('f \<times> 'b) run"
  assumes keeps_trans: "keeps b1 b2 \<Longrightarrow> keeps b2 b3 \<Longrightarrow> keeps b1 b3"
    and keeps_view: "keeps b b' \<Longrightarrow> valid b f \<Longrightarrow> valid b' f \<and> view b' f = view b f"
    and prep_law: "ok b \<Longrightarrow> length (bytes_of b) + n + extra b < 2 ^ 64 \<Longrightarrow>
      \<exists>b'. prep n b = Inr b' \<and> ok b' \<and> bytes_of b' = bytes_of b \<and> n \<le> space b' \<and> keeps b b'
        \<and> extra b' = extra b"
    and put_law: "ok b \<Longrightarrow> 0 < space b \<Longrightarrow> length bs \<le> space b \<Longrightarrow>
      \<exists>b'. put bs b = Inr b' \<and> ok b' \<and> bytes_of b' = bytes_of b @ bs \<and> keeps b b' \<and> extra b' = extra b"
    and take_law: "ok b \<Longrightarrow> n \<le> length (bytes_of b) \<Longrightarrow>
      \<exists>f b'. take_out n b = Inr (f, b') \<and> ok b' \<and> bytes_of b' = drop n (bytes_of b)
        \<and> valid b' f \<and> view b' f = take n (bytes_of b) \<and> keeps b b' \<and> extra b' = extra b"
begin

lemma fill_law:
  assumes "ok b" "bs \<noteq> []" "length (bytes_of b) + length bs + extra b < 2 ^ 64"
  shows "\<exists>b1 b2. prep (length bs) b = Inr b1 \<and> put bs b1 = Inr b2 \<and> ok b2
    \<and> bytes_of b2 = bytes_of b @ bs \<and> keeps b b2 \<and> extra b2 = extra b"
proof -
  from prep_law [OF assms(1,3)] obtain b1 where b1: "prep (length bs) b = Inr b1" "ok b1"
    "bytes_of b1 = bytes_of b" "length bs \<le> space b1" "keeps b b1" "extra b1 = extra b" by blast
  moreover have "0 < space b1" using assms(2) b1(4) by (cases bs) auto
  ultimately show ?thesis using put_law [OF b1(2) _ b1(4)] keeps_trans by fastforce
qed

lemma view_all: "keeps b b' \<Longrightarrow> \<forall>f \<in> set fs. valid b f \<Longrightarrow>
    (\<forall>f \<in> set fs. valid b' f) \<and> map (view b') fs = map (view b) fs"
  using keeps_view by (induction fs) auto

end

subsection \<open>Lemmas: SharedBuffer\<close>

lemmas sb_defs = SharedBuffer_init_def sb_free_def sb_ready_def sb_advance_reader_def
  sb_advance_writer_def sb_get_receive_buffer_def sb_get_ready_buffer_def sb_is_empty_def
  copy_rest_from_def

lemma sb_ok_init: "n < 2 ^ 64 \<Longrightarrow> sb_ok (SharedBuffer_init n)"
  by (simp add: sb_ok_def SharedBuffer_init_def)

lemma sb_ok_free: "sb_ok b \<Longrightarrow> sb_free b = Inr (m_size b - m_write_pointer b)"
  and sb_ok_ready: "sb_ok b \<Longrightarrow> sb_ready b = Inr (m_write_pointer b - m_read_pointer b)"
  by (simp_all add: sb_ok_def sb_defs)

lemma sb_advance_reader_ok:
  "sb_ok b \<Longrightarrow> n \<le> m_write_pointer b - m_read_pointer b \<Longrightarrow>
     sb_advance_reader n b = Inr (b\<lparr>m_read_pointer := m_read_pointer b + n\<rparr>)"
  using size_add_small [of "m_read_pointer b" n] by (auto simp: sb_ok_def sb_advance_reader_def)

lemma sb_advance_writer_ok:
  "sb_ok b \<Longrightarrow> n \<le> m_size b - m_write_pointer b \<Longrightarrow>
     sb_advance_writer n b = Inr (b\<lparr>m_write_pointer := m_write_pointer b + n\<rparr>)"
  using size_add_small [of "m_write_pointer b" n] by (auto simp: sb_ok_def sb_advance_writer_def)

lemma copy_rest_from_ok:
  assumes "sb_ok other" "n = m_write_pointer other - m_read_pointer other" "n < s" "s < 2 ^ 64"
  shows "copy_rest_from (SharedBuffer_init s) other =
    Inr (\<lparr>m_write_pointer = n, m_read_pointer = 0, m_size = s,
          m_data = slice_list (m_read_pointer other) n (m_data other) @ replicate (s - n) 0\<rparr>,
         other\<lparr>m_read_pointer := m_write_pointer other\<rparr>)"
proof -
  have len: "length (slice_list (m_read_pointer other) n (m_data other)) = n"
    using assms by (auto simp: length_slice_list sb_ok_def min_def)
  then have "overwrite 0 (slice_list (m_read_pointer other) n (m_data other)) (replicate s 0)
      = slice_list (m_read_pointer other) n (m_data other) @ replicate (s - n) 0"
    by (simp add: overwrite_def)
  then show ?thesis
    using assms sb_advance_reader_ok [OF assms(1), of n]
    by (simp add: copy_rest_from_def sb_ok_ready SharedBuffer_init_def sb_advance_writer_def sb_ok_def)
qed

subsection \<open>Lemmas: MutableBuffer\<close>

lemma current_ok: "mb_ok mb \<Longrightarrow> sb_ok (current mb)"
  by (simp add: mb_ok_def list_all_length)

lemma length_ready_data:
  "mb_ok mb \<Longrightarrow> length (ready_data mb) = m_write_pointer (current mb) - m_read_pointer (current mb)"
  using current_ok [of mb] by (auto simp: ready_data_def length_slice_list sb_ok_def min_def)

lemma mb_ready_ok: "mb_ok mb \<Longrightarrow> mb_ready mb = Inr (length (ready_data mb))"
  by (simp add: mb_ready_def length_ready_data sb_ok_ready current_ok)

lemma get_ready_buffer_ok:
  "mb_ok mb \<Longrightarrow> get_ready_buffer mb =
     Inr \<lparr>reg_off = m_read_pointer (current mb), reg_len = length (ready_data mb)\<rparr>"
  by (simp add: get_ready_buffer_def sb_get_ready_buffer_def length_ready_data sb_ok_ready current_ok)

lemma current_set_current [simp]:
  "mb_buffer mb < length (mb_heap mb) \<Longrightarrow> mb_heap (set_current b mb) ! mb_buffer mb = b"
  by (simp add: set_current_def)

lemma set_current_simps [simp]:
  "mb_buffer (set_current b mb) = mb_buffer mb"
  "length (mb_heap (set_current b mb)) = length (mb_heap mb)"
  "mb_default_length (set_current b mb) = mb_default_length mb"
  by (simp_all add: set_current_def)

lemma set_new_buffer_simps [simp]:
  "mb_heap (set_new_buffer b mb) ! length (mb_heap mb) = b"
  "length (mb_heap (set_new_buffer b mb)) = Suc (length (mb_heap mb))"
  "mb_buffer (set_new_buffer b mb) = length (mb_heap mb)"
  "mb_default_length (set_new_buffer b mb) = mb_default_length mb"
  by (simp_all add: set_new_buffer_def nth_append)

lemma set_new_buffer_view [simp]:
  "ready_data (set_new_buffer b mb) =
     slice_list (m_read_pointer b) (m_write_pointer b - m_read_pointer b) (m_data b)"
  "room (set_new_buffer b mb) = m_size b - m_write_pointer b"
  by (simp_all add: ready_data_def room_def set_new_buffer_def nth_append)

lemma set_current_view [simp]:
  assumes "mb_buffer mb < length (mb_heap mb)"
  shows "ready_data (set_current b mb) =
     slice_list (m_read_pointer b) (m_write_pointer b - m_read_pointer b) (m_data b)"
    and "room (set_current b mb) = m_size b - m_write_pointer b"
  using assms by (simp_all add: ready_data_def room_def set_current_def)

lemma mb_ok_set_current: "mb_ok mb \<Longrightarrow> sb_ok b \<Longrightarrow> mb_ok (set_current b mb)"
  by (auto simp: mb_ok_def set_current_def list_all_length nth_list_update)

lemma mb_ok_set_new_buffer: "mb_ok mb \<Longrightarrow> sb_ok b \<Longrightarrow> mb_ok (set_new_buffer b mb)"
  by (auto simp: mb_ok_def set_new_buffer_def)

lemma keeps_frozen_refl [simp]: "keeps_frozen mb mb"
  by (simp add: keeps_frozen_def)

lemma keeps_frozen_trans:
  "keeps_frozen mb1 mb2 \<Longrightarrow> keeps_frozen mb2 mb3 \<Longrightarrow> keeps_frozen mb1 mb3"
  by (simp add: keeps_frozen_def)

lemma keeps_frozen_set_new_buffer: "keeps_frozen mb (set_new_buffer b mb)"
  by (auto simp: keeps_frozen_def frozen_ok_def frozen_bytes_def set_new_buffer_def nth_append
      split: option.splits)

text \<open>A block may change beyond its read pointer, and the read pointer may advance.\<close>

lemma keeps_frozen_set_current:
  assumes "m_read_pointer (current mb) \<le> m_read_pointer b"
    and "\<And>off n. off + n \<le> m_read_pointer (current mb) \<Longrightarrow>
      slice_list off n (m_data b) = slice_list off n (m_data (current mb))"
  shows "keeps_frozen mb (set_current b mb)"
  unfolding keeps_frozen_def
proof (intro allI impI)
  fix f assume ok: "frozen_ok mb f"
  show "frozen_ok (set_current b mb) f \<and> frozen_bytes (set_current b mb) f = frozen_bytes mb f"
  proof (cases "fb_data f")
    case None
    with ok show ?thesis by (simp add: frozen_ok_def frozen_bytes_def)
  next
    case (Some p)
    obtain a off where p: "p = (a, off)" by force
    show ?thesis
      using ok assms Some p by (cases "a = mb_buffer mb")
        (auto simp: frozen_ok_def frozen_bytes_def set_current_def)
  qed
qed

lemma prepare_ok:
  assumes ok: "mb_ok mb" and lim: "length (ready_data mb) + bytes + mb_default_length mb < 2 ^ 64"
  shows "\<exists>mb'. prepare bytes mb = Inr mb' \<and> mb_ok mb' \<and> ready_data mb' = ready_data mb
    \<and> bytes \<le> room mb' \<and> keeps_frozen mb mb' \<and> mb_default_length mb' = mb_default_length mb"
proof (cases "bytes \<le> room mb")
  case True
  with current_ok [OF ok] ok show ?thesis by (simp add: prepare_def sb_ok_free room_def)
next
  case False
  let ?b = "current mb" and ?n = "length (ready_data mb)"
  let ?s = "?n + bytes + mb_default_length mb"
  let ?new = "\<lparr>m_write_pointer = ?n, m_read_pointer = 0, m_size = ?s,
    m_data = ready_data mb @ replicate (?s - ?n) 0\<rparr>"
  let ?old = "?b\<lparr>m_read_pointer := m_write_pointer ?b\<rparr>"
  let ?mb = "set_new_buffer ?new (set_current ?old mb)"
  have b: "sb_ok ?b" and n: "?n = m_write_pointer ?b - m_read_pointer ?b"
    using ok by (simp_all add: current_ok length_ready_data)
  have rd: "ready_data mb = slice_list (m_read_pointer ?b) ?n (m_data ?b)"
    unfolding n by (rule ready_data_def)
  have "copy_rest_from (SharedBuffer_init ?s) ?b = Inr (?new, ?old)"
    using copy_rest_from_ok [OF b n, of ?s] False lim by (simp flip: rd)
  moreover have "size_add (size_add ?n bytes) (mb_default_length mb) = ?s"
    using lim by simp
  ultimately have "prepare bytes mb = Inr ?mb"
    using False by (simp add: prepare_def sb_ok_free [OF b] sb_ok_ready [OF b] room_def flip: n)
  moreover have "mb_ok ?mb"
    using ok b lim by (intro mb_ok_set_new_buffer mb_ok_set_current) (auto simp: sb_ok_def)
  moreover have "ready_data ?mb = ready_data mb" "bytes \<le> room ?mb"
    by (simp_all add: slice_list_def)
  moreover have "keeps_frozen mb ?mb"
    using b by (intro keeps_frozen_trans [OF _ keeps_frozen_set_new_buffer] keeps_frozen_set_current)
      (auto simp: sb_ok_def)
  ultimately show ?thesis by (intro exI [of _ ?mb]) simp
qed

lemma get_receive_buffer_ok:
  assumes "mb_ok mb" "0 < room mb"
  shows "get_receive_buffer mb =
    Inr (\<lparr>reg_off = m_write_pointer (current mb), reg_len = room mb\<rparr>, mb)"
  using assms current_ok [OF assms(1)]
  by (simp add: get_receive_buffer_def sb_get_receive_buffer_def sb_ok_free room_def)

lemma get_receive_buffer_grows:
  assumes ok: "mb_ok mb" and "0 < mb_default_length mb"
    and "length (ready_data mb) + 2 * mb_default_length mb < 2 ^ 64"
  shows "\<exists>r mb'. get_receive_buffer mb = Inr (r, mb') \<and> mb_ok mb' \<and> ready_data mb' = ready_data mb
    \<and> reg_off r = m_write_pointer (current mb') \<and> reg_len r = room mb' \<and> 0 < room mb'
    \<and> keeps_frozen mb mb' \<and> mb_default_length mb' = mb_default_length mb"
proof (cases "room mb = 0")
  case True
  have "length (ready_data mb) + mb_default_length mb + mb_default_length mb < 2 ^ 64"
    using assms(3) by simp
  from prepare_ok [OF ok this] obtain mb' where mb': "prepare (mb_default_length mb) mb = Inr mb'"
    "mb_ok mb'" "ready_data mb' = ready_data mb" "mb_default_length mb \<le> room mb'"
    "keeps_frozen mb mb'" "mb_default_length mb' = mb_default_length mb"
    by blast
  moreover have "sb_free (current mb') = Inr (room mb')"
    using mb'(2) by (simp add: room_def sb_ok_free current_ok)
  ultimately show ?thesis
    using True assms(2) sb_ok_free [OF current_ok [OF ok]]
    by (simp add: get_receive_buffer_def sb_get_receive_buffer_def room_def [of mb])
next
  case False
  then show ?thesis using ok by (simp add: get_receive_buffer_ok)
qed

lemma store_commit_ok:
  assumes ok: "mb_ok mb" and len: "length bs \<le> room mb"
    and r: "reg_off r = m_write_pointer (current mb)"
  shows "\<exists>mb'. advance_writer (length bs) (store_received r bs mb) = Inr mb' \<and> mb_ok mb'
    \<and> ready_data mb' = ready_data mb @ bs \<and> keeps_frozen mb mb'
    \<and> mb_default_length mb' = mb_default_length mb"
proof -
  let ?b = "current mb"
  let ?b1 = "?b\<lparr>m_data := overwrite (m_write_pointer ?b) bs (m_data ?b)\<rparr>"
  let ?b2 = "?b1\<lparr>m_write_pointer := m_write_pointer ?b + length bs\<rparr>"
  have b: "sb_ok ?b" using ok by (rule current_ok)
  have lt: "mb_buffer mb < length (mb_heap mb)" using ok by (simp add: mb_ok_def)
  have b1: "sb_ok ?b1" using b len by (auto simp: sb_ok_def room_def)
  have "advance_writer (length bs) (store_received r bs mb) = Inr (set_current ?b2 mb)"
    using sb_advance_writer_ok [OF b1, of "length bs"] len lt r
    by (simp add: advance_writer_def store_received_def room_def set_current_def)
  moreover have "mb_ok (set_current ?b2 mb)"
    using ok b len by (intro mb_ok_set_current) (auto simp: sb_ok_def room_def)
  moreover have "ready_data (set_current ?b2 mb) = ready_data mb @ bs"
    using slice_list_overwrite_adjacent [of "m_read_pointer ?b" "m_write_pointer ?b" bs "m_data ?b"]
      b len lt by (auto simp: ready_data_def [of mb] sb_ok_def room_def)
  moreover have "keeps_frozen mb (set_current ?b2 mb)"
    using b len by (intro keeps_frozen_set_current)
      (auto simp: sb_ok_def room_def intro: slice_list_overwrite_before)
  ultimately show ?thesis by (intro exI [of _ "set_current ?b2 mb"]) simp
qed

lemma advance_reader_ok:
  assumes ok: "mb_ok mb" and n: "n \<le> length (ready_data mb)"
  shows "\<exists>f mb'. advance_reader n mb = Inr (f, mb') \<and> mb_ok mb' \<and> ready_data mb' = drop n (ready_data mb)
    \<and> frozen_ok mb' f \<and> frozen_bytes mb' f = take n (ready_data mb) \<and> fb_size f = n
    \<and> keeps_frozen mb mb' \<and> mb_default_length mb' = mb_default_length mb"
proof -
  let ?b = "current mb"
  let ?b1 = "?b\<lparr>m_read_pointer := m_read_pointer ?b + n\<rparr>"
  let ?f = "\<lparr>fb_data = Some (mb_buffer mb, m_read_pointer ?b), fb_size = n, fb_buf = Some (mb_buffer mb)\<rparr>"
  have b: "sb_ok ?b" and len: "length (ready_data mb) = m_write_pointer ?b - m_read_pointer ?b"
    using ok by (simp_all add: current_ok length_ready_data)
  have lt: "mb_buffer mb < length (mb_heap mb)" using ok by (simp add: mb_ok_def)
  have "advance_reader n mb = Inr (?f, set_current ?b1 mb)"
    using n len sb_advance_reader_ok [OF b, of n]
    by (simp add: advance_reader_def sb_get_ready_buffer_def sb_ok_ready [OF b])
  moreover have "mb_ok (set_current ?b1 mb)"
    using ok b n len by (intro mb_ok_set_current) (auto simp: sb_ok_def)
  moreover have "ready_data (set_current ?b1 mb) = drop n (ready_data mb)"
    using lt n len by (simp add: ready_data_def drop_slice_list)
  moreover have "frozen_ok (set_current ?b1 mb) ?f"
    "frozen_bytes (set_current ?b1 mb) ?f = take n (ready_data mb)"
    using lt n len
    by (simp_all add: frozen_ok_def frozen_bytes_def ready_data_def take_slice_list set_current_def)
  moreover have "keeps_frozen mb (set_current ?b1 mb)"
    by (intro keeps_frozen_set_current) auto
  ultimately show ?thesis by (intro exI [of _ ?f] exI [of _ "set_current ?b1 mb"]) simp
qed

lemma mb_clear_ok:
  assumes "mb_ok mb"
  shows "mb_ok (mb_clear mb) \<and> ready_data (mb_clear mb) = [] \<and> keeps_frozen mb (mb_clear mb)"
proof (cases "m_write_pointer (current mb) = 0")
  case True
  with assms show ?thesis by (simp add: mb_clear_def sb_is_empty_def ready_data_def slice_list_def)
next
  case False
  have "mb_ok (set_new_buffer (SharedBuffer_init (mb_default_length mb)) mb)"
    using assms by (intro mb_ok_set_new_buffer sb_ok_init) (auto simp: mb_ok_def)
  with False show ?thesis
    by (simp add: mb_clear_def sb_is_empty_def keeps_frozen_set_new_buffer ready_data_def
        slice_list_def SharedBuffer_init_def)
qed

lemma receive_into_ok:
  assumes "mb_ok mb" "0 < room mb" "length bs \<le> room mb"
  shows "\<exists>mb'. receive_into bs mb = Inr mb' \<and> mb_ok mb' \<and> ready_data mb' = ready_data mb @ bs
    \<and> keeps_frozen mb mb' \<and> mb_default_length mb' = mb_default_length mb"
  using store_commit_ok [OF assms(1,3), of "\<lparr>reg_off = m_write_pointer (current mb), reg_len = room mb\<rparr>"]
  by (simp add: receive_into_def get_receive_buffer_ok [OF assms(1,2)])

interpretation mbuf: stream_buffer mb_ok ready_data room mb_default_length frozen_ok frozen_bytes
  keeps_frozen prepare receive_into advance_reader
proof (unfold_locales, goal_cases)
  case (1 b1 b2 b3)
  then show ?case by (rule keeps_frozen_trans)
next
  case (2 b b' f)
  then show ?case by (simp add: keeps_frozen_def)
next
  case (3 b n)
  then show ?case by (rule prepare_ok)
next
  case (4 b bs)
  then show ?case by (rule receive_into_ok)
next
  case (5 b n)
  then show ?case using advance_reader_ok by blast
qed

lemma mb_ok_init: "n < 2 ^ 64 \<Longrightarrow> mb_ok (MutableBuffer_init n)"
  by (simp add: mb_ok_def MutableBuffer_init_def sb_ok_init)

lemma buf_run_stream:
  assumes "mb_ok mb" "\<forall>f \<in> set fs. frozen_ok mb f" "avail_ok (length (ready_data mb)) ops"
    "length (ready_data mb) + length (filled ops) + mb_default_length mb < 2 ^ 64"
  shows "\<exists>gs mb'. buf_run ops (fs, mb) = Inr (fs @ gs, mb') \<and> mb_ok mb'
    \<and> (\<forall>f \<in> set (fs @ gs). frozen_ok mb' f) \<and> map (frozen_bytes mb') fs = map (frozen_bytes mb) fs
    \<and> concat (map (frozen_bytes mb') gs) @ ready_data mb' = ready_data mb @ filled ops
    \<and> map fb_size gs = consumed ops"
  using assms
proof (induction ops arbitrary: fs mb)
  case Nil
  then show ?case by simp
next
  case (Cons op ops)
  show ?case
  proof (cases op)
    case (Fill bs)
    have "bs \<noteq> []" "length (ready_data mb) + length bs + mb_default_length mb < 2 ^ 64"
      using Cons.prems(3,4) Fill by auto
    from mbuf.fill_law [OF Cons.prems(1) this] obtain mb1 mb2
      where step: "prepare (length bs) mb = Inr mb1" "receive_into bs mb1 = Inr mb2" and "mb_ok mb2"
        and rd: "ready_data mb2 = ready_data mb @ bs" and k: "keeps_frozen mb mb2"
        and "mb_default_length mb2 = mb_default_length mb" by blast
    then show ?thesis
      using Cons.IH [of mb2 fs] Cons.prems Fill mbuf.view_all [OF k Cons.prems(2)]
      by (simp add: algebra_simps)
  next
    case (Consume n)
    from Cons.prems(3) Consume have n: "n \<le> length (ready_data mb)" by simp
    from advance_reader_ok [OF Cons.prems(1) n] obtain f mb1
      where step: "advance_reader n mb = Inr (f, mb1)" and mb1: "mb_ok mb1" "frozen_ok mb1 f"
        and rd: "ready_data mb1 = drop n (ready_data mb)" and f: "frozen_bytes mb1 f = take n (ready_data mb)"
        and k: "keeps_frozen mb mb1" and sz: "fb_size f = n"
        and d: "mb_default_length mb1 = mb_default_length mb" by blast
    have all: "\<forall>f \<in> set (fs @ [f]). frozen_ok mb1 f"
      and fs: "map (frozen_bytes mb1) fs = map (frozen_bytes mb) fs"
      using mbuf.view_all [OF k Cons.prems(2)] mb1(2) by auto
    have "avail_ok (length (ready_data mb1)) ops"
      "length (ready_data mb1) + length (filled ops) + mb_default_length mb1 < 2 ^ 64"
      using Cons.prems(3,4) Consume rd d by auto
    from Cons.IH [OF mb1(1) all this] obtain gs mb2 where
      "buf_run ops (fs @ [f], mb1) = Inr ((fs @ [f]) @ gs, mb2)" "mb_ok mb2"
      "\<forall>f \<in> set ((fs @ [f]) @ gs). frozen_ok mb2 f"
      "map (frozen_bytes mb2) (fs @ [f]) = map (frozen_bytes mb1) (fs @ [f])"
      "concat (map (frozen_bytes mb2) gs) @ ready_data mb2 = ready_data mb1 @ filled ops"
      "map fb_size gs = consumed ops"
      by blast
    moreover have "take n (ready_data mb) @ drop n (ready_data mb) @ filled ops = ready_data mb @ filled ops"
      by (simp flip: append_assoc)
    ultimately show ?thesis
      using step fs f rd sz Consume n
      by (intro exI [of _ "f # gs"] exI [of _ mb2]) simp
  qed
qed

subsection \<open>Properties\<close>

text \<open>
  C29: the receive buffer is a faithful byte stream with stable views. However reads and
  consumptions interleave, no call aborts, and after the last call the frozen buffers handed out
  along the way, read in order, followed by the bytes still waiting, are exactly the bytes
  received; each frozen buffer has the requested size. In particular no later read, reallocation
  or copy has changed a byte that an earlier frozen buffer shows.
\<close>

theorem buffer_stream:
  assumes "avail_ok 0 ops" "d + length (filled ops) < 2 ^ 64"
  shows "\<exists>fs mb. buf_run ops ([], MutableBuffer_init d) = Inr (fs, mb) \<and> mb_ok mb
    \<and> concat (map (frozen_bytes mb) fs) @ ready_data mb = filled ops \<and> map fb_size fs = consumed ops"
proof -
  have "ready_data (MutableBuffer_init d) = []" "mb_default_length (MutableBuffer_init d) = d"
    by (simp_all add: MutableBuffer_init_def ready_data_def SharedBuffer_init_def slice_list_def)
  then show ?thesis
    using buf_run_stream [of "MutableBuffer_init d" "[]" ops] mb_ok_init [of d] assms
    by (simp add: algebra_simps) blast
qed

theorem buffer_stream_witness:
  "\<exists>fs mb. buf_run [Fill [1, 2, 3], Consume 2, Fill [4, 5, 6, 7], Consume 4] ([], MutableBuffer_init 4)
      = Inr (fs, mb) \<and> mb_ok mb \<and> concat (map (frozen_bytes mb) fs) @ ready_data mb = [1, 2, 3, 4, 5, 6, 7]
      \<and> map fb_size fs = [2, 4]"
  using buffer_stream [of "[Fill [1, 2, 3], Consume 2, Fill [4, 5, 6, 7], Consume 4]" 4] by simp

end
