(* ===== verification/Framing.thy ===== *)
theory Framing
  imports Request Mutable_Buffer
begin

text \<open>
  The receiving side, from \<open>detail/tntpp_iproto_framing.h\<close>: reading the greeting, cutting the byte
  stream into messages, and the frame with its accessors. The socket is a parameter: a \<open>reader\<close>
  stands for \<open>boost::asio::async_read\<close> into a buffer of a given size with a minimal number of bytes
  to transfer, and delivers an error code and the bytes it stored. \<open>reader_ok\<close> and \<open>reader_live\<close>
  state what a stream socket promises. Each coroutine is the function from the state before the
  call to the completion it reports and the state after it.
\<close>

subsection \<open>Definitions: the socket\<close>

type_synonym 's reader = "'s \<Rightarrow> nat \<Rightarrow> nat \<Rightarrow> (error_code \<times> byte list) \<times> 's"

text \<open>
  \<open>rd s least most\<close> reads at least \<open>least\<close> and at most \<open>most\<close> bytes. What it stores is the next
  part of the incoming bytes; without an error it has read as much as was asked for.
\<close>

definition reader_ok :: "'s reader \<Rightarrow> ('s \<Rightarrow> byte list) \<Rightarrow> bool" where
  "reader_ok rd incoming \<longleftrightarrow> (\<forall>s least most ec data s'. rd s least most = ((ec, data), s') \<longrightarrow>
     length data \<le> most \<and> incoming s = data @ incoming s' \<and> (\<not> failed ec \<longrightarrow> min least most \<le> length data))"

text \<open>No read fails while enough bytes are still to come.\<close>

definition reader_live :: "'s reader \<Rightarrow> ('s \<Rightarrow> byte list) \<Rightarrow> bool" where
  "reader_live rd incoming \<longleftrightarrow> (\<forall>s least most. min least most \<le> length (incoming s) \<longrightarrow>
     \<not> failed (fst (fst (rd s least most))))"

text \<open>
  A reader to evaluate examples with: the incoming bytes are a list and each read delivers \<open>k\<close> of
  them if it may, and at least the minimum.
\<close>

definition chunk_reader :: "nat \<Rightarrow> byte list reader" where
  "chunk_reader k s least most =
     (if length s < min least most then ((errc broken_pipe, []), s)
      else ((no_error, take (min most (max least k)) s), drop (min most (max least k)) s))"

subsection \<open>Definitions: the greeting\<close>

text \<open>
  \<open>read_tarantool_hello\<close>: the 128 bytes of the greeting are two lines; the salt is the second one,
  with its end of line.
\<close>

definition read_tarantool_hello :: "'s reader \<Rightarrow> 's \<Rightarrow> (error_code \<times> byte list) \<times> 's" where
  "read_tarantool_hello rd s =
     (let ((ec, data), s') = rd s 128 128;
          buffer = overwrite 0 data (replicate 128 0)
      in if failed ec then ((ec, []), s')
         else if buffer ! (128 div 2 - 1) \<noteq> 0x0a \<or> buffer ! (128 - 1) \<noteq> 0x0a
         then ((errc bad_message, []), s')
         else ((no_error, slice_list (128 div 2) (128 div 2) buffer), s'))"

subsection \<open>Definitions: IprotoFrame\<close>

record iproto_frame =
  m_header :: message_header
  m_body :: frozen_buffer

definition IprotoFrame_default :: iproto_frame where
  "IprotoFrame_default = \<lparr>m_header = MessageHeader_default, m_body = FrozenBuffer_default\<rparr>"

definition frame_is_error :: "iproto_frame \<Rightarrow> bool" where
  "frame_is_error fr = header_is_error (m_header fr)"

definition frame_get_error_code :: "iproto_frame \<Rightarrow> error_code" where
  "frame_get_error_code fr =
     (if header_is_error (m_header fr) then header_get_error_code (m_header fr)
      else \<lparr>ec_value = uint TarantoolError_Unknown, ec_category = tarantool_category\<rparr>)"

abbreviation frame_body_bytes :: "mutable_buffer \<Rightarrow> iproto_frame \<Rightarrow> byte list" where
  "frame_body_bytes mb fr \<equiv> frozen_bytes mb (m_body fr)"

text \<open>
  \<open>get_error_string\<close>: the loop over the body's entries. The function is \<open>noexcept\<close>, so an
  exception from the library ends the process.
\<close>

fun error_string_entries :: "msgpack_lib \<Rightarrow> (mp_object \<times> mp_object) list \<Rightarrow> byte list run" where
  "error_string_entries L [] = Inr []"
| "error_string_entries L ((Mp_uint k, val) # rest) =
     (if int_to_field_type k = Some F_Error_24
      then (case mp_as_string L val of Inl e \<Rightarrow> Inl Terminate | Inr s \<Rightarrow> Inr s)
      else error_string_entries L rest)"
| "error_string_entries L ((key, val) # rest) = Inr []"

definition frame_get_error_string :: "msgpack_lib \<Rightarrow> mutable_buffer \<Rightarrow> iproto_frame \<Rightarrow> byte list run" where
  "frame_get_error_string L mb fr =
     assert_run (frame_is_error fr)
       (case mp_unpack L (frame_body_bytes mb fr) 0 of
          Inl e \<Rightarrow> Inl Terminate
        | Inr (Mp_map kvs, off) \<Rightarrow> error_string_entries L kvs
        | Inr (_, off) \<Rightarrow> Inr [])"

text \<open>
  \<open>as(std::tuple<T...>& v)\<close>: \<open>conv\<close> is the library's conversion of an object into an existing tuple, which
  may have changed part of it when it throws. The result is the tuple afterwards and the exception,
  if any; the sum is the process (the assertion that the data is there).
\<close>

type_synonym 'v conversion = "mp_object \<Rightarrow> 'v \<Rightarrow> 'v \<times> exn option"

fun as_entries :: "'v conversion \<Rightarrow> (mp_object \<times> mp_object) list \<Rightarrow> 'v \<Rightarrow> ('v \<times> exn option) run" where
  "as_entries conv [] v = Inl Assertion_failed"
| "as_entries conv ((Mp_uint k, val) # rest) v =
     (if int_to_field_type k = Some F_Data then Inr (conv val v) else as_entries conv rest v)"
| "as_entries conv ((key, val) # rest) v = Inr (v, Some Bad_cast)"

definition frame_as ::
  "msgpack_lib \<Rightarrow> 'v conversion \<Rightarrow> mutable_buffer \<Rightarrow> iproto_frame \<Rightarrow> 'v \<Rightarrow> ('v \<times> exn option) run" where
  "frame_as L conv mb fr v =
     (if frame_is_error fr then Inr (v, Some (System_error (frame_get_error_code fr)))
      else case mp_unpack L (frame_body_bytes mb fr) 0 of
             Inl e \<Rightarrow> Inr (v, Some e)
           | Inr (Mp_map kvs, off) \<Rightarrow> as_entries conv kvs v
           | Inr (_, off) \<Rightarrow> Inr (v, Some Bad_cast))"

text \<open>\<open>as()\<close>: the tuple starts as the default-constructed one, \<open>dflt\<close>; an exception leaves the function.\<close>

definition frame_as_value ::
  "msgpack_lib \<Rightarrow> 'v conversion \<Rightarrow> 'v \<Rightarrow> mutable_buffer \<Rightarrow> iproto_frame \<Rightarrow> (exn + 'v) run" where
  "frame_as_value L conv dflt mb fr =
     run_bind (frame_as L conv mb fr dflt) (\<lambda>(v, e). Inr (case e of None \<Rightarrow> Inr v | Some x \<Rightarrow> Inl x))"

text \<open>
  The two variants with an error code: exceptions become error codes, and \<open>ec\<close> keeps its value when
  nothing fails. \<open>as(error_code& ec)\<close> returns the default-constructed tuple after an exception,
  \<open>as(v, ec)\<close> leaves the caller's tuple as the conversion left it.
\<close>

definition caught :: "exn \<Rightarrow> error_code" where
  "caught x = (case x of System_error c \<Rightarrow> c | _ \<Rightarrow> errc protocol_error)"

definition frame_as_ec ::
  "msgpack_lib \<Rightarrow> 'v conversion \<Rightarrow> 'v \<Rightarrow> mutable_buffer \<Rightarrow> iproto_frame \<Rightarrow> error_code \<Rightarrow> ('v \<times> error_code) run" where
  "frame_as_ec L conv dflt mb fr ec =
     (if frame_is_error fr then Inr (dflt, frame_get_error_code fr)
      else run_bind (frame_as_value L conv dflt mb fr) (\<lambda>r.
        case r of Inr v \<Rightarrow> Inr (v, ec) | Inl x \<Rightarrow> Inr (dflt, caught x)))"

definition frame_as_into ::
  "msgpack_lib \<Rightarrow> 'v conversion \<Rightarrow> mutable_buffer \<Rightarrow> iproto_frame \<Rightarrow> 'v \<Rightarrow> error_code \<Rightarrow> ('v \<times> error_code) run" where
  "frame_as_into L conv mb fr v ec =
     (if frame_is_error fr then Inr (v, frame_get_error_code fr)
      else run_bind (frame_as L conv mb fr v) (\<lambda>(v', e).
        Inr (v', case e of None \<Rightarrow> ec | Some x \<Rightarrow> caught x)))"

subsection \<open>Definitions: IprotoFraming\<close>

text \<open>The members of \<open>IprotoFraming\<close> are the buffer and the stream below it.\<close>

type_synonym 's framing = "mutable_buffer \<times> 's"

definition transfer_exactly ::
  "'s reader \<Rightarrow> nat \<Rightarrow> 's framing \<Rightarrow> ((error_code \<times> frozen_buffer) \<times> 's framing) run" where
  "transfer_exactly rd bytes st =
     (let (mb, s) = st in
      run_bind (get_ready_buffer mb) (\<lambda>rdy.
        if reg_len rdy \<ge> bytes
        then run_bind (advance_reader bytes mb) (\<lambda>(f, mb'). Inr ((no_error, f), (mb', s)))
        else
          run_bind (prepare bytes mb) (\<lambda>mb1.
          run_bind (get_receive_buffer mb1) (\<lambda>(reg, mb2).
          run_bind (mb_ready mb2) (\<lambda>n.
            let ((ec, data), s') = rd s (size_sub bytes n) (reg_len reg);
                mb3 = store_received reg data mb2
            in if failed ec then Inr ((ec, FrozenBuffer_default), (mb3, s'))
               else run_bind (advance_writer (length data) mb3) (\<lambda>mb4.
                    run_bind (advance_reader bytes mb4) (\<lambda>(f, mb5).
                      Inr ((no_error, f), (mb5, s')))))))))"

text \<open>
  \<open>co_await transfer_exactly(n, deferred)\<close> inside the \<open>try\<close> of \<open>read_message_length\<close>: an error is
  thrown and reported by the handler at the end; otherwise the code goes on with the bytes.
\<close>

definition await_bytes ::
  "'s reader \<Rightarrow> nat \<Rightarrow> 's framing
     \<Rightarrow> (byte list \<Rightarrow> 's framing \<Rightarrow> ((error_code \<times> u32) \<times> 's framing) run)
     \<Rightarrow> ((error_code \<times> u32) \<times> 's framing) run" where
  "await_bytes rd n st k =
     run_bind (transfer_exactly rd n st) (\<lambda>((ec, f), st').
       if failed ec then Inr ((ec, 0), st') else k (frozen_bytes (fst st') f) st')"

text \<open>The end of \<open>read_message_length\<close>: the range check of \<open>result\<close>.\<close>

definition check_length :: "int \<Rightarrow> error_code \<times> u32" where
  "check_length result =
     (if result < 0 \<or> result > 2 ^ 32 - 1 then (errc message_size, 0) else (no_error, word_of_int result))"

definition length_after_tag ::
  "endian_lib \<Rightarrow> 's reader \<Rightarrow> byte \<Rightarrow> 's framing \<Rightarrow> ((error_code \<times> u32) \<times> 's framing) run" where
  "length_after_tag E rd type st =
     (if type AND 0x80 = 0 then Inr ((no_error, ucast (type AND 0x7f)), st)
      else if type = 0xcc then
        await_bytes rd 1 st (\<lambda>buf st. Inr ((no_error, ucast (hd buf)), st))
      else if type = 0xcc then
        await_bytes rd 2 st (\<lambda>buf st. Inr ((no_error, ucast (big_to_native16 E (load16 buf))), st))
      else if type = 0xce then
        await_bytes rd 4 st (\<lambda>buf st. Inr ((no_error, big_to_native32 E (load32 buf)), st))
      else if type = 0xcf then
        await_bytes rd 8 st (\<lambda>buf st. Inr ((no_error, ucast (big_to_native64 E (load64 buf))), st))
      else if type AND 0xe0 = 0xe0 then Inr (check_length (-1), st)
      else if type = 0xd0 then
        await_bytes rd 1 st (\<lambda>buf st. Inr (check_length (sint (hd buf)), st))
      else if type = 0xd1 then
        await_bytes rd 2 st (\<lambda>buf st. Inr (check_length (sint (big_to_native16 E (load16 buf))), st))
      else if type = 0xd2 then
        await_bytes rd 4 st (\<lambda>buf st. Inr (check_length (sint (big_to_native32 E (load32 buf))), st))
      else if type = 0xd3 then
        await_bytes rd 8 st (\<lambda>buf st. Inr (check_length (sint (big_to_native64 E (load64 buf))), st))
      else Inr (check_length 0, st))"

definition read_message_length ::
  "endian_lib \<Rightarrow> 's reader \<Rightarrow> 's framing \<Rightarrow> ((error_code \<times> u32) \<times> 's framing) run" where
  "read_message_length E rd st = await_bytes rd 1 st (\<lambda>buf st. length_after_tag E rd (hd buf) st)"

text \<open>The two \<open>catch\<close> clauses of \<open>receive_message\<close>.\<close>

definition catch_decode :: "exn \<Rightarrow> error_code" where
  "catch_decode e = (if e = Bad_cast then errc illegal_byte_sequence else errc state_not_recoverable)"

definition decode_message ::
  "msgpack_lib \<Rightarrow> mutable_buffer \<Rightarrow> frozen_buffer \<Rightarrow> (error_code \<times> iproto_frame) run" where
  "decode_message L mb msg_body =
     (case mp_unpack L (frozen_bytes mb msg_body) 0 of
        Inl e \<Rightarrow> Inr (catch_decode e, IprotoFrame_default)
      | Inr (obj, offset) \<Rightarrow>
          (case header_convert L obj MessageHeader_default of
             Inl e \<Rightarrow> Inr (catch_decode e, IprotoFrame_default)
           | Inr header \<Rightarrow>
               run_bind (fb_slice msg_body offset size_max) (\<lambda>body.
                 Inr (no_error, \<lparr>m_header = header, m_body = body\<rparr>))))"

definition receive_message ::
  "msgpack_lib \<Rightarrow> endian_lib \<Rightarrow> 's reader \<Rightarrow> 's framing \<Rightarrow> ((error_code \<times> iproto_frame) \<times> 's framing) run" where
  "receive_message L E rd st =
     run_bind (read_message_length E rd st) (\<lambda>((ec, len), st1).
       if failed ec then Inr ((ec, IprotoFrame_default), st1)
       else run_bind (transfer_exactly rd (unat len) st1) (\<lambda>((ec, msg_body), st2).
         if failed ec then Inr ((ec, IprotoFrame_default), st2)
         else run_bind (decode_message L (fst st2) msg_body) (\<lambda>r. Inr (r, st2))))"

definition framing_clear :: "'s framing \<Rightarrow> 's framing" where
  "framing_clear st = (mb_clear (fst st), snd st)"

text \<open>
  What is still to be parsed: the bytes that wait in the buffer and then those the socket will
  deliver. \<open>framing_ok\<close> adds that sizes stay far from overflow.
\<close>

definition pending :: "('s \<Rightarrow> byte list) \<Rightarrow> 's framing \<Rightarrow> byte list" where
  "pending incoming st = ready_data (fst st) @ incoming (snd st)"

definition framing_ok :: "'s framing \<Rightarrow> bool" where
  "framing_ok st \<longleftrightarrow> mb_ok (fst st) \<and> mb_default_length (fst st) < 2 ^ 63"

text \<open>
  The formats MessagePack has for an unsigned integer, of which the size field of a message is one,
  and what fits each of them.
\<close>

datatype uint_format = Fix_uint | Uint8 | Uint16 | Uint32 | Uint64

fun uint_field :: "uint_format \<Rightarrow> nat \<Rightarrow> byte list" where
  "uint_field Fix_uint n = [of_nat n]"
| "uint_field Uint8 n = 0xcc # be_bytes 1 n"
| "uint_field Uint16 n = 0xcd # be_bytes 2 n"
| "uint_field Uint32 n = 0xce # be_bytes 4 n"
| "uint_field Uint64 n = 0xcf # be_bytes 8 n"

fun uint_fits :: "uint_format \<Rightarrow> nat \<Rightarrow> bool" where
  "uint_fits Fix_uint n = (n < 2 ^ 7)"
| "uint_fits Uint8 n = (n < 2 ^ 8)"
| "uint_fits Uint16 n = (n < 2 ^ 16)"
| "uint_fits Uint32 n = (n < 2 ^ 32)"
| "uint_fits Uint64 n = (n < 2 ^ 64)"

text \<open>A message from the server: a size field, a packed header and a body.\<close>

definition server_frame :: "msgpack_lib \<Rightarrow> uint_format \<Rightarrow> mp_object \<Rightarrow> byte list \<Rightarrow> byte list" where
  "server_frame L w hobj body =
     uint_field w (length (mp_pack L hobj @ body)) @ mp_pack L hobj @ body"

definition frame_fits :: "msgpack_lib \<Rightarrow> uint_format \<Rightarrow> mp_object \<Rightarrow> byte list \<Rightarrow> bool" where
  "frame_fits L w hobj body \<longleftrightarrow> w \<noteq> Uint16 \<and> mp_wf hobj
     \<and> uint_fits w (length (mp_pack L hobj @ body)) \<and> length (mp_pack L hobj @ body) < 2 ^ 32"

text \<open>Receiving a number of messages one after the other, up to the first error.\<close>

fun receive_messages ::
  "msgpack_lib \<Rightarrow> endian_lib \<Rightarrow> 's reader \<Rightarrow> nat \<Rightarrow> 's framing \<Rightarrow> (iproto_frame list \<times> 's framing) run" where
  "receive_messages L E rd 0 st = Inr ([], st)"
| "receive_messages L E rd (Suc n) st =
     run_bind (receive_message L E rd st) (\<lambda>((ec, fr), st').
       if failed ec then Inr ([], st')
       else run_bind (receive_messages L E rd n st') (\<lambda>(frs, st''). Inr (fr # frs, st'')))"

text \<open>A reply to evaluate examples with: its header object, the header, and a stream of two replies.\<close>

definition sample_reply :: mp_object where
  "sample_reply = Mp_map [(mp_field F_RequestType, Mp_uint 0), (mp_field F_Sync, Mp_uint 7)]"

definition reply_header :: message_header where
  "reply_header = MessageHeader_default\<lparr>request_type := 0, sync := 7\<rparr>"

definition sample_stream :: "(uint_format \<times> mp_object \<times> message_header \<times> byte list) list" where
  "sample_stream = [(Uint32, sample_reply, reply_header, [0x80]), (Fix_uint, sample_reply, reply_header, [0x81, 1, 2])]"

definition sample_bytes :: "byte list" where
  "sample_bytes = concat (map (\<lambda>(w, hobj, h, body). server_frame msgpack_ref w hobj body) sample_stream) @ [0xce]"

text \<open>A frame with a body to evaluate examples with.\<close>

definition sample_entries :: "(mp_object \<times> mp_object) list" where
  "sample_entries = [(mp_field F_Data, Mp_uint 5), (mp_field F_Error_24, Mp_str [0x65])]"

definition sample_memory :: mutable_buffer where
  "sample_memory = \<lparr>mb_heap = [\<lparr>m_write_pointer = 6, m_read_pointer = 6, m_size = 6,
     m_data = mp_pack msgpack_ref (Mp_map sample_entries)\<rparr>], mb_default_length = 8, mb_buffer = 0\<rparr>"

definition sample_frame :: "u64 \<Rightarrow> iproto_frame" where
  "sample_frame type =
     \<lparr>m_header = MessageHeader_default\<lparr>request_type := type\<rparr>,
      m_body = \<lparr>fb_data = Some (0, 0), fb_size = length (mp_pack msgpack_ref (Mp_map sample_entries)), fb_buf = Some 0\<rparr>\<rparr>"

text \<open>
  A call that neither aborts nor breaks the buffer nor changes what was handed out, and that, when it
  reports no error, has taken bytes off the front of the stream.
\<close>

definition safe_call ::
  "('s \<Rightarrow> byte list) \<Rightarrow> 's framing \<Rightarrow> ((error_code \<times> 'a) \<times> 's framing) run \<Rightarrow> bool" where
  "safe_call incoming st r \<longleftrightarrow> (case r of Inl a \<Rightarrow> False
     | Inr ((ec, x), st') \<Rightarrow> framing_ok st' \<and> keeps_frozen (fst st) (fst st')
         \<and> (\<not> failed ec \<longrightarrow> (\<exists>pre. pending incoming st = pre @ pending incoming st')))"

text \<open>Where \<open>slice\<close> asserts: a message in the stream that is only a header.\<close>

definition header_only_in :: "msgpack_lib \<Rightarrow> byte list \<Rightarrow> bool" where
  "header_only_in L bs \<longleftrightarrow> (\<exists>pre msg rest obj off h. bs = pre @ msg @ rest \<and> mp_unpack L msg 0 = Inr (obj, off)
     \<and> header_convert L obj MessageHeader_default = Inr h \<and> length msg \<le> off)"

subsection \<open>Lemmas: reading from the socket\<close>

lemma chunk_reader_ok: "reader_ok (chunk_reader k) id"
  unfolding reader_ok_def
proof (intro allI impI)
  fix s least most ec data s' assume "chunk_reader k s least most = ((ec, data), s')"
  then show "length data \<le> most \<and> id s = data @ id s' \<and> (\<not> failed ec \<longrightarrow> min least most \<le> length data)"
    by (auto simp: chunk_reader_def min_def max_def split: if_splits)
qed

lemma chunk_reader_live: "reader_live (chunk_reader k) id"
  by (auto simp: reader_live_def chunk_reader_def min_def)

lemma reader_live_read:
  "reader_live rd incoming \<Longrightarrow> min least most \<le> length (incoming s) \<Longrightarrow> \<not> failed (fst (fst (rd s least most)))"
  by (simp add: reader_live_def)

lemma reader_okD:
  assumes "reader_ok rd incoming" "rd s least most = ((ec, data), s')"
  shows "length data \<le> most" "incoming s = data @ incoming s'"
    "\<not> failed ec \<Longrightarrow> min least most \<le> length data"
  using assms unfolding reader_ok_def by blast+

lemma store_received_keeps:
  assumes ok: "mb_ok mb" and len: "length data \<le> room mb"
    and r: "reg_off r = m_write_pointer (current mb)"
  shows "mb_ok (store_received r data mb) \<and> keeps_frozen mb (store_received r data mb)
    \<and> ready_data (store_received r data mb) = ready_data mb
    \<and> mb_default_length (store_received r data mb) = mb_default_length mb"
proof -
  let ?b = "current mb"
  let ?b1 = "?b\<lparr>m_data := overwrite (m_write_pointer ?b) data (m_data ?b)\<rparr>"
  have b: "sb_ok ?b" using ok by (rule current_ok)
  have lt: "mb_buffer mb < length (mb_heap mb)" using ok by (simp add: mb_ok_def)
  have fit: "m_write_pointer ?b + length data \<le> length (m_data ?b)"
    using b len by (auto simp: sb_ok_def room_def)
  have "sb_ok ?b1" using b fit by (simp add: sb_ok_def)
  moreover have "slice_list (m_read_pointer ?b) (m_write_pointer ?b - m_read_pointer ?b) (m_data ?b1)
      = ready_data mb"
    using b fit by (auto simp: ready_data_def sb_ok_def intro!: slice_list_overwrite_before)
  moreover have "keeps_frozen mb (set_current ?b1 mb)"
    using b fit by (intro keeps_frozen_set_current)
      (auto simp: sb_ok_def intro!: slice_list_overwrite_before)
  ultimately show ?thesis
    using ok lt r by (simp add: store_received_def mb_ok_set_current)
qed

text \<open>
  The contract of \<open>transfer_exactly\<close>: it never aborts and keeps what was handed out; without an
  error it delivers the first bytes that are pending and leaves the rest pending; and it only fails
  if the socket does.
\<close>

text \<open>When too few bytes are buffered, the code makes room for the whole piece and reads the rest.\<close>

lemma prepared_for_read:
  assumes mb: "mb_ok mb" and d: "mb_default_length mb < 2 ^ 63" and n: "bytes < 2 ^ 32"
    and few: "\<not> bytes \<le> length (ready_data mb)"
  obtains mb1 where "prepare bytes mb = Inr mb1" "mb_ok mb1" "ready_data mb1 = ready_data mb" "bytes \<le> room mb1"
    "keeps_frozen mb mb1" "mb_default_length mb1 = mb_default_length mb"
    "get_receive_buffer mb1 = Inr (\<lparr>reg_off = m_write_pointer (current mb1), reg_len = room mb1\<rparr>, mb1)"
    "mb_ready mb1 = Inr (length (ready_data mb))"
proof -
  have "length (ready_data mb) + bytes + mb_default_length mb < 2 ^ 64" using n d few by simp
  from prepare_ok [OF mb this] obtain mb1 where p1: "prepare bytes mb = Inr mb1" "mb_ok mb1"
    "ready_data mb1 = ready_data mb" "bytes \<le> room mb1" "keeps_frozen mb mb1"
    "mb_default_length mb1 = mb_default_length mb" by blast
  have "get_receive_buffer mb1 = Inr (\<lparr>reg_off = m_write_pointer (current mb1), reg_len = room mb1\<rparr>, mb1)"
    using get_receive_buffer_ok [OF p1(2)] p1(4) few by simp
  moreover have "mb_ready mb1 = Inr (length (ready_data mb))" using mb_ready_ok [OF p1(2)] p1(3) by simp
  ultimately show thesis using that p1 by blast
qed

lemma transfer_buffered:
  assumes ok: "framing_ok st" and enough: "bytes \<le> length (ready_data (fst st))"
  shows "\<exists>ec f st'. transfer_exactly rd bytes st = Inr ((ec, f), st') \<and> framing_ok st'
    \<and> keeps_frozen (fst st) (fst st')
    \<and> (\<not> failed ec \<longrightarrow> ec = no_error \<and> frozen_ok (fst st') f \<and> fb_size f = bytes
         \<and> bytes \<le> length (pending incoming st)
         \<and> frozen_bytes (fst st') f = take bytes (pending incoming st)
         \<and> pending incoming st' = drop bytes (pending incoming st))
    \<and> (reader_live rd incoming \<and> bytes \<le> length (pending incoming st) \<longrightarrow> \<not> failed ec)"
proof -
  obtain mb s where st: "st = (mb, s)" by force
  have mb: "mb_ok mb" and d: "mb_default_length mb < 2 ^ 63" and e: "bytes \<le> length (ready_data mb)"
    using ok enough by (simp_all add: framing_ok_def st)
  from advance_reader_ok [OF mb e] obtain f mb' where
    "advance_reader bytes mb = Inr (f, mb')" "mb_ok mb'" "ready_data mb' = drop bytes (ready_data mb)"
    "frozen_ok mb' f" "frozen_bytes mb' f = take bytes (ready_data mb)" "fb_size f = bytes"
    "keeps_frozen mb mb'" "mb_default_length mb' = mb_default_length mb" by blast
  with e get_ready_buffer_ok [OF mb] d show ?thesis
    by (simp add: transfer_exactly_def st framing_ok_def pending_def)
qed

text \<open>A live reader does not fail when the missing bytes are to come.\<close>

lemma live_read_succeeds:
  assumes "reader_live rd incoming" "n < bytes" "bytes - n \<le> space" "bytes \<le> n + length (incoming s)"
  shows "\<not> failed (fst (fst (rd s (bytes - n) space)))"
proof -
  have "min (bytes - n) space \<le> length (incoming s)" using assms(2-4) by simp
  with assms(1) show ?thesis unfolding reader_live_def by blast
qed

text \<open>Committing received bytes and taking \<open>n\<close> of those that wait then.\<close>

lemma commit_and_take:
  assumes ok: "mb_ok mb" and len: "length data \<le> room mb" and n: "n \<le> length (ready_data mb @ data)"
  obtains mb1 f mb2 where
    "advance_writer (length data) (store_received \<lparr>reg_off = m_write_pointer (current mb), reg_len = room mb\<rparr> data mb) = Inr mb1"
    "advance_reader n mb1 = Inr (f, mb2)" "mb_ok mb2" "ready_data mb2 = drop n (ready_data mb @ data)" "frozen_ok mb2 f"
    "frozen_bytes mb2 f = take n (ready_data mb @ data)" "fb_size f = n" "keeps_frozen mb mb2"
    "mb_default_length mb2 = mb_default_length mb"
proof -
  let ?r = "\<lparr>reg_off = m_write_pointer (current mb), reg_len = room mb\<rparr>"
  from store_commit_ok [OF ok len, of ?r] obtain mb1 where p: "advance_writer (length data) (store_received ?r data mb) = Inr mb1"
    "mb_ok mb1" "ready_data mb1 = ready_data mb @ data" "keeps_frozen mb mb1" "mb_default_length mb1 = mb_default_length mb" by auto
  from n have "n \<le> length (ready_data mb1)" by (simp add: p(3))
  from advance_reader_ok [OF p(2) this] p that show thesis by (metis keeps_frozen_trans)
qed

lemma transfer_reads:
  assumes rd: "reader_ok rd incoming" and ok: "framing_ok st" and n: "bytes < 2 ^ 32"
    and few: "\<not> bytes \<le> length (ready_data (fst st))"
  shows "\<exists>ec f st'. transfer_exactly rd bytes st = Inr ((ec, f), st') \<and> framing_ok st'
    \<and> keeps_frozen (fst st) (fst st')
    \<and> (\<not> failed ec \<longrightarrow> ec = no_error \<and> frozen_ok (fst st') f \<and> fb_size f = bytes
         \<and> bytes \<le> length (pending incoming st)
         \<and> frozen_bytes (fst st') f = take bytes (pending incoming st)
         \<and> pending incoming st' = drop bytes (pending incoming st))
    \<and> (reader_live rd incoming \<and> bytes \<le> length (pending incoming st) \<longrightarrow> \<not> failed ec)"
proof -
  obtain mb s where st: "st = (mb, s)" by force
  have mb: "mb_ok mb" and d: "mb_default_length mb < 2 ^ 63" and False: "\<not> bytes \<le> length (ready_data mb)"
    using ok few by (simp_all add: framing_ok_def st)
  note rdy = get_ready_buffer_ok [OF mb]
  from prepared_for_read [OF mb d n False] obtain mb1 where p1: "prepare bytes mb = Inr mb1" "mb_ok mb1"
    "ready_data mb1 = ready_data mb" "bytes \<le> room mb1" "keeps_frozen mb mb1" "mb_default_length mb1 = mb_default_length mb"
    "get_receive_buffer mb1 = Inr (\<lparr>reg_off = m_write_pointer (current mb1), reg_len = room mb1\<rparr>, mb1)"
    "mb_ready mb1 = Inr (length (ready_data mb))" .
  let ?r = "\<lparr>reg_off = m_write_pointer (current mb1), reg_len = room mb1\<rparr>"
  let ?least = "bytes - length (ready_data mb)"
  obtain ec data s' where r: "rd s ?least (room mb1) = ((ec, data), s')" by (metis prod.exhaust)
  note rok = reader_okD [OF rd r]
  have least: "min ?least (room mb1) = ?least" using p1(4) False by simp
  show ?thesis
  proof (cases "failed ec")
    case True
    have "transfer_exactly rd bytes st = Inr ((ec, FrozenBuffer_default), (store_received ?r data mb1, s'))"
      using False True by (simp add: transfer_exactly_def st rdy p1(1,7,8) r)
    moreover note store_received_keeps [OF p1(2) rok(1), of ?r]
    moreover have "\<not> (reader_live rd incoming \<and> bytes \<le> length (pending incoming st))"
      using live_read_succeeds [of rd incoming "length (ready_data mb)" bytes "room mb1" s] False le_trans [OF diff_le_self p1(4)] True
      by (auto simp: r pending_def st)
    ultimately show ?thesis
      using True d p1(5,6) by (auto simp: framing_ok_def st intro: keeps_frozen_trans)
  next
    case ok': False
    have en: "bytes \<le> length (ready_data mb1 @ data)" using rok(3) [OF ok'] least p1(3) False by simp
    from commit_and_take [OF p1(2) rok(1) en] obtain mb4 f mb5 where p5:
      "advance_writer (length data) (store_received ?r data mb1) = Inr mb4" "advance_reader bytes mb4 = Inr (f, mb5)" "mb_ok mb5"
      "ready_data mb5 = drop bytes (ready_data mb1 @ data)" "frozen_ok mb5 f"
      "frozen_bytes mb5 f = take bytes (ready_data mb1 @ data)" "fb_size f = bytes" "keeps_frozen mb1 mb5"
      "mb_default_length mb5 = mb_default_length mb1" .
    have eq: "transfer_exactly rd bytes st = Inr ((no_error, f), (mb5, s'))"
      using False ok' by (simp add: transfer_exactly_def st rdy p1(1,7,8) r p5(1,2))
    have pend: "pending incoming st = (ready_data mb1 @ data) @ incoming s'"
      using rok(2) p1(3) by (simp add: pending_def st)
    have "keeps_frozen mb mb5" using p1(5) p5(8) by (rule keeps_frozen_trans)
    then show ?thesis
      using eq p5 p1(6) d en unfolding pend by (simp add: framing_ok_def st pending_def)
  qed
qed

lemma transfer_exactly_spec:
  assumes rd: "reader_ok rd incoming" and ok: "framing_ok st" and n: "bytes < 2 ^ 32"
  shows "\<exists>ec f st'. transfer_exactly rd bytes st = Inr ((ec, f), st') \<and> framing_ok st'
    \<and> keeps_frozen (fst st) (fst st')
    \<and> (\<not> failed ec \<longrightarrow> ec = no_error \<and> frozen_ok (fst st') f \<and> fb_size f = bytes
         \<and> bytes \<le> length (pending incoming st)
         \<and> frozen_bytes (fst st') f = take bytes (pending incoming st)
         \<and> pending incoming st' = drop bytes (pending incoming st))
    \<and> (reader_live rd incoming \<and> bytes \<le> length (pending incoming st) \<longrightarrow> \<not> failed ec)"
  using transfer_buffered [OF ok] transfer_reads [OF assms] by (cases "bytes \<le> length (ready_data (fst st))") blast+

lemma transfer_exactly_live:
  assumes "reader_ok rd incoming" "reader_live rd incoming" "framing_ok st" "length bs < 2 ^ 32"
    and "pending incoming st = bs @ rest"
  shows "\<exists>f st'. transfer_exactly rd (length bs) st = Inr ((no_error, f), st') \<and> framing_ok st'
    \<and> keeps_frozen (fst st) (fst st') \<and> frozen_ok (fst st') f \<and> fb_size f = length bs
    \<and> frozen_bytes (fst st') f = bs \<and> pending incoming st' = rest"
  using transfer_exactly_spec [OF assms(1,3,4)] assms(2,5) by auto

lemma await_bytes_live:
  assumes "reader_ok rd incoming" "reader_live rd incoming" "framing_ok st" "length bs = n" "n < 2 ^ 32"
    and "pending incoming st = bs @ rest"
  shows "\<exists>st'. (\<forall>k. await_bytes rd n st k = k bs st') \<and> framing_ok st'
    \<and> keeps_frozen (fst st) (fst st') \<and> pending incoming st' = rest"
proof -
  from transfer_exactly_live [OF assms(1-3) _ assms(6)] assms(4,5) obtain f st' where
    "transfer_exactly rd n st = Inr ((no_error, f), st')" "framing_ok st'"
    "keeps_frozen (fst st) (fst st')" "frozen_bytes (fst st') f = bs" "pending incoming st' = rest"
    by auto
  then show ?thesis by (intro exI [of _ st']) (simp add: await_bytes_def)
qed

subsection \<open>Lemmas: the size field\<close>

text \<open>The test for a number below 128.\<close>

lemma and_7f_small: "n < 128 \<Longrightarrow> (of_nat n :: byte) AND 0x7f = of_nat n"
proof -
  assume "n < 128"
  then have "take_bit 7 n = n" by (simp add: take_bit_nat_eq_self)
  then have "take_bit 7 (of_nat n :: byte) = of_nat n" by (metis of_nat_take_bit)
  moreover have "(0x7f :: byte) = mask 7" by (simp add: mask_eq_exp_minus_1)
  ultimately show ?thesis by (simp add: take_bit_eq_mask)
qed

lemma and_80_small: "n < 128 \<Longrightarrow> (of_nat n :: byte) AND 0x80 = 0"
proof -
  assume "n < 128"
  have "(of_nat n :: byte) AND 0x80 = ((of_nat n :: byte) AND 0x7f) AND 0x80"
    by (simp only: and_7f_small [OF \<open>n < 128\<close>])
  also have "\<dots> = 0" by (simp add: and.assoc)
  finally show ?thesis .
qed

lemma be_val_1 [simp]: "be_val [b] = unat b"
  by (simp add: be_val_def)

lemma be_bytes_1: "n < 256 \<Longrightarrow> be_bytes (Suc 0) n = [of_nat n]"
  by (simp add: be_bytes_def)

lemma ucast_of_nat_byte: "n < 256 \<Longrightarrow> (ucast (of_nat n :: byte) :: u32) = of_nat n"
proof -
  assume "n < 256"
  then have "unat (of_nat n :: byte) = n" by (simp add: unat_of_nat)
  then show ?thesis by (metis of_nat_unat)
qed

lemma read_message_length_tag:
  assumes "reader_ok rd incoming" "reader_live rd incoming" "framing_ok st"
    and "pending incoming st = t # rest"
  obtains st1 where "framing_ok st1" "keeps_frozen (fst st) (fst st1)" "pending incoming st1 = rest"
    and "read_message_length E rd st = length_after_tag E rd t st1"
  using await_bytes_live [OF assms(1-3), of "[t]" 1 rest] assms(4)
  unfolding read_message_length_def by auto

lemma read_message_length_uint:
  assumes rd: "reader_ok rd incoming" "reader_live rd incoming" and st: "framing_ok st"
    and E: "endian_ok E" and w: "w \<noteq> Uint16" "uint_fits w n" "n < 2 ^ 32"
    and p: "pending incoming st = uint_field w n @ rest"
  shows "\<exists>st'. read_message_length E rd st = Inr ((no_error, of_nat n), st') \<and> framing_ok st'
    \<and> keeps_frozen (fst st) (fst st') \<and> pending incoming st' = rest"
proof -
  from p obtain t more where tm: "uint_field w n = t # more" "pending incoming st = t # more @ rest"
    by (cases w) auto
  from read_message_length_tag [OF rd st tm(2), of E] obtain st1 where
    st1: "framing_ok st1" "keeps_frozen (fst st) (fst st1)" "pending incoming st1 = more @ rest"
    and rml: "read_message_length E rd st = length_after_tag E rd t st1" .
  note more_read = await_bytes_live [OF rd st1(1) _ _ st1(3)]
  show ?thesis
  proof (cases w)
    case Fix_uint
    with tm w have "t = of_nat n" "more = []" "n < 128" by auto
    then show ?thesis using st1 rml by (auto simp: length_after_tag_def and_80_small and_7f_small ucast_of_nat_byte)
  next
    case Uint8
    with tm w have "t = 0xcc" "more = [of_nat n]" "n < 256" by (auto simp: be_bytes_1)
    with more_read [of 1] show ?thesis using st1(2) rml
      by (auto simp: length_after_tag_def ucast_of_nat_byte intro: keeps_frozen_trans)
  next
    case Uint32
    with tm w have t: "t = 0xce" "more = be_bytes 4 n" by auto
    have "unat (big_to_native32 E (load32 (be_bytes 4 n))) = n"
      using endian_load(2) [OF E, of "be_bytes 4 n"] w(3) by (simp add: be_val_be_bytes)
    then have "big_to_native32 E (load32 (be_bytes 4 n)) = of_nat n"
      by (metis of_nat_unat ucast_id)
    with t more_read [of 4] show ?thesis using st1(2) rml
      by (auto simp: length_after_tag_def intro: keeps_frozen_trans)
  next
    case Uint64
    with tm w have t: "t = 0xcf" "more = be_bytes 8 n" by auto
    have "unat (big_to_native64 E (load64 (be_bytes 8 n))) = n"
      using endian_load(3) [OF E, of "be_bytes 8 n"] w(3)
      by (simp add: be_val_be_bytes unat_of_nat)
    then have "ucast (big_to_native64 E (load64 (be_bytes 8 n))) = (of_nat n :: u32)"
      by (metis of_nat_unat)
    with t more_read [of 8] show ?thesis using st1(2) rml
      by (auto simp: length_after_tag_def intro: keeps_frozen_trans)
  qed (use w in simp)
qed

text \<open>Tags that no branch tests: the length is zero and nothing more is read.\<close>

lemma read_message_length_other_tag:
  assumes rd: "reader_ok rd incoming" "reader_live rd incoming" and st: "framing_ok st"
    and p: "pending incoming st = t # rest" and t: "t AND 0x80 \<noteq> 0" "t AND 0xe0 \<noteq> 0xe0"
      "t \<notin> {0xcc, 0xce, 0xcf, 0xd0, 0xd1, 0xd2, 0xd3}"
  shows "\<exists>st'. read_message_length E rd st = Inr ((no_error, 0), st') \<and> framing_ok st'
    \<and> keeps_frozen (fst st) (fst st') \<and> pending incoming st' = rest"
proof -
  from read_message_length_tag [OF rd st p, of E] obtain st1 where "framing_ok st1"
    "keeps_frozen (fst st) (fst st1)" "pending incoming st1 = rest"
    "read_message_length E rd st = length_after_tag E rd t st1" .
  then show ?thesis using t by (intro exI [of _ st1]) (simp add: length_after_tag_def check_length_def)
qed

subsection \<open>Lemmas: whole messages\<close>

lemma fb_slice_rest:
  assumes "frozen_ok mb f" "off < fb_size f"
  shows "\<exists>g. fb_slice f off size_max = Inr g \<and> frozen_ok mb g \<and> frozen_bytes mb g = drop off (frozen_bytes mb f)"
  using assms
  by (auto simp: fb_slice_def frozen_ok_def frozen_bytes_def drop_slice_list split: option.splits)

lemma decode_message_ok:
  assumes L: "msgpack_ok L" "mp_wf hobj" and h: "header_convert L hobj MessageHeader_default = Inr h"
    and f: "frozen_ok mb f" "frozen_bytes mb f = mp_pack L hobj @ body"
      "fb_size f = length (mp_pack L hobj @ body)" and b: "body \<noteq> []"
  shows "\<exists>fr. decode_message L mb f = Inr (no_error, fr) \<and> m_header fr = h
    \<and> frozen_ok mb (m_body fr) \<and> frame_body_bytes mb fr = body"
  using fb_slice_rest [OF f(1), of "length (mp_pack L hobj)"] f(2,3) b h
  by (auto simp: decode_message_def msgpack_unpack [OF L])

lemma receive_message_ok:
  assumes rd: "reader_ok rd incoming" "reader_live rd incoming" and st: "framing_ok st"
    and L: "msgpack_ok L" and E: "endian_ok E" and fits: "frame_fits L w hobj body"
    and h: "header_convert L hobj MessageHeader_default = Inr h" and b: "body \<noteq> []"
    and p: "pending incoming st = server_frame L w hobj body @ rest"
  shows "\<exists>fr st'. receive_message L E rd st = Inr ((no_error, fr), st') \<and> framing_ok st'
    \<and> keeps_frozen (fst st) (fst st') \<and> pending incoming st' = rest
    \<and> m_header fr = h \<and> frozen_ok (fst st') (m_body fr) \<and> frame_body_bytes (fst st') fr = body"
proof -
  let ?msg = "mp_pack L hobj @ body"
  have wf: "mp_wf hobj" "w \<noteq> Uint16" "uint_fits w (length ?msg)" "length ?msg < 2 ^ 32"
    using fits by (simp_all add: frame_fits_def)
  have p': "pending incoming st = uint_field w (length ?msg) @ (?msg @ rest)"
    using p by (simp add: server_frame_def)
  from read_message_length_uint [OF rd st E wf(2-4) p'] obtain st1 where
    st1: "read_message_length E rd st = Inr ((no_error, of_nat (length ?msg)), st1)" "framing_ok st1"
      "keeps_frozen (fst st) (fst st1)" "pending incoming st1 = ?msg @ rest" by blast
  have len: "unat (of_nat (length ?msg) :: u32) = length ?msg"
    using wf(4) by (simp only: unat_of_nat) simp
  from transfer_exactly_live [OF rd st1(2) wf(4) st1(4)] obtain f st2 where
    st2: "transfer_exactly rd (length ?msg) st1 = Inr ((no_error, f), st2)" "framing_ok st2"
      "keeps_frozen (fst st1) (fst st2)" "frozen_ok (fst st2) f" "fb_size f = length ?msg"
      "frozen_bytes (fst st2) f = ?msg" "pending incoming st2 = rest" by blast
  from decode_message_ok [OF L wf(1) h st2(4,6,5) b] obtain fr where
    fr: "decode_message L (fst st2) f = Inr (no_error, fr)" "m_header fr = h"
      "frozen_ok (fst st2) (m_body fr)" "frame_body_bytes (fst st2) fr = body" by blast
  have "receive_message L E rd st = Inr ((no_error, fr), st2)"
    by (simp add: receive_message_def st1(1) len st2(1) fr(1) del: length_append run_bind_Inr)
  moreover have "keeps_frozen (fst st) (fst st2)" using st1(3) st2(3) by (rule keeps_frozen_trans)
  ultimately show ?thesis using st2 fr by blast
qed

lemma receive_messages_ok:
  assumes rd: "reader_ok rd incoming" "reader_live rd incoming" and L: "msgpack_ok L" and E: "endian_ok E"
  shows "framing_ok st \<Longrightarrow> \<forall>(w, hobj, h, body) \<in> set msgs. frame_fits L w hobj body \<and> body \<noteq> []
      \<and> header_convert L hobj MessageHeader_default = Inr h \<Longrightarrow>
    pending incoming st = concat (map (\<lambda>(w, hobj, h, body). server_frame L w hobj body) msgs) @ rest \<Longrightarrow>
    \<exists>frs st'. receive_messages L E rd (length msgs) st = Inr (frs, st') \<and> framing_ok st'
      \<and> keeps_frozen (fst st) (fst st') \<and> pending incoming st' = rest
      \<and> list_all (\<lambda>fr. frozen_ok (fst st') (m_body fr)) frs
      \<and> map (\<lambda>fr. (m_header fr, frame_body_bytes (fst st') fr)) frs = map (\<lambda>(w, hobj, h_body). h_body) msgs"
proof (induction msgs arbitrary: st)
  case Nil
  then show ?case by simp
next
  case (Cons m msgs)
  obtain w hobj h body where m: "m = (w, hobj, h, body)" by (metis prod.exhaust)
  let ?rest = "concat (map (\<lambda>(w, hobj, h, body). server_frame L w hobj body) msgs) @ rest"
  from receive_message_ok [OF rd Cons.prems(1) L E, of w hobj body h ?rest] Cons.prems(2,3)
  obtain fr st1 where r1: "receive_message L E rd st = Inr ((no_error, fr), st1)" "framing_ok st1"
    "keeps_frozen (fst st) (fst st1)" "pending incoming st1 = ?rest" "m_header fr = h"
    "frozen_ok (fst st1) (m_body fr)" "frame_body_bytes (fst st1) fr = body"
    by (auto simp: m)
  have "\<forall>(w, hobj, h, body) \<in> set msgs. frame_fits L w hobj body \<and> body \<noteq> []
      \<and> header_convert L hobj MessageHeader_default = Inr h" using Cons.prems(2) by simp
  from Cons.IH [OF r1(2) this r1(4)] obtain frs st2 where
    r2: "receive_messages L E rd (length msgs) st1 = Inr (frs, st2)" "framing_ok st2"
      "keeps_frozen (fst st1) (fst st2)" "pending incoming st2 = rest"
      "list_all (\<lambda>fr. frozen_ok (fst st2) (m_body fr)) frs"
      "map (\<lambda>fr. (m_header fr, frame_body_bytes (fst st2) fr)) frs = map (\<lambda>(w, hobj, h_body). h_body) msgs"
    by blast
  have "frozen_ok (fst st2) (m_body fr)" "frame_body_bytes (fst st2) fr = body"
    using r2(3) r1(6,7) by (simp_all add: keeps_frozen_def)
  moreover have "receive_messages L E rd (length (m # msgs)) st = Inr (fr # frs, st2)"
    by (simp add: r1(1) r2(1) del: run_bind_Inr)
  moreover have "keeps_frozen (fst st) (fst st2)" using r1(3) r2(3) by (rule keeps_frozen_trans)
  ultimately show ?case using r2 r1(5) by (intro exI [of _ "fr # frs"] exI [of _ st2]) (simp add: m)
qed

lemma transfer_exactly_safe:
  assumes "reader_ok rd incoming" "framing_ok st" "n < 2 ^ 32"
  shows "safe_call incoming st (transfer_exactly rd n st)"
  using transfer_exactly_spec [OF assms] by (auto simp: safe_call_def intro!: exI append_take_drop_id [symmetric])

lemma safe_call_here: "framing_ok st \<Longrightarrow> safe_call incoming st (Inr ((ec, x), st))"
  by (simp add: safe_call_def)

lemma safe_callE:
  assumes "safe_call incoming st r"
  obtains ec x st' where "r = Inr ((ec, x), st')" "framing_ok st'" "keeps_frozen (fst st) (fst st')"
    "\<not> failed ec \<longrightarrow> (\<exists>pre. pending incoming st = pre @ pending incoming st')"
  using assms by (auto simp: safe_call_def split: sum.splits)

text \<open>Calls in sequence: an error of the first one is passed on.\<close>

lemma safe_call_bind:
  assumes m: "safe_call incoming st m"
    and k: "\<And>x st'. framing_ok st' \<Longrightarrow> safe_call incoming st' (k x st')"
    and r: "\<And>ec x st'. m = Inr ((ec, x), st') \<Longrightarrow> r = (if failed ec then Inr ((ec, d), st') else k x st')"
  shows "safe_call incoming st r"
proof -
  from m obtain ec x st1 where m': "m = Inr ((ec, x), st1)" "framing_ok st1" "keeps_frozen (fst st) (fst st1)"
    "\<not> failed ec \<longrightarrow> (\<exists>pre. pending incoming st = pre @ pending incoming st1)" by (rule safe_callE)
  show ?thesis
  proof (cases "failed ec")
    case True
    then show ?thesis using m' r [OF m'(1)] by (simp add: safe_call_def)
  next
    case False
    from k [OF m'(2), of x] obtain ec2 y st2 where k': "k x st1 = Inr ((ec2, y), st2)" "framing_ok st2"
      "keeps_frozen (fst st1) (fst st2)" "\<not> failed ec2 \<longrightarrow> (\<exists>pre. pending incoming st1 = pre @ pending incoming st2)"
      by (rule safe_callE)
    from m'(4) False obtain pre where "pending incoming st = pre @ pending incoming st1" by blast
    then have "\<not> failed ec2 \<longrightarrow> (\<exists>pre. pending incoming st = pre @ pending incoming st2)"
      using k'(4) by (metis append.assoc)
    moreover have "keeps_frozen (fst st) (fst st2)" using m'(3) k'(3) by (rule keeps_frozen_trans)
    ultimately show ?thesis using False k' r [OF m'(1)] by (simp add: safe_call_def)
  qed
qed

lemma await_bytes_safe:
  assumes rd: "reader_ok rd incoming" and st: "framing_ok st" and n: "n < 2 ^ 32"
    and k: "\<And>bs st'. framing_ok st' \<Longrightarrow> safe_call incoming st' (k bs st')"
  shows "safe_call incoming st (await_bytes rd n st k)"
  using transfer_exactly_safe [OF rd st n]
proof (rule safe_call_bind [where k = "\<lambda>f st'. k (frozen_bytes (fst st') f) st'"])
  show "framing_ok st' \<Longrightarrow> safe_call incoming st' (k (frozen_bytes (fst st') f) st')" for f st'
    by (rule k)
qed (simp add: await_bytes_def del: run_bind_Inr)

lemma read_message_length_safe:
  assumes rd: "reader_ok rd incoming" and st: "framing_ok st"
  shows "safe_call incoming st (read_message_length E rd st)"
  unfolding read_message_length_def length_after_tag_def check_length_def
  by (intro await_bytes_safe [OF rd] st) (auto intro!: await_bytes_safe [OF rd] safe_call_here)

text \<open>The loops over the entries of a body whose keys are all unsigned integers.\<close>

lemma as_entries_eq:
  "\<forall>(k, x) \<in> set kvs. \<exists>n. k = Mp_uint n \<Longrightarrow>
     as_entries conv kvs v = (case map_of kvs (mp_field F_Data) of
       None \<Rightarrow> Inl Assertion_failed | Some x \<Rightarrow> Inr (conv x v))"
  by (induction conv kvs v rule: as_entries.induct) (auto simp: int_to_field_type_Some)

lemma error_string_entries_eq:
  "\<forall>(k, v) \<in> set kvs. \<exists>n. k = Mp_uint n \<Longrightarrow>
     error_string_entries L kvs = (case map_of kvs (mp_field F_Error_24) of
       None \<Rightarrow> Inr []
     | Some v \<Rightarrow> (case mp_as_string L v of Inl e \<Rightarrow> Inl Terminate | Inr s \<Rightarrow> Inr s))"
  by (induction kvs rule: error_string_entries.induct [of _ L]) (auto simp: int_to_field_type_Some)

lemma sample_reply_convert: "header_convert msgpack_ref sample_reply MessageHeader_default = Inr reply_header"
  by (simp add: sample_reply_def reply_header_def header_convert_def header_setter_def
      msgpack_convert [OF msgpack_ref_ok])

lemma sample_reply_fits: "length body \<le> 8 \<Longrightarrow> w \<noteq> Uint16 \<Longrightarrow> frame_fits msgpack_ref w sample_reply body"
  by (cases w) (simp_all add: frame_fits_def sample_reply_def msgpack_ref_def head_bytes_def field_type_val.simps)

lemma sample_stream_ok: "\<forall>(w, hobj, h, body) \<in> set sample_stream. frame_fits msgpack_ref w hobj body \<and> body \<noteq> []
    \<and> header_convert msgpack_ref hobj MessageHeader_default = Inr h"
  by (simp add: sample_stream_def sample_reply_convert sample_reply_fits)

lemma sample_framing_ok: "n < 2 ^ 63 \<Longrightarrow> framing_ok (MutableBuffer_init n, bs)"
  by (simp add: framing_ok_def mb_ok_init MutableBuffer_init_def) (simp add: mb_ok_def sb_ok_init)

lemma sample_framing_pending: "pending id (MutableBuffer_init n, bs) = bs"
  by (simp add: pending_def ready_data_def MutableBuffer_init_def SharedBuffer_init_def slice_list_def)

lemma receive_message_safe_or_header_only:
  assumes rd: "reader_ok rd incoming" and st: "framing_ok st"
  shows "safe_call incoming st (receive_message L E rd st) \<or>
    (receive_message L E rd st = Inl Assertion_failed \<and> header_only_in L (pending incoming st))"
proof -
  from read_message_length_safe [OF rd st, of E] obtain ec len st1 where
    r1: "read_message_length E rd st = Inr ((ec, len), st1)" "framing_ok st1" "keeps_frozen (fst st) (fst st1)"
    "\<not> failed ec \<longrightarrow> (\<exists>pre. pending incoming st = pre @ pending incoming st1)" by (rule safe_callE)
  have "unat len < 2 ^ 32" using unsigned_less [of len, where ?'a = nat] by simp
  from transfer_exactly_spec [OF rd r1(2) this] obtain ec2 f st2 where
    t2: "transfer_exactly rd (unat len) st1 = Inr ((ec2, f), st2)" "framing_ok st2" "keeps_frozen (fst st1) (fst st2)"
      and f2: "\<not> failed ec2 \<Longrightarrow> frozen_bytes (fst st2) f = take (unat len) (pending incoming st1)
        \<and> pending incoming st2 = drop (unat len) (pending incoming st1)
        \<and> length (frozen_bytes (fst st2) f) = fb_size f" by auto
  have k: "keeps_frozen (fst st) (fst st2)" using r1(3) t2(3) by (rule keeps_frozen_trans)
  show ?thesis
  proof (cases "failed ec \<or> failed ec2")
    case True
    then have "safe_call incoming st (receive_message L E rd st)"
      using r1 t2 k by (auto simp: receive_message_def safe_call_def simp del: run_bind_Inr)
    then show ?thesis ..
  next
    case False
    then have eq: "receive_message L E rd st = run_bind (decode_message L (fst st2) f) (\<lambda>r. Inr (r, st2))"
      using r1 t2 by (simp add: receive_message_def del: run_bind_Inr)
    from False r1(4) obtain pre where "pending incoming st = pre @ pending incoming st1" by blast
    then have p: "pending incoming st = pre @ frozen_bytes (fst st2) f @ pending incoming st2"
      using False f2 by simp
    then have pre: "\<exists>pre. pending incoming st = pre @ pending incoming st2"
      by (metis append.assoc)
    show ?thesis
    proof (cases "decode_message L (fst st2) f")
      case (Inr x)
      then show ?thesis using eq k t2(2) pre by (cases x) (simp add: safe_call_def del: run_bind_Inr)
    next
      case (Inl a)
      then obtain obj off h where u: "mp_unpack L (frozen_bytes (fst st2) f) 0 = Inr (obj, off)"
        "header_convert L obj MessageHeader_default = Inr h" "fb_slice f off size_max = Inl a"
        by (auto simp: decode_message_def run_bind_Inl split: sum.splits)
      then have "fb_size f \<le> off" "a = Assertion_failed"
        by (auto simp: fb_slice_def assert_run_def Let_def split: if_splits)
      then have "header_only_in L (pending incoming st)"
        unfolding header_only_in_def using p u(1,2) f2 False by metis
      then show ?thesis using eq Inl \<open>a = _\<close> by (simp del: run_bind_Inr)
    qed
  qed
qed

lemma header_only_message_aborts:
  assumes rd: "reader_ok rd incoming" "reader_live rd incoming" and st: "framing_ok st"
    and L: "msgpack_ok L" and E: "endian_ok E" and fits: "frame_fits L w hobj []"
    and h: "header_convert L hobj MessageHeader_default = Inr h"
    and p: "pending incoming st = server_frame L w hobj [] @ rest"
  shows "receive_message L E rd st = Inl Assertion_failed"
proof -
  let ?msg = "mp_pack L hobj"
  have wf: "mp_wf hobj" "w \<noteq> Uint16" "uint_fits w (length ?msg)" "length ?msg < 2 ^ 32"
    using fits by (simp_all add: frame_fits_def)
  have "pending incoming st = uint_field w (length ?msg) @ (?msg @ rest)"
    using p by (simp add: server_frame_def)
  from read_message_length_uint [OF rd st E wf(2-4) this] obtain st1 where
    st1: "read_message_length E rd st = Inr ((no_error, of_nat (length ?msg)), st1)" "framing_ok st1"
      "pending incoming st1 = ?msg @ rest" by blast
  have len: "unat (of_nat (length ?msg) :: u32) = length ?msg"
    using wf(4) by (simp only: unat_of_nat) simp
  from transfer_exactly_live [OF rd st1(2) wf(4) st1(3)] obtain f st2 where
    "transfer_exactly rd (length ?msg) st1 = Inr ((no_error, f), st2)" "fb_size f = length ?msg"
      "frozen_bytes (fst st2) f = ?msg" by blast
  then show ?thesis
    using msgpack_unpack [OF L wf(1), of "[]"]
    by (simp add: receive_message_def st1(1) len decode_message_def h fb_slice_def del: run_bind_Inr)
qed

lemma frame_as_eq:
  assumes "msgpack_ok L" "mp_wf (Mp_map kvs)" "\<forall>(k, v) \<in> set kvs. \<exists>n. k = Mp_uint n"
    and "frame_body_bytes mb fr = mp_pack L (Mp_map kvs)"
  shows "frame_as L conv mb fr v =
      (if frame_is_error fr then Inr (v, Some (System_error (frame_get_error_code fr)))
       else case map_of kvs (mp_field F_Data) of None \<Rightarrow> Inl Assertion_failed | Some x \<Rightarrow> Inr (conv x v))"
  using msgpack_unpack [OF assms(1,2), of "[]"] assms(4)
  by (simp add: frame_as_def as_entries_eq [OF assms(3)])

lemma uint16_message_fails:
  assumes "reader_ok rd incoming" "reader_live rd incoming" "framing_ok st" "msgpack_ok L"
    and "pending incoming st = uint_field Uint16 n @ rest"
  shows "\<exists>st'. receive_message L E rd st = Inr ((errc state_not_recoverable, IprotoFrame_default), st')
    \<and> pending incoming st' = be_bytes 2 n @ rest"
proof -
  have p: "pending incoming st = 0xcd # be_bytes 2 n @ rest" using assms(5) by simp
  from read_message_length_other_tag [OF assms(1-3) p, of E] obtain st1 where
    st1: "read_message_length E rd st = Inr ((no_error, 0), st1)" "framing_ok st1"
      "pending incoming st1 = [] @ be_bytes 2 n @ rest" by auto
  from transfer_exactly_live [OF assms(1,2) st1(2) _ st1(3)] obtain f st2 where
    "transfer_exactly rd 0 st1 = Inr ((no_error, f), st2)" "frozen_bytes (fst st2) f = []"
    "pending incoming st2 = be_bytes 2 n @ rest" by auto
  then show ?thesis using st1(1)
    by (simp add: receive_message_def decode_message_def catch_decode_def
        msgpack_unpack_Nil [OF assms(4)] del: run_bind_Inr)
qed

lemma le_bytes_8_513: "le_bytes 8 513 = [1, 2, 0, 0, 0, 0, 0, 0]"
proof -
  have eight: "(8 :: nat) = Suc (Suc (Suc (Suc (Suc (Suc (Suc (Suc 0)))))))" by simp
  show ?thesis unfolding eight by simp
qed

lemma sample_frame_body: "frame_body_bytes sample_memory (sample_frame ty) = mp_pack msgpack_ref (Mp_map sample_entries)"
  by (simp add: sample_frame_def sample_memory_def frozen_bytes_def slice_list_def)

subsection \<open>Properties\<close>

text \<open>
  C1: framing is independent of how the stream is cut into reads. If the bytes to come are the
  frames of a list of messages (size fields in any unsigned format but the 16-bit one) and then
  \<open>rest\<close>, receiving as many messages gives their headers and bodies in order, whatever the chunks
  in which the socket delivers them; exactly \<open>rest\<close> is left; and all the bodies handed out are
  still intact after the last read.
\<close>

theorem receive_messages_in_order:
  assumes "reader_ok rd incoming" "reader_live rd incoming" "msgpack_ok L" "endian_ok E" "framing_ok st"
    and "\<forall>(w, hobj, h, body) \<in> set msgs. frame_fits L w hobj body \<and> body \<noteq> []
      \<and> header_convert L hobj MessageHeader_default = Inr h"
    and "pending incoming st = concat (map (\<lambda>(w, hobj, h, body). server_frame L w hobj body) msgs) @ rest"
  shows "\<exists>frs st'. receive_messages L E rd (length msgs) st = Inr (frs, st')
    \<and> map (\<lambda>fr. (m_header fr, frame_body_bytes (fst st') fr)) frs = map (\<lambda>(w, hobj, h_body). h_body) msgs
    \<and> pending incoming st' = rest"
  using receive_messages_ok [OF assms] by blast

theorem receive_messages_in_order_witness:
  "\<exists>frs st'. receive_messages msgpack_ref endian_ref (chunk_reader 3) (length sample_stream)
      (MutableBuffer_init 4, sample_bytes) = Inr (frs, st')
    \<and> map (\<lambda>fr. (m_header fr, frame_body_bytes (fst st') fr)) frs = [(reply_header, [0x80]), (reply_header, [0x81, 1, 2])]
    \<and> pending id st' = [0xce]"
  using receive_messages_in_order [OF chunk_reader_ok chunk_reader_live msgpack_ref_ok endian_ref_ok
      sample_framing_ok sample_stream_ok, of 4 sample_bytes "[0xce]" 3]
  by (simp add: sample_framing_pending) (simp add: sample_bytes_def sample_stream_def)

text \<open>
  C32: a 16-bit size field is not understood. The branch for the tag \<open>0xcd\<close> tests for \<open>0xcc\<close> a second
  time, so such a message is taken to be empty: it fails with \<open>state_not_recoverable\<close>, and the two bytes
  of its length stay in front of the stream, to be read as the next message.
\<close>

theorem uint16_size_field_is_lost:
  assumes "reader_ok rd incoming" "reader_live rd incoming" "framing_ok st" "msgpack_ok L"
    and "pending incoming st = uint_field Uint16 n @ rest"
  shows "\<exists>st'. receive_message L E rd st = Inr ((errc state_not_recoverable, IprotoFrame_default), st')
    \<and> pending incoming st' = be_bytes 2 n @ rest"
  using assms by (rule uint16_message_fails)

theorem uint16_size_field_is_lost_witness:
  "\<exists>st'. receive_message msgpack_ref endian_ref (chunk_reader 1) (MutableBuffer_init 8, uint_field Uint16 300 @ [0x80])
      = Inr ((errc state_not_recoverable, IprotoFrame_default), st')
    \<and> pending id st' = be_bytes 2 300 @ [0x80]"
  by (rule uint16_size_field_is_lost [OF chunk_reader_ok chunk_reader_live sample_framing_ok msgpack_ref_ok
      sample_framing_pending]) simp

text \<open>
  C30: receiving is safe on any input. Whatever bytes arrive and however the socket fails, the call
  completes, keeps the buffer consistent and leaves the bytes of earlier frames alone; the only way it
  can abort is the assertion of \<open>slice\<close>, when the header uses up the whole message.
\<close>

theorem receive_message_is_safe:
  assumes "reader_ok rd incoming" "framing_ok st"
  shows "safe_call incoming st (receive_message L E rd st) \<or>
    (receive_message L E rd st = Inl Assertion_failed \<and> header_only_in L (pending incoming st))"
  using assms by (rule receive_message_safe_or_header_only)

theorem receive_message_is_safe_witness:
  "safe_call id (MutableBuffer_init 8, [0xd0, 0x85]) (receive_message msgpack_ref endian_ref (chunk_reader 1) (MutableBuffer_init 8, [0xd0, 0x85]))
   \<or> (receive_message msgpack_ref endian_ref (chunk_reader 1) (MutableBuffer_init 8, [0xd0, 0x85]) = Inl Assertion_failed
     \<and> header_only_in msgpack_ref (pending id (MutableBuffer_init 8, [0xd0, 0x85])))"
  by (rule receive_message_is_safe [OF chunk_reader_ok sample_framing_ok]) simp

text \<open>
  C40: the greeting. However the reads cut the stream, of the 128 bytes the server sends first the salt is the
  second line; if one of the lines does not end in a line feed the greeting is refused with
  \<open>bad_message\<close>; nothing after the greeting is consumed.
\<close>

theorem hello_salt:
  assumes "reader_ok rd incoming" "reader_live rd incoming"
    and "incoming s = line1 @ line2 @ rest" "length line1 = 64" "length line2 = 64"
  shows "\<exists>s'. read_tarantool_hello rd s =
      (if last line1 = 0x0a \<and> last line2 = 0x0a then (no_error, line2) else (errc bad_message, []), s')
    \<and> incoming s' = rest"
proof -
  obtain ec data s' where r: "rd s 128 128 = ((ec, data), s')" by (metis prod.exhaust)
  have "\<not> failed (fst (fst (rd s 128 128)))"
    using assms(2) by (rule reader_live_read) (simp add: assms(3-5))
  then have "\<not> failed ec" by (simp add: r)
  moreover from this reader_okD [OF assms(1) r] have len: "length data = 128" "incoming s = data @ incoming s'"
    by simp_all
  then have data: "data = line1 @ line2" "incoming s' = rest"
    using assms(3-5) append_eq_append_conv [of data "line1 @ line2" "incoming s'" rest] by simp_all
  moreover have "line1 \<noteq> []" "line2 \<noteq> []" using assms(4,5) by auto
  then have "(line1 @ line2) ! 63 = last line1" "(line1 @ line2) ! 127 = last line2"
    using assms(4,5) last_conv_nth [of line1] last_conv_nth [of line2] by (auto simp: nth_append)
  ultimately show ?thesis using assms(4,5) r
    by (auto simp: read_tarantool_hello_def Let_def overwrite_def slice_list_def)
qed

theorem hello_salt_witness:
  "\<exists>s'. read_tarantool_hello (chunk_reader 5) (replicate 63 0x54 @ [0x0a] @ replicate 63 0x41 @ [0x0a] @ [0xce])
      = ((no_error, replicate 63 0x41 @ [0x0a]), s') \<and> s' = [0xce]"
  using hello_salt [OF chunk_reader_ok [of 5] chunk_reader_live, of "replicate 63 0x54 @ [0x0a] @ replicate 63 0x41 @ [0x0a] @ [0xce]"
      "replicate 63 0x54 @ [0x0a]" "replicate 63 0x41 @ [0x0a]" "[0xce]"]
  by simp

text \<open>
  C36: reading the body of a frame. For a body that is a packed map with integer keys, \<open>as(v)\<close> of a
  successful response converts exactly the value of the \<open>Data\<close> key into \<open>v\<close> and asserts that there is one; a
  frame that is an error throws its error code without looking at the body and leaves \<open>v\<close> alone. \<open>as()\<close> does
  the same with a default-constructed tuple. The variants with an
  error code turn exceptions into codes and agree when nothing is thrown; after a failed
  conversion \<open>as(ec)\<close> returns the default tuple, but \<open>as(v, ec)\<close> leaves whatever was converted in \<open>v\<close>.
\<close>

theorem frame_as_reads_data:
  assumes "msgpack_ok L" "mp_wf (Mp_map kvs)" "\<forall>(k, v) \<in> set kvs. \<exists>n. k = Mp_uint n"
    and "frame_body_bytes mb fr = mp_pack L (Mp_map kvs)"
  shows "frame_as L conv mb fr v =
      (if frame_is_error fr then Inr (v, Some (System_error (frame_get_error_code fr)))
       else case map_of kvs (mp_field F_Data) of None \<Rightarrow> Inl Assertion_failed | Some x \<Rightarrow> Inr (conv x v))
    \<and> frame_as_value L conv dflt mb fr =
      (if frame_is_error fr then Inr (Inl (System_error (frame_get_error_code fr)))
       else case map_of kvs (mp_field F_Data) of None \<Rightarrow> Inl Assertion_failed
         | Some x \<Rightarrow> Inr (case conv x dflt of (v', None) \<Rightarrow> Inr v' | (_, Some e) \<Rightarrow> Inl e))
    \<and> frame_as_ec L conv dflt mb fr ec =
      (if frame_is_error fr then Inr (dflt, frame_get_error_code fr)
       else case map_of kvs (mp_field F_Data) of None \<Rightarrow> Inl Assertion_failed
         | Some x \<Rightarrow> Inr (case conv x dflt of (v', None) \<Rightarrow> (v', ec) | (_, Some e) \<Rightarrow> (dflt, caught e)))
    \<and> frame_as_into L conv mb fr v ec =
      (if frame_is_error fr then Inr (v, frame_get_error_code fr)
       else case map_of kvs (mp_field F_Data) of None \<Rightarrow> Inl Assertion_failed
         | Some x \<Rightarrow> Inr (case conv x v of (v', None) \<Rightarrow> (v', ec) | (v', Some e) \<Rightarrow> (v', caught e)))"
  by (simp add: frame_as_eq [OF assms] frame_as_value_def frame_as_ec_def frame_as_into_def
      del: run_bind_Inr split: option.split prod.split)

definition sample_conversion :: "u64 conversion" where
  "sample_conversion obj v = (case mp_convert_u64 msgpack_ref obj of Inr n \<Rightarrow> (n, None) | Inl e \<Rightarrow> (v, Some e))"

theorem frame_as_reads_data_witness:
  "frame_as msgpack_ref sample_conversion sample_memory (sample_frame 0) 8 = Inr (5, None)
   \<and> frame_as_value msgpack_ref sample_conversion 0 sample_memory (sample_frame 0) = Inr (Inr 5)
   \<and> frame_as_ec msgpack_ref sample_conversion 0 sample_memory (sample_frame 0) no_error = Inr (5, no_error)
   \<and> frame_as_into msgpack_ref sample_conversion sample_memory (sample_frame 0) 8 no_error = Inr (5, no_error)"
  using frame_as_reads_data [OF msgpack_ref_ok _ _ sample_frame_body [of 0], where conv = sample_conversion and dflt = 0
      and v = 8 and ec = no_error]
  by (simp add: sample_conversion_def sample_entries_def sample_frame_def frame_is_error_def header_is_error_def
      is_error_req_type_def msgpack_convert [OF msgpack_ref_ok] field_type_val.simps)

text \<open>
  C37: the message of an error response. For an error frame whose body is a packed map with integer
  keys, \<open>get_error_string\<close> returns the string stored under the key \<open>Error_24\<close>, or the empty string if
  there is none; a value that is not a string ends the process, because the function is \<open>noexcept\<close>.
\<close>

theorem error_string_of_frame:
  assumes "msgpack_ok L" "mp_wf (Mp_map kvs)" "\<forall>(k, v) \<in> set kvs. \<exists>n. k = Mp_uint n"
    and "frame_body_bytes mb fr = mp_pack L (Mp_map kvs)" "frame_is_error fr"
  shows "frame_get_error_string L mb fr =
    (case map_of kvs (mp_field F_Error_24) of None \<Rightarrow> Inr []
     | Some v \<Rightarrow> (case mp_as_string L v of Inl e \<Rightarrow> Inl Terminate | Inr s \<Rightarrow> Inr s))"
  using msgpack_unpack [OF assms(1,2), of "[]"] assms(4,5)
  by (simp add: frame_get_error_string_def error_string_entries_eq [OF assms(3)])

theorem error_string_of_frame_witness:
  "frame_get_error_string msgpack_ref sample_memory (sample_frame 0x8001) = Inr [0x65]"
  using error_string_of_frame [OF msgpack_ref_ok _ _ sample_frame_body [of "0x8001"]]
  by (simp add: sample_entries_def sample_frame_def frame_is_error_def header_is_error_def
      is_error_req_type_def msgpack_convert [OF msgpack_ref_ok] field_type_val.simps)

text \<open>
  C11: what the connector packs, the connector's framing reads back. A request with a counted map body,
  sent over a stream socket in any chunks, is received as a frame with the same request type, sync and
  stream id, whose body is exactly the packed map.
\<close>

theorem packed_request_is_received:
  assumes "reader_ok rd incoming" "reader_live rd incoming" "framing_ok st" "msgpack_ok L" "endian_ok E"
    and "length es < 2 ^ 32" "mp_pack L (Mp_map (entry_objects es)) \<noteq> []"
    and "length (header_pack L h @ mp_pack L (Mp_map (entry_objects es))) < 2 ^ 32"
    and "pending incoming st = packer_str (finalize E (pack_map_entries L es
      (begin_map_count L (of_nat (length es)) (pack (header_pack L) h RequestPacker_init)))) @ rest"
  shows "\<exists>fr st'. receive_message L E rd st = Inr ((no_error, fr), st') \<and> pending incoming st' = rest
    \<and> m_header fr = h\<lparr>schema_version := 0\<rparr>
    \<and> frame_body_bytes (fst st') fr = mp_pack L (Mp_map (entry_objects es))"
proof -
  let ?body = "mp_pack L (Mp_map (entry_objects es))" and ?h = "Mp_map (header_entries h)"
  have fits: "frame_fits L Uint32 ?h ?body"
    using assms(8) mp_wf_header_entries [of h] by (simp add: frame_fits_def header_pack_eq [OF assms(4)])
  have p: "pending incoming st = server_frame L Uint32 ?h ?body @ rest"
    unfolding assms(9) counted_frame [OF assms(4-6,8)]
    by (simp add: server_frame_def wire_frame_def size_tag_def header_pack_eq [OF assms(4)])
  have "header_convert L ?h MessageHeader_default = Inr (h\<lparr>schema_version := 0\<rparr>)"
    by (simp add: header_convert_def convert_header_entries [OF assms(4)])
  from receive_message_ok [OF assms(1-5) fits this assms(7) p] show ?thesis by blast
qed

theorem packed_request_is_received_witness:
  "\<exists>fr st'. receive_message msgpack_ref endian_ref (chunk_reader 2)
      (MutableBuffer_init 16, packer_str (finalize endian_ref (pack_map_entries msgpack_ref [(F_SpaceId, Mp_uint 512)]
        (begin_map_count msgpack_ref (of_nat (length [(F_SpaceId, Mp_uint 512)]))
          (pack (header_pack msgpack_ref) sample_header RequestPacker_init)))) @ [0xce]) = Inr ((no_error, fr), st')
    \<and> pending id st' = [0xce] \<and> m_header fr = sample_header\<lparr>schema_version := 0\<rparr>
    \<and> frame_body_bytes (fst st') fr = mp_pack msgpack_ref (Mp_map (entry_objects [(F_SpaceId, Mp_uint 512)]))"
  by (rule packed_request_is_received [OF chunk_reader_ok chunk_reader_live sample_framing_ok msgpack_ref_ok
        endian_ref_ok _ _ _ sample_framing_pending])
    (simp_all add: msgpack_ref_def header_pack_def head_bytes_def field_type_val.simps)

end
