(* ===== verification/DBQueue.thy ===== *)
theory DBQueue
  imports Prelude
begin

text \<open>
  The double buffer queue of \<open>detail/tntpp_queue.h\<close>, which holds the requests that wait while a
  write is in flight: the two vectors with their capacities, every member function, the queue
  interface the connection relies on, and the facts that make it a FIFO without loss.
\<close>

subsection \<open>Definitions\<close>

text \<open>
  \<open>std::vector\<close> as the queue uses it: the elements and the capacity. \<open>grow n\<close> is the capacity
  the implementation chooses when it has to reallocate for \<open>n\<close> elements, which the standard
  leaves open. \<open>resize\<close> is only called to drop elements; like \<open>clear\<close> it keeps the capacity.
\<close>

record 'a vec =
  vec_elems :: "'a list"
  vec_cap :: nat

definition vec_empty :: "'a vec" where
  "vec_empty = \<lparr>vec_elems = [], vec_cap = 0\<rparr>"

definition vec_reserve :: "(nat \<Rightarrow> nat) \<Rightarrow> nat \<Rightarrow> 'a vec \<Rightarrow> 'a vec" where
  "vec_reserve grow n v = (if n \<le> vec_cap v then v else v\<lparr>vec_cap := grow n\<rparr>)"

definition vec_push_back :: "(nat \<Rightarrow> nat) \<Rightarrow> 'a \<Rightarrow> 'a vec \<Rightarrow> 'a vec" where
  "vec_push_back grow x v =
     (let es = vec_elems v @ [x]
      in \<lparr>vec_elems = es,
          vec_cap = (if length es \<le> vec_cap v then vec_cap v else grow (length es))\<rparr>)"

definition vec_resize_down :: "nat \<Rightarrow> 'a vec \<Rightarrow> 'a vec" where
  "vec_resize_down n v = v\<lparr>vec_elems := take n (vec_elems v)\<rparr>"

definition vec_clear :: "'a vec \<Rightarrow> 'a vec" where
  "vec_clear v = v\<lparr>vec_elems := []\<rparr>"

text \<open>The members of \<open>DBQueue<T>\<close>.\<close>

record 'a dbqueue =
  m_default_size :: nat
  m_active :: "'a vec"
  m_inactive :: "'a vec"

definition DBQueue_init :: "(nat \<Rightarrow> nat) \<Rightarrow> nat \<Rightarrow> 'a dbqueue" where
  "DBQueue_init grow default_size =
     \<lparr>m_default_size = default_size,
      m_active = vec_reserve grow default_size vec_empty,
      m_inactive = vec_reserve grow default_size vec_empty\<rparr>"

definition push :: "(nat \<Rightarrow> nat) \<Rightarrow> 'a \<Rightarrow> 'a dbqueue \<Rightarrow> 'a dbqueue" where
  "push grow value q = q\<lparr>m_active := vec_push_back grow value (m_active q)\<rparr>"

definition is_ready :: "'a dbqueue \<Rightarrow> bool" where
  "is_ready q = (vec_elems (m_active q) \<noteq> [])"

definition get_inactive :: "'a dbqueue \<Rightarrow> 'a list" where
  "get_inactive q = vec_elems (m_inactive q)"

text \<open>The guarded \<open>resize\<close> that \<open>swap\<close> and \<open>clear\<close> share.\<close>

definition shrink_to_default :: "nat \<Rightarrow> 'a vec \<Rightarrow> 'a vec" where
  "shrink_to_default n v =
     (if n \<noteq> 0 \<and> length (vec_elems v) > n then vec_resize_down n v else v)"

definition swap :: "'a dbqueue \<Rightarrow> 'a list \<times> 'a dbqueue" where
  "swap q =
     (let q1 = q\<lparr>m_inactive := m_active q, m_active := m_inactive q\<rparr>;
          q2 = q1\<lparr>m_active := shrink_to_default (m_default_size q1) (m_active q1)\<rparr>;
          q3 = q2\<lparr>m_active := vec_clear (m_active q2)\<rparr>
      in (vec_elems (m_inactive q3), q3))"

definition clear_queue :: "'a dbqueue \<Rightarrow> 'a dbqueue" where
  "clear_queue q =
     (let q1 = q\<lparr>m_active := shrink_to_default (m_default_size q) (m_active q)\<rparr>;
          q2 = q1\<lparr>m_inactive := shrink_to_default (m_default_size q1) (m_inactive q1)\<rparr>
      in q2\<lparr>m_active := vec_clear (m_active q2), m_inactive := vec_clear (m_inactive q2)\<rparr>)"

text \<open>A client's calls in sequence, with the batches that \<open>swap\<close> handed out.\<close>

datatype 'a queue_op = Push 'a | Swap | Clear

fun queue_step :: "(nat \<Rightarrow> nat) \<Rightarrow> 'a queue_op \<Rightarrow> 'a list list \<times> 'a dbqueue \<Rightarrow> 'a list list \<times> 'a dbqueue"
where
  "queue_step grow (Push x) (out, q) = (out, push grow x q)"
| "queue_step grow Swap (out, q) = (let (batch, q') = swap q in (out @ [batch], q'))"
| "queue_step grow Clear (out, q) = (out, clear_queue q)"

definition queue_run ::
  "(nat \<Rightarrow> nat) \<Rightarrow> 'a queue_op list \<Rightarrow> 'a dbqueue \<Rightarrow> 'a list list \<times> 'a dbqueue" where
  "queue_run grow ops q = fold (queue_step grow) ops ([], q)"

fun pushed :: "'a queue_op list \<Rightarrow> 'a list" where
  "pushed [] = []"
| "pushed (Push x # ops) = x # pushed ops"
| "pushed (Swap # ops) = pushed ops"
| "pushed (Clear # ops) = pushed ops"

definition capacity :: "'a dbqueue \<Rightarrow> nat" where
  "capacity q = vec_cap (m_active q) + vec_cap (m_inactive q)"

definition vec_ok :: "'a vec \<Rightarrow> bool" where
  "vec_ok v \<longleftrightarrow> length (vec_elems v) \<le> vec_cap v"

definition queue_ok :: "'a dbqueue \<Rightarrow> bool" where
  "queue_ok q \<longleftrightarrow> vec_ok (m_active q) \<and> vec_ok (m_inactive q)"

subsection \<open>The interface the connection relies on\<close>

text \<open>
  A send queue: elements wait in order (\<open>waiting\<close>), a swap hands all of them out at once, and
  the batch handed out (\<open>batch\<close>) is not touched by later pushes.
\<close>

locale send_queue =
  fixes waiting :: "'q \<Rightarrow> 'a list"
    and batch :: "'q \<Rightarrow> 'a list"
    and enq :: "'a \<Rightarrow> 'q \<Rightarrow> 'q"
    and nonempty :: "'q \<Rightarrow> bool"
    and take_all :: "'q \<Rightarrow> 'a list \<times> 'q"
    and reset :: "'q \<Rightarrow> 'q"
  assumes waiting_enq: "waiting (enq x q) = waiting q @ [x]"
    and batch_enq: "batch (enq x q) = batch q"
    and nonempty_iff: "nonempty q \<longleftrightarrow> waiting q \<noteq> []"
    and fst_take_all: "fst (take_all q) = waiting q"
    and waiting_take_all: "waiting (snd (take_all q)) = []"
    and batch_take_all: "batch (snd (take_all q)) = waiting q"
    and waiting_reset: "waiting (reset q) = []"
    and batch_reset: "batch (reset q) = []"
begin

lemma waiting_fold_enq: "waiting (fold enq xs q) = waiting q @ xs"
  by (induction xs arbitrary: q) (simp_all add: waiting_enq)

lemma batch_fold_enq: "batch (fold enq xs q) = batch q"
  by (induction xs arbitrary: q) (simp_all add: batch_enq)

lemma take_all_fold_enq: "fst (take_all (fold enq xs q)) = waiting q @ xs"
  by (simp add: fst_take_all waiting_fold_enq)

lemma batch_stable: "batch (fold enq xs (snd (take_all q))) = waiting q"
  by (simp add: batch_fold_enq batch_take_all)

lemmas queue_laws = waiting_enq batch_enq nonempty_iff fst_take_all waiting_take_all
  batch_take_all waiting_reset batch_reset

end

subsection \<open>Lemmas\<close>

lemmas vec_defs = vec_empty_def vec_reserve_def vec_push_back_def vec_resize_down_def vec_clear_def
  shrink_to_default_def

lemmas queue_defs = DBQueue_init_def push_def is_ready_def get_inactive_def swap_def
  clear_queue_def

abbreviation waiting_elems :: "'a dbqueue \<Rightarrow> 'a list" where
  "waiting_elems q \<equiv> vec_elems (m_active q)"

interpretation dbq: send_queue waiting_elems get_inactive "push grow" is_ready swap clear_queue
  by unfold_locales (simp_all add: queue_defs vec_defs Let_def)

lemma waiting_init [simp]: "waiting_elems (DBQueue_init grow n) = []"
  and inactive_init [simp]: "get_inactive (DBQueue_init grow n) = []"
  by (simp_all add: queue_defs vec_defs)

lemma vec_cap_shrink [simp]: "vec_cap (shrink_to_default n v) = vec_cap v"
  and vec_cap_clear [simp]: "vec_cap (vec_clear v) = vec_cap v"
  by (simp_all add: vec_defs)

lemma vec_cap_push_back:
  assumes "\<And>n. n \<le> grow n" and "vec_ok v"
  shows "vec_cap v \<le> vec_cap (vec_push_back grow x v)"
proof (cases "Suc (length (vec_elems v)) \<le> vec_cap v")
  case True
  then show ?thesis by (simp add: vec_push_back_def)
next
  case False
  with assms(2) have "vec_cap v \<le> Suc (length (vec_elems v))" by (simp add: vec_ok_def)
  also have "\<dots> \<le> grow (Suc (length (vec_elems v)))" by (rule assms(1))
  finally show ?thesis using False by (simp add: vec_push_back_def)
qed

lemma queue_step_ok:
  assumes grow: "\<And>n. n \<le> grow n" and "queue_ok q"
  shows "queue_ok (snd (queue_step grow op (out, q)))"
  using assms(2) grow [of "Suc (length (waiting_elems q))"]
  by (cases op) (auto simp: queue_ok_def vec_ok_def queue_defs vec_defs Let_def)

lemma queue_step_capacity:
  assumes "\<And>n. n \<le> grow n" and "queue_ok q"
  shows "capacity q \<le> capacity (snd (queue_step grow op (out, q)))"
  using assms vec_cap_push_back [OF assms(1), of "m_active q"]
  by (cases op) (auto simp: capacity_def queue_ok_def queue_defs Let_def)

lemma fold_queue_capacity:
  assumes grow: "\<And>n. n \<le> grow n"
  shows "queue_ok (snd p) \<Longrightarrow> queue_ok (snd (fold (queue_step grow) ops p)) \<and>
    capacity (snd p) \<le> capacity (snd (fold (queue_step grow) ops p))"
proof (induction ops arbitrary: p)
  case Nil
  then show ?case by simp
next
  case (Cons op ops)
  obtain out q where p: "p = (out, q)" by force
  with Cons.prems have ok: "queue_ok (snd (queue_step grow op p))"
    and cap: "capacity (snd p) \<le> capacity (snd (queue_step grow op p))"
    using queue_step_ok [OF grow] queue_step_capacity [OF grow] by auto
  show ?case using Cons.IH [OF ok] cap by auto
qed

lemma fold_queue_fifo:
  assumes "Clear \<notin> set ops"
  shows "concat (fst (fold (queue_step grow) ops p)) @ waiting_elems (snd (fold (queue_step grow) ops p))
    = concat (fst p) @ waiting_elems (snd p) @ pushed ops"
  using assms
proof (induction ops arbitrary: p)
  case Nil
  then show ?case by simp
next
  case (Cons op ops)
  obtain out q where p: "p = (out, q)" by force
  have "concat (fst (queue_step grow op p)) @ waiting_elems (snd (queue_step grow op p)) @ pushed ops
      = concat (fst p) @ waiting_elems (snd p) @ pushed (op # ops)"
    using Cons.prems
    by (cases op) (auto simp: p split_def dbq.queue_laws)
  with Cons show ?case by simp
qed

subsection \<open>Properties\<close>

text \<open>
  The send queue is a FIFO without loss or duplication. Whatever the order of pushes and
  swaps, the batches handed out by \<open>swap\<close>, one after the other, followed by the elements still
  waiting, are exactly the pushed elements in the order of the pushes.
\<close>

lemma queue_fifo:
  assumes "Clear \<notin> set ops"
  shows "concat (fst (queue_run grow ops (DBQueue_init grow n)))
      @ waiting_elems (snd (queue_run grow ops (DBQueue_init grow n))) = pushed ops"
  using fold_queue_fifo [OF assms, of grow "([], DBQueue_init grow n)"] by (simp add: queue_run_def)

text \<open>
  C35: no operation of the queue ever gives memory back: along any sequence of calls the total
  capacity of the two vectors never decreases, because \<open>resize\<close> and \<open>clear\<close> keep a vector's
  capacity. The limit \<open>send_queue_capacity\<close> of the configuration has no effect on the memory
  held after a burst.
\<close>

theorem queue_capacity_never_shrinks:
  assumes "\<And>k. k \<le> grow k"
  shows "capacity (snd (queue_run grow ops (DBQueue_init grow n)))
     \<le> capacity (snd (queue_run grow (ops @ ops2) (DBQueue_init grow n)))"
proof -
  let ?p = "([], DBQueue_init grow n)"
  have "queue_ok (snd ?p)"
    by (simp add: queue_ok_def vec_ok_def queue_defs vec_defs)
  then have "queue_ok (snd (fold (queue_step grow) ops ?p))"
    using fold_queue_capacity [OF assms, of ?p ops] by blast
  then show ?thesis
    using fold_queue_capacity [OF assms, of "fold (queue_step grow) ops ?p" ops2]
    by (simp add: queue_run_def)
qed

theorem queue_capacity_never_shrinks_witness:
  "capacity (snd (queue_run id [Push (1::nat), Push 2, Push 3] (DBQueue_init id 1)))
     \<le> capacity (snd (queue_run id ([Push 1, Push 2, Push 3] @ [Swap, Swap, Clear]) (DBQueue_init id 1)))
   \<and> capacity (snd (queue_run id [Push (1::nat), Push 2, Push 3] (DBQueue_init id 1))) = 4"
  using queue_capacity_never_shrinks [of id "[Push (1::nat), Push 2, Push 3]" 1 "[Swap, Swap, Clear]"]
  by (simp add: queue_run_def queue_defs vec_defs capacity_def)

end
