(* ===== verification/Logger_Config.thy ===== *)
theory Logger_Config
  imports Prelude
begin

text \<open>
  The logger interface, the logger to standard output and the configuration, from
  \<open>tntpp_logger.h\<close>, \<open>tntpp_cout_logger.h\<close> and \<open>tntpp_config.h\<close>. A consumer is its current level and
  the lines it has printed; the formatting library (\<open>fmt\<close>) and the clock are parameters.
\<close>

subsection \<open>Definitions: log levels and consumers\<close>

datatype log_level = Fatal | Error | Warn | Info | Debug | Trace

text \<open>The values of the enumerators, which \<open>>=\<close> in \<open>TNTPP_LOG\<close> compares.\<close>

primrec log_level_val :: "log_level \<Rightarrow> nat" where
  "log_level_val Fatal = 0"
| "log_level_val Error = 1"
| "log_level_val Warn = 2"
| "log_level_val Info = 3"
| "log_level_val Debug = 4"
| "log_level_val Trace = 5"

instantiation log_level :: linorder
begin

definition less_eq_log_level :: "log_level \<Rightarrow> log_level \<Rightarrow> bool" where
  "less_eq_log_level a b \<longleftrightarrow> log_level_val a \<le> log_level_val b"

definition less_log_level :: "log_level \<Rightarrow> log_level \<Rightarrow> bool" where
  "less_log_level a b \<longleftrightarrow> log_level_val a < log_level_val b"

instance
proof
  fix a b :: log_level
  show "a \<le> b \<Longrightarrow> b \<le> a \<Longrightarrow> a = b"
    by (cases a; cases b) (simp_all add: less_eq_log_level_def)
qed (auto simp: less_eq_log_level_def less_log_level_def)

end

primrec log_level_to_string :: "log_level \<Rightarrow> string" where
  "log_level_to_string Fatal = ''FATAL''"
| "log_level_to_string Error = ''ERROR''"
| "log_level_to_string Warn = ''WARN''"
| "log_level_to_string Info = ''INFO''"
| "log_level_to_string Debug = ''DEBUG''"
| "log_level_to_string Trace = ''TRACE''"

text \<open>
  \<open>StdoutLogger\<close>: its level and what it has written to \<open>std::cout\<close>. \<open>rfind\<close> gives \<open>npos\<close>, the
  largest \<open>size_t\<close>, when the character does not occur, and \<open>++\<close> of that wraps to zero.
\<close>

record stdout_logger =
  lg_level :: log_level
  lg_lines :: "string list"

definition StdoutLogger_init :: "log_level \<Rightarrow> stdout_logger" where
  "StdoutLogger_init level = \<lparr>lg_level = level, lg_lines = []\<rparr>"

definition max_log_level :: "stdout_logger \<Rightarrow> log_level" where
  "max_log_level lg = lg_level lg"

fun rfind_from :: "nat \<Rightarrow> char \<Rightarrow> string \<Rightarrow> nat \<Rightarrow> nat" where
  "rfind_from i c [] acc = acc"
| "rfind_from i c (x # xs) acc = rfind_from (Suc i) c xs (if x = c then i else acc)"

definition rfind :: "char \<Rightarrow> string \<Rightarrow> nat" where
  "rfind c s = rfind_from 0 c s size_max"

definition strip_filename :: "string \<Rightarrow> string" where
  "strip_filename filename =
     (let it = rfind (CHR ''/'') filename;
          sep = (if it \<noteq> 0 then size_add it 1 else 0);
          it2 = rfind (CHR 0x5C) filename;
          sep2 = (if sep = 0 then (if it2 \<noteq> 0 then size_add it2 1 else sep) else sep)
      in drop sep2 filename)"

definition strip_string :: "string \<Rightarrow> nat \<Rightarrow> string" where
  "strip_string s len = (if length s \<le> len then s else drop (length s - len) s)"

text \<open>
  The source location is the file name and the column. \<open>fmt_prefix\<close> is \<open>fmt::format_to\<close> with the format
  of \<open>handle\<close>, applied to the stripped file name, the column and the level; it reads the clock.
\<close>

type_synonym location = "string \<times> nat"

definition handle ::
  "(string \<Rightarrow> nat \<Rightarrow> string \<Rightarrow> string) \<Rightarrow> log_level \<Rightarrow> string \<Rightarrow> location \<Rightarrow> stdout_logger \<Rightarrow> stdout_logger" where
  "handle fmt_prefix level message loc lg =
     lg\<lparr>lg_lines := lg_lines lg
       @ [fmt_prefix (strip_string (strip_filename (fst loc)) 15) (snd loc) (log_level_to_string level) @ message]\<rparr>"

text \<open>The macro \<open>TNTPP_LOG\<close>: a null logger and a message above the level are skipped.\<close>

definition TNTPP_LOG ::
  "(string \<Rightarrow> nat \<Rightarrow> string \<Rightarrow> string) \<Rightarrow> stdout_logger option \<Rightarrow> log_level \<Rightarrow> string \<Rightarrow> location
     \<Rightarrow> stdout_logger option" where
  "TNTPP_LOG fmt_prefix logger level message loc =
     (case logger of
        None \<Rightarrow> None
      | Some lg \<Rightarrow> Some (if max_log_level lg \<ge> level then handle fmt_prefix level message loc lg else lg))"

text \<open>Whether the macro evaluates the arguments of its message at all.\<close>

definition log_evaluates :: "stdout_logger option \<Rightarrow> log_level \<Rightarrow> bool" where
  "log_evaluates logger level = (case logger of None \<Rightarrow> False | Some lg \<Rightarrow> max_log_level lg \<ge> level)"

subsection \<open>Definitions: Config\<close>

record credentials =
  cr_username :: "byte list"
  cr_password :: "byte list"

record config =
  m_host :: string
  m_port :: u16
  m_credentials :: "credentials option"
  m_logger :: "stdout_logger option"
  m_nodelay :: bool
  m_send_queue_capacity :: nat
  m_receive_buffer_size :: nat

definition default_port :: u16 where
  "default_port = 3301"

definition Config_default :: config where
  "Config_default =
     \<lparr>m_host = ''127.0.0.1'', m_port = default_port, m_credentials = None, m_logger = None,
      m_nodelay = False, m_send_queue_capacity = 32, m_receive_buffer_size = 16384\<rparr>"

definition set_host :: "string \<Rightarrow> config \<Rightarrow> config" where
  "set_host host c = c\<lparr>m_host := host\<rparr>"

definition set_port :: "u16 \<Rightarrow> config \<Rightarrow> config" where
  "set_port port c = c\<lparr>m_port := port\<rparr>"

definition set_credentials :: "byte list \<Rightarrow> byte list \<Rightarrow> config \<Rightarrow> config run" where
  "set_credentials username password c =
     assert_run (username \<noteq> []) (assert_run (password \<noteq> [])
       (Inr (c\<lparr>m_credentials := Some \<lparr>cr_username = username, cr_password = password\<rparr>\<rparr>)))"

definition set_logger :: "stdout_logger option \<Rightarrow> config \<Rightarrow> config" where
  "set_logger logger c = c\<lparr>m_logger := logger\<rparr>"

definition set_no_delay :: "bool \<Rightarrow> config \<Rightarrow> config" where
  "set_no_delay enable c = c\<lparr>m_nodelay := enable\<rparr>"

definition set_send_queue_capacity :: "nat \<Rightarrow> config \<Rightarrow> config" where
  "set_send_queue_capacity n c = c\<lparr>m_send_queue_capacity := n\<rparr>"

definition set_receive_buffer_size :: "nat \<Rightarrow> config \<Rightarrow> config" where
  "set_receive_buffer_size n c = c\<lparr>m_receive_buffer_size := n\<rparr>"

text \<open>
  A configuration is built by a chain of setters. \<open>Cfg_step\<close> names one; credentials that are set are
  never empty.
\<close>

datatype cfg_op = Host string | Port u16 | Creds "byte list" "byte list" | Logger "stdout_logger option"
  | No_delay bool | Queue_capacity nat | Buffer_size nat

fun cfg_step :: "cfg_op \<Rightarrow> config \<Rightarrow> config run" where
  "cfg_step (Host h) c = Inr (set_host h c)"
| "cfg_step (Port p) c = Inr (set_port p c)"
| "cfg_step (Creds u p) c = set_credentials u p c"
| "cfg_step (Logger l) c = Inr (set_logger l c)"
| "cfg_step (No_delay b) c = Inr (set_no_delay b c)"
| "cfg_step (Queue_capacity n) c = Inr (set_send_queue_capacity n c)"
| "cfg_step (Buffer_size n) c = Inr (set_receive_buffer_size n c)"

fun cfg_run :: "cfg_op list \<Rightarrow> config \<Rightarrow> config run" where
  "cfg_run [] c = Inr c"
| "cfg_run (op # ops) c = run_bind (cfg_step op c) (cfg_run ops)"

definition config_ok :: "config \<Rightarrow> bool" where
  "config_ok c \<longleftrightarrow> (case m_credentials c of None \<Rightarrow> True
     | Some cr \<Rightarrow> cr_username cr \<noteq> [] \<and> cr_password cr \<noteq> [])"

subsection \<open>Lemmas\<close>

lemmas cfg_defs = set_host_def set_port_def set_credentials_def set_logger_def set_no_delay_def
  set_send_queue_capacity_def set_receive_buffer_size_def

lemma cfg_step_ok: "config_ok c \<Longrightarrow> cfg_step op c = Inr c' \<Longrightarrow> config_ok c'"
  by (cases op) (auto simp: config_ok_def cfg_defs)

lemma cfg_run_ok: "config_ok c \<Longrightarrow> cfg_run ops c = Inr c' \<Longrightarrow> config_ok c'"
  by (induction ops arbitrary: c) (auto dest: cfg_step_ok)

lemma rfind_from_absent: "c \<notin> set s \<Longrightarrow> rfind_from i c s acc = acc"
  by (induction s arbitrary: i) auto

lemma rfind_from_append: "rfind_from i c (xs @ ys) acc = rfind_from (i + length xs) c ys (rfind_from i c xs acc)"
  by (induction xs arbitrary: i acc) auto

lemma rfind_absent: "c \<notin> set s \<Longrightarrow> rfind c s = size_max"
  by (simp add: rfind_def rfind_from_absent)

lemma rfind_last: "c \<notin> set base \<Longrightarrow> rfind c (dir @ c # base) = length dir"
  by (simp add: rfind_def rfind_from_append rfind_from_absent)

lemma size_add_npos [simp]: "size_add size_max (Suc 0) = 0"
  by (simp add: size_add_def size_max_def)

lemma size_max_pos [simp]: "size_max \<noteq> 0"
  by (simp add: size_max_def)

text \<open>
  The logging macro prints a message exactly when there is a logger and the message's level is
  not above the logger's.
\<close>

lemma log_filters_by_level:
  "TNTPP_LOG fmt_prefix None level message loc = None
   \<and> (\<exists>lg'. TNTPP_LOG fmt_prefix (Some lg) level message loc = Some lg' \<and> max_log_level lg' = max_log_level lg
     \<and> (if log_level_val level \<le> log_level_val (lg_level lg)
         then \<exists>prefix. lg_lines lg' = lg_lines lg @ [prefix @ message] else lg' = lg))"
  by (simp add: TNTPP_LOG_def handle_def max_log_level_def less_eq_log_level_def)

subsection \<open>What the functions compute\<close>

text \<open>
  \<open>strip_filename\<close> gives the base name: everything after the last slash if there is one (not at
  the very start, where it is kept) and else everything after the last backslash; a name without
  separators is returned whole, because \<open>npos\<close> incremented is zero.
\<close>

lemma strip_filename_basename:
  assumes "CHR ''/'' \<notin> set base" "CHR 0x5C \<notin> set base" "length dir < 2 ^ 63"
  shows "strip_filename base = base \<and> (dir \<noteq> [] \<longrightarrow> strip_filename (dir @ CHR ''/'' # base) = base)
    \<and> (dir \<noteq> [] \<and> CHR ''/'' \<notin> set dir \<longrightarrow> strip_filename (dir @ CHR 0x5C # base) = base)
    \<and> strip_filename (CHR ''/'' # base) = CHR ''/'' # base"
  using assms rfind_last [of "CHR ''/''" base "[]"]
  by (simp add: strip_filename_def rfind_absent rfind_last Let_def)

text \<open>
  A configuration never holds half of a login: whatever chain of setters built it from the
  defaults, credentials are absent or have a name and a password; setting an empty one fails the
  assertion.
\<close>

lemma config_credentials_complete:
  assumes "cfg_run ops Config_default = Inr c" "m_credentials c = Some cr"
  shows "cr_username cr \<noteq> [] \<and> cr_password cr \<noteq> []"
proof -
  have "config_ok Config_default" by (simp add: config_ok_def Config_default_def)
  from cfg_run_ok [OF this assms(1)] show ?thesis using assms(2) by (simp add: config_ok_def)
qed

end
