(* ===== verification/Connection.thy ===== *)
theory Connection
  imports Framing DBQueue Logger_Config
begin

text \<open>
  The connection of \<open>connection.h\<close>: the socket with its framing, the send queue and the send state
  machine, and the loop that tries every resolved address. All members run on one strand, so each
  call and each completion is one step; \<open>conn_step\<close> collects them. A \<open>Data\<close> (a view of a request's
  bytes, which the caller keeps alive) is the bytes it shows. The resolver, the TCP connect and the
  socket's reads are parameters. Log messages do not change the connection and are left out.
\<close>

subsection \<open>Definitions: Connection\<close>

text \<open>
  \<open>c_open\<close> is \<open>is_open()\<close> of the socket. \<open>c_writes\<close> are the \<open>async_write\<close> operations started and not
  yet completed, each with its buffer sequence.
\<close>

text \<open>What the resolver returns, in its textual form.\<close>

type_synonym address = string

record 's connection =
  c_stream :: "'s framing"
  c_open :: bool
  c_config :: config
  m_sending :: bool
  m_queue :: "byte list dbqueue"
  m_salt :: "byte list"
  c_writes :: "byte list list list"

definition Connection_init :: "(nat \<Rightarrow> nat) \<Rightarrow> 's \<Rightarrow> config \<Rightarrow> 's connection" where
  "Connection_init grow s cfg =
     \<lparr>c_stream = (MutableBuffer_init (m_receive_buffer_size cfg), s), c_open = False, c_config = cfg,
      m_sending = False, m_queue = DBQueue_init grow (m_send_queue_capacity cfg), m_salt = [],
      c_writes = []\<rparr>"

definition stop :: "'s connection \<Rightarrow> 's connection" where
  "stop c = c\<lparr>c_open := False\<rparr>"

text \<open>
  The loop of \<open>connect\<close> over the resolved addresses. \<open>dial\<close> is \<open>async_connect\<close>: it reports an error
  code, whether the socket is open afterwards, and the stream behind it.
\<close>

fun connect_loop ::
  "'s reader \<Rightarrow> (address \<Rightarrow> u16 \<Rightarrow> error_code \<times> bool \<times> 's) \<Rightarrow> address list \<Rightarrow> 's connection \<Rightarrow> error_code \<times> 's connection" where
  "connect_loop rd dial [] c = (errc not_connected, c)"
| "connect_loop rd dial (address # rest) c =
     (let c1 = c\<lparr>c_stream := framing_clear (c_stream c), c_open := False\<rparr>;
          (ec, is_open, s) = dial address (m_port (c_config c));
          c2 = c1\<lparr>c_open := is_open, c_stream := (fst (c_stream c1), s)\<rparr>
      in if failed ec then connect_loop rd dial rest c2
         else let ((ec2, salt), s') = read_tarantool_hello rd s;
                  c3 = c2\<lparr>m_salt := salt, c_stream := (fst (c_stream c2), s')\<rparr>
              in if failed ec2 then connect_loop rd dial rest c3
                 else (no_error, c3\<lparr>c_stream := framing_clear (c_stream c3)\<rparr>))"

definition connect ::
  "'s reader \<Rightarrow> (string \<Rightarrow> error_code \<times> address list) \<Rightarrow> (address \<Rightarrow> u16 \<Rightarrow> error_code \<times> bool \<times> 's) \<Rightarrow> 's connection
     \<Rightarrow> (error_code \<times> 's connection) run" where
  "connect rd resolve dial c =
     assert_run (\<not> c_open c)
       (let (ec, addresses) = resolve (m_host (c_config c))
        in if failed ec then Inr (ec, c) else Inr (connect_loop rd dial addresses c))"

definition conn_receive_message ::
  "msgpack_lib \<Rightarrow> endian_lib \<Rightarrow> 's reader \<Rightarrow> 's connection \<Rightarrow> ((error_code \<times> iproto_frame) \<times> 's connection) run" where
  "conn_receive_message L E rd c =
     run_bind (receive_message L E rd (c_stream c)) (\<lambda>(r, st). Inr (r, c\<lparr>c_stream := st\<rparr>))"

text \<open>\<open>boost::asio::async_write\<close> starts an operation; its completion is a later step.\<close>

definition async_write :: "byte list list \<Rightarrow> 's connection \<Rightarrow> 's connection" where
  "async_write buffers c = c\<lparr>c_writes := c_writes c @ [buffers]\<rparr>"

definition init_single_send :: "byte list \<Rightarrow> 's connection \<Rightarrow> 's connection" where
  "init_single_send data c = async_write [data] (c\<lparr>m_sending := True\<rparr>)"

definition init_queue_send :: "'s connection \<Rightarrow> 's connection" where
  "init_queue_send c =
     (let c1 = c\<lparr>m_sending := True\<rparr>;
          (data, q) = swap (m_queue c1)
      in async_write data (c1\<lparr>m_queue := q\<rparr>))"

definition send_data :: "(nat \<Rightarrow> nat) \<Rightarrow> byte list \<Rightarrow> 's connection \<Rightarrow> 's connection" where
  "send_data grow data c =
     (if m_sending c then c\<lparr>m_queue := push grow data (m_queue c)\<rparr>
      else init_single_send data c)"

definition on_data_sent :: "error_code \<Rightarrow> 's connection \<Rightarrow> 's connection" where
  "on_data_sent ec c =
     (let c1 = c\<lparr>m_sending := False\<rparr>;
          c2 = (if failed ec then c1\<lparr>c_open := False, m_queue := clear_queue (m_queue c1)\<rparr> else c1)
      in if is_ready (m_queue c2) then init_queue_send c2 else c2)"

subsection \<open>Definitions: the steps of a connection\<close>

text \<open>
  A connection with two histories: the data handed to \<open>send_data\<close> and the data completely written,
  both since the last failed write. A write that has succeeded may complete after the socket was closed.
\<close>

record 's conn_world =
  w_conn :: "'s connection"
  w_given :: "byte list list"
  w_wire :: "byte list list"

definition conn_init :: "(nat \<Rightarrow> nat) \<Rightarrow> 's conn_world \<Rightarrow> bool" where
  "conn_init grow w \<longleftrightarrow> (\<exists>s cfg. w = \<lparr>w_conn = Connection_init grow s cfg, w_given = [], w_wire = []\<rparr>)"

text \<open>The completion of the oldest write, with its error code.\<close>

definition complete_write :: "error_code \<Rightarrow> 's conn_world \<Rightarrow> 's conn_world" where
  "complete_write ec w =
     (let c = w_conn w; c' = on_data_sent ec (c\<lparr>c_writes := tl (c_writes c)\<rparr>)
      in if failed ec then \<lparr>w_conn = c', w_given = [], w_wire = []\<rparr>
         else w\<lparr>w_conn := c', w_wire := w_wire w @ hd (c_writes c)\<rparr>)"

inductive conn_step :: "(nat \<Rightarrow> nat) \<Rightarrow> 's conn_world \<Rightarrow> 's conn_world \<Rightarrow> bool" for grow where
  cs_send: "conn_step grow w (w\<lparr>w_conn := send_data grow data (w_conn w), w_given := w_given w @ [data]\<rparr>)"
| cs_written: "c_writes (w_conn w) \<noteq> [] \<Longrightarrow> conn_step grow w (complete_write no_error w)"
| cs_failed: "c_writes (w_conn w) \<noteq> [] \<Longrightarrow> failed ec \<Longrightarrow> conn_step grow w (complete_write ec w)"
| cs_stop: "conn_step grow w (w\<lparr>w_conn := stop (w_conn w)\<rparr>)"
| cs_connect: "connect rd resolve dial (w_conn w) = Inr (ec, c) \<Longrightarrow> conn_step grow w (w\<lparr>w_conn := c\<rparr>)"
| cs_receive: "conn_receive_message L E rd (w_conn w) = Inr (r, c) \<Longrightarrow> conn_step grow w (w\<lparr>w_conn := c\<rparr>)"

inductive_cases conn_stepE: "conn_step grow w w'"

text \<open>One successful completion, if a write is in flight.\<close>

definition drain :: "'s conn_world \<Rightarrow> 's conn_world" where
  "drain w = (if c_writes (w_conn w) = [] then w else complete_write no_error w)"

text \<open>A connection that was given two requests, to evaluate examples with, and a greeting.\<close>

definition give :: "byte list \<Rightarrow> 's conn_world \<Rightarrow> 's conn_world" where
  "give data w = w\<lparr>w_conn := send_data id data (w_conn w), w_given := w_given w @ [data]\<rparr>"

definition sample_world :: "byte list conn_world" where
  "sample_world = \<lparr>w_conn = Connection_init id [] Config_default, w_given = [], w_wire = []\<rparr>"

definition greeting :: "byte list" where
  "greeting = (replicate 63 0x54 @ [0x0a]) @ (replicate 63 0x41 @ [0x0a])"

definition sample_dial :: "address \<Rightarrow> u16 \<Rightarrow> error_code \<times> bool \<times> byte list" where
  "sample_dial a port = (if a = ''down'' then (errc 111, True, []) else (no_error, True, greeting @ [0xce]))"

text \<open>
  The invariant of the send machine: \<open>m_sending\<close> tells whether a write is in flight, there is at most
  one, nothing waits when there is none, and nothing was lost, repeated or reordered.
\<close>

definition send_inv :: "'s conn_world \<Rightarrow> bool" where
  "send_inv w \<longleftrightarrow> (let c = w_conn w in
     m_sending c = (c_writes c \<noteq> []) \<and> length (c_writes c) \<le> 1
     \<and> (c_writes c = [] \<longrightarrow> waiting_elems (m_queue c) = [])
     \<and> w_wire w @ concat (c_writes c) @ waiting_elems (m_queue c) = w_given w)"

text \<open>An address that can be connected to and greets properly.\<close>

definition usable :: "'s reader \<Rightarrow> (address \<Rightarrow> u16 \<Rightarrow> error_code \<times> bool \<times> 's) \<Rightarrow> u16 \<Rightarrow> address \<Rightarrow> bool" where
  "usable rd dial port a \<longleftrightarrow> (case dial a port of (ec, is_open, s) \<Rightarrow>
     \<not> failed ec \<and> \<not> failed (fst (fst (read_tarantool_hello rd s))))"

text \<open>
  The outcome \<open>connect\<close> promises: the first usable address is taken, its salt stored, and the stream
  starts right after the greeting with an empty buffer; if no address is usable, \<open>not_connected\<close>.
\<close>

definition connect_outcome ::
  "'s reader \<Rightarrow> (address \<Rightarrow> u16 \<Rightarrow> error_code \<times> bool \<times> 's) \<Rightarrow> u16 \<Rightarrow> address list
     \<Rightarrow> error_code \<times> 's connection \<Rightarrow> bool" where
  "connect_outcome rd dial port as r \<longleftrightarrow>
     (case find (usable rd dial port) as of
        None \<Rightarrow> fst r = errc not_connected
      | Some a \<Rightarrow> fst r = no_error \<and> ready_data (fst (c_stream (snd r))) = []
          \<and> (\<exists>ec. read_tarantool_hello rd (snd (snd (dial a port))) = ((ec, m_salt (snd r)), snd (c_stream (snd r)))))"

text \<open>What \<open>connect\<close> never touches.\<close>

definition same_sender :: "'s connection \<Rightarrow> 's connection \<Rightarrow> bool" where
  "same_sender c c' \<longleftrightarrow> c_config c' = c_config c \<and> m_sending c' = m_sending c \<and> m_queue c' = m_queue c
     \<and> c_writes c' = c_writes c"

subsection \<open>Lemmas\<close>

lemmas send_defs = send_data_def init_single_send_def init_queue_send_def async_write_def on_data_sent_def

lemma swap_eq: "swap q = (waiting_elems q, snd (swap q))"
  using dbq.fst_take_all [of q] by (metis prod.collapse)

lemma same_sender_refl [simp]: "same_sender c c"
  by (simp add: same_sender_def)

lemma connect_loop_same_sender: "connect_loop rd dial as c = (ec, c') \<Longrightarrow> same_sender c c'"
proof (induction rd dial as c rule: connect_loop.induct)
  case (2 rd dial a as c)
  then show ?case
    by (fastforce simp: same_sender_def Let_def split: prod.splits if_splits)
qed (simp add: same_sender_def)

lemma connect_same_sender: "connect rd resolve dial c = Inr (ec, c') \<Longrightarrow> same_sender c c'"
  by (auto simp: connect_def split: prod.splits if_splits dest: connect_loop_same_sender)

text \<open>
  Connecting and receiving commute with sending: it makes no difference at which of their suspension
  points a request is sent, so each of them can be one step.
\<close>

lemma connect_loop_send:
  "connect_loop rd dial as (send_data grow data c) = (case connect_loop rd dial as c of (ec, c') \<Rightarrow> (ec, send_data grow data c'))"
proof (induction as arbitrary: c)
  case (Cons a as)
  obtain ec op s where d: "dial a (m_port (c_config c)) = (ec, op, s)" by (metis prod.exhaust)
  obtain ec2 salt s' where h: "read_tarantool_hello rd s = ((ec2, salt), s')" by (metis prod.exhaust)
  have upd: "(send_data grow data c)\<lparr>c_stream := x\<rparr> = send_data grow data (c\<lparr>c_stream := x\<rparr>)"
    "(send_data grow data c)\<lparr>c_open := y\<rparr> = send_data grow data (c\<lparr>c_open := y\<rparr>)"
    "(send_data grow data c)\<lparr>m_salt := z\<rparr> = send_data grow data (c\<lparr>m_salt := z\<rparr>)"
    "c_config (send_data grow data c) = c_config c" "c_stream (send_data grow data c) = c_stream c" for c :: "'a connection" and x y z
    by (simp_all add: send_defs)
  show ?case using Cons.IH d h by (simp add: Let_def upd)
qed simp

lemma connect_send:
  "connect rd resolve dial (send_data grow data c)
    = run_bind (connect rd resolve dial c) (\<lambda>(ec, c'). Inr (ec, send_data grow data c'))"
proof -
  have "c_open (send_data grow data c) = c_open c" "c_config (send_data grow data c) = c_config c" by (simp_all add: send_defs)
  then show ?thesis by (simp add: connect_def connect_loop_send assert_run_def split: prod.split)
qed

lemma receive_send:
  "conn_receive_message L E rd (send_data grow data c)
    = run_bind (conn_receive_message L E rd c) (\<lambda>(r, c'). Inr (r, send_data grow data c'))"
  by (cases "receive_message L E rd (c_stream c)") (auto simp: conn_receive_message_def send_defs split: prod.splits)

lemma send_inv_same_sender: "send_inv w \<Longrightarrow> same_sender (w_conn w) c \<Longrightarrow> send_inv (w\<lparr>w_conn := c\<rparr>)"
  by (simp add: send_inv_def same_sender_def Let_def)

lemma receive_same_sender: "conn_receive_message L E rd c = Inr (r, c') \<Longrightarrow> same_sender c c'"
  by (auto simp: conn_receive_message_def same_sender_def)

lemma send_inv_send:
  "send_inv w \<Longrightarrow> send_inv (w\<lparr>w_conn := send_data grow data (w_conn w), w_given := w_given w @ [data]\<rparr>)"
  by (auto simp: send_inv_def send_defs Let_def dbq.waiting_enq)

lemma send_inv_complete:
  assumes "send_inv w" "c_writes (w_conn w) \<noteq> []"
  shows "send_inv (complete_write ec w)"
proof -
  from assms obtain b where b: "c_writes (w_conn w) = [b]"
    by (cases "c_writes (w_conn w)") (auto simp: send_inv_def Let_def)
  with assms(1) show ?thesis
    by (auto simp: send_inv_def complete_write_def send_defs Let_def dbq.queue_laws split_def)
qed

interpretation conn: inv_system "conn_init grow" "conn_step grow" send_inv
proof
  show "conn_init grow w \<Longrightarrow> send_inv w" for w :: "'s conn_world"
    by (auto simp: conn_init_def send_inv_def Connection_init_def Let_def)
next
  fix w w' :: "'s conn_world" assume inv: "send_inv w" and "conn_step grow w w'"
  from this(2) show "send_inv w'"
  proof cases
    case cs_stop
    then show ?thesis using inv by (auto simp: stop_def same_sender_def intro: send_inv_same_sender)
  qed (use inv in \<open>auto intro: send_inv_send send_inv_complete send_inv_same_sender
      connect_same_sender receive_same_sender\<close>)
qed

text \<open>\<open>connect\<close> takes the first usable address.\<close>

lemma connect_outcome_Cons:
  "\<not> usable rd dial port a \<Longrightarrow> connect_outcome rd dial port (a # as) r = connect_outcome rd dial port as r"
  by (simp add: connect_outcome_def)

lemma connect_loop_outcome:
  assumes "mb_ok (fst (c_stream c))"
  shows "connect_outcome rd dial (m_port (c_config c)) as (connect_loop rd dial as c)"
  using assms
proof (induction rd dial as c rule: connect_loop.induct)
  case (2 rd dial a as c)
  obtain ec op s where d: "dial a (m_port (c_config c)) = (ec, op, s)" by (metis prod.exhaust)
  obtain ec2 salt s' where h: "read_tarantool_hello rd s = ((ec2, salt), s')" by (metis prod.exhaust)
  note ok = mb_clear_ok [OF 2(3)]
  show ?case
  proof (cases "failed ec \<or> failed ec2")
    case True
    then have "\<not> usable rd dial (m_port (c_config c)) a" by (auto simp: usable_def d h)
    then show ?thesis
      using True 2(1,2) d h ok by (auto simp: connect_outcome_Cons Let_def framing_clear_def)
  next
    case False
    then have "usable rd dial (m_port (c_config c)) a" by (auto simp: usable_def d h)
    then show ?thesis using False ok mb_clear_ok [of "mb_clear (fst (c_stream c))"]
      by (simp add: connect_outcome_def Let_def d h framing_clear_def)
  qed
qed (simp add: connect_outcome_def)

text \<open>After a failed attempt the socket is as the last \<open>async_connect\<close> left it.\<close>

lemma connect_loop_open:
  "as \<noteq> [] \<Longrightarrow> \<forall>a port. fst (snd (dial a port)) \<Longrightarrow> c_open (snd (connect_loop rd dial as c))"
proof (induction rd dial as c rule: connect_loop.induct)
  case (2 rd dial a as c)
  obtain ec op s where d: "dial a (m_port (c_config c)) = (ec, op, s)" by (metis prod.exhaust)
  obtain ec2 salt s' where h: "read_tarantool_hello rd s = ((ec2, salt), s')" by (metis prod.exhaust)
  have "op" using 2(4) d by (metis fst_conv snd_conv)
  then show ?case using 2 d h by (cases "as = []") (auto simp: Let_def)
qed simp

lemma send_invD:
  assumes "send_inv w"
  shows "c_writes (w_conn w) = [] \<and> waiting_elems (m_queue (w_conn w)) = [] \<and> w_wire w = w_given w
    \<and> \<not> m_sending (w_conn w)
    \<or> (\<exists>b. c_writes (w_conn w) = [b] \<and> m_sending (w_conn w)
        \<and> w_wire w @ b @ waiting_elems (m_queue (w_conn w)) = w_given w)"
  using assms by (cases "c_writes (w_conn w)") (auto simp: send_inv_def Let_def)

text \<open>A completion hands out everything that waits, so the next one finishes the job.\<close>

lemma drain_simps:
  assumes "send_inv w"
  shows "send_inv (drain w)" "w_given (drain w) = w_given w" "waiting_elems (m_queue (w_conn (drain w))) = []"
    "waiting_elems (m_queue (w_conn w)) = [] \<Longrightarrow> c_writes (w_conn (drain w)) = []"
  using send_invD [OF assms] assms send_inv_complete [OF assms, of no_error]
  by (auto simp: drain_def complete_write_def send_defs Let_def dbq.queue_laws split_def)

lemma drain_steps: "(conn_step grow)\<^sup>*\<^sup>* w (drain w)"
  by (auto simp: drain_def intro: cs_written)

lemma reach_give: "reach (conn_init id) (conn_step id) w \<Longrightarrow> reach (conn_init id) (conn_step id) (give data w)"
  unfolding give_def by (erule reach_step) (rule cs_send)

lemma reach_sample: "reach (conn_init id) (conn_step id) sample_world"
  by (rule reach_init) (auto simp: conn_init_def sample_world_def)

lemma greeting_hello:
  "read_tarantool_hello (chunk_reader k) (greeting @ rest) = ((no_error, replicate 63 0x41 @ [0x0a]), rest)"
proof -
  have "length greeting = 128" by (simp add: greeting_def)
  then have "chunk_reader k (greeting @ rest) 128 128 = ((no_error, greeting), rest)"
    by (simp add: chunk_reader_def)
  moreover have "greeting ! 63 = 0x0a" "greeting ! 127 = 0x0a"
    "drop 64 greeting = replicate 63 0x41 @ [0x0a]"
    by (simp_all add: greeting_def nth_append)
  ultimately show ?thesis using \<open>length greeting = 128\<close>
    by (simp add: read_tarantool_hello_def overwrite_def slice_list_def)
qed

subsection \<open>Properties\<close>

text \<open>
  C2: sending keeps order and loses nothing. In every reachable state of a connection at most one
  \<open>async_write\<close> is in flight, \<open>m_sending\<close> tells whether there is one, and the data written, then the
  data in flight, then the data in the queue are exactly what was handed to \<open>send_data\<close> since the last
  failed write, in order.
\<close>

theorem send_in_order:
  assumes "reach (conn_init grow) (conn_step grow) w"
  shows "length (c_writes (w_conn w)) \<le> 1 \<and> (m_sending (w_conn w) \<longleftrightarrow> c_writes (w_conn w) \<noteq> [])
    \<and> w_wire w @ concat (c_writes (w_conn w)) @ waiting_elems (m_queue (w_conn w)) = w_given w"
  using conn.reach_inv [OF assms] by (simp add: send_inv_def Let_def)

theorem send_in_order_witness:
  "length (c_writes (w_conn (give [2] (give [1] sample_world)))) \<le> 1
   \<and> (m_sending (w_conn (give [2] (give [1] sample_world))) \<longleftrightarrow> c_writes (w_conn (give [2] (give [1] sample_world))) \<noteq> [])
   \<and> w_wire (give [2] (give [1] sample_world)) @ concat (c_writes (w_conn (give [2] (give [1] sample_world))))
      @ waiting_elems (m_queue (w_conn (give [2] (give [1] sample_world)))) = [[1], [2]]"
  using send_in_order [OF reach_give [OF reach_give [OF reach_sample]], of "[2]" "[1]"]
  by (simp add: give_def sample_world_def)

text \<open>
  C10: queued data does not get stuck. From any reachable state two successful completions of writes,
  which are steps of the connection, put everything that was handed to
  \<open>send_data\<close> on the wire and leave the sender idle.
\<close>

theorem send_drains:
  assumes "reach (conn_init grow) (conn_step grow) w"
  shows "(conn_step grow)\<^sup>*\<^sup>* w (drain (drain w)) \<and> w_wire (drain (drain w)) = w_given w
    \<and> \<not> m_sending (w_conn (drain (drain w)))"
proof -
  have inv: "send_inv w" using assms by (rule conn.reach_inv)
  note d1 = drain_simps [OF inv]
  note d2 = drain_simps [OF d1(1)]
  have "c_writes (w_conn (drain (drain w))) = []" using d2(4) d1(3) by blast
  then have "w_wire (drain (drain w)) = w_given w \<and> \<not> m_sending (w_conn (drain (drain w)))"
    using send_invD [OF d2(1)] d1(2) d2(2) by auto
  moreover have "(conn_step grow)\<^sup>*\<^sup>* w (drain (drain w))"
    using drain_steps [of grow w] drain_steps [of grow "drain w"] by (rule rtranclp_trans)
  ultimately show ?thesis by blast
qed

theorem send_drains_witness:
  "\<exists>w :: byte list conn_world. (conn_step id)\<^sup>*\<^sup>* w (drain (drain w)) \<and> w_wire (drain (drain w)) = [[1], [2]]
     \<and> \<not> m_sending (w_conn (drain (drain w)))"
proof -
  let ?w = "give [2] (give [1] sample_world)"
  have "reach (conn_init id) (conn_step id) ?w" by (intro reach_give reach_sample)
  then show ?thesis using send_drains [of id ?w] by (intro exI [of _ ?w]) (simp add: give_def sample_world_def)
qed

text \<open>
  After a failed write nothing is retried. The completion closes the socket, drops everything that
  waits and starts no new write.
\<close>

lemma failed_write_stops_sending:
  assumes "reach (conn_init grow) (conn_step grow) w" "c_writes (w_conn w) \<noteq> []" "failed ec"
  shows "\<not> c_open (w_conn (complete_write ec w)) \<and> c_writes (w_conn (complete_write ec w)) = []
    \<and> waiting_elems (m_queue (w_conn (complete_write ec w))) = []
    \<and> get_inactive (m_queue (w_conn (complete_write ec w))) = []
    \<and> \<not> m_sending (w_conn (complete_write ec w))"
  using send_invD [OF conn.reach_inv [OF assms(1)]] assms(2,3)
  by (auto simp: complete_write_def send_defs Let_def dbq.queue_laws)

text \<open>
  C33: \<open>connect\<close> tries the resolved addresses in order and takes the first one that accepts the
  connection and sends a proper greeting. It stores that server's salt and leaves the stream right
  after the greeting with an empty buffer; if there is none it reports \<open>not_connected\<close>. A resolver
  error is passed on. The send queue and the writes in flight are untouched.
\<close>

theorem connect_takes_first_usable:
  assumes "\<not> c_open c" "mb_ok (fst (c_stream c))" "resolve (m_host (c_config c)) = (ec, as)"
  shows "\<exists>ec' c'. connect rd resolve dial c = Inr (ec', c') \<and> same_sender c c'
    \<and> (if failed ec then ec' = ec \<and> c' = c else connect_outcome rd dial (m_port (c_config c)) as (ec', c'))"
proof (cases "failed ec")
  case False
  obtain ec' c' where "connect_loop rd dial as c = (ec', c')" by force
  then show ?thesis using assms(1,3) False connect_loop_outcome [OF assms(2), of rd dial as]
    by (simp add: connect_def connect_loop_same_sender)
qed (use assms in \<open>simp add: connect_def\<close>)

theorem connect_takes_first_usable_witness:
  "\<exists>ec' c'. connect (chunk_reader 9) (\<lambda>h. (no_error, [''down'', ''up''])) sample_dial (w_conn sample_world) = Inr (ec', c')
     \<and> same_sender (w_conn sample_world) c' \<and> ec' = no_error \<and> m_salt c' = replicate 63 0x41 @ [0x0a]
     \<and> snd (c_stream c') = [0xce]"
  using connect_takes_first_usable [of "w_conn sample_world" "\<lambda>h. (no_error, [''down'', ''up''])" no_error
      "[''down'', ''up'']" "chunk_reader 9" sample_dial]
  by (auto simp: sample_world_def Connection_init_def Config_default_def mb_ok_init connect_outcome_def
      usable_def sample_dial_def greeting_hello)

text \<open>
  C34: a connection attempt that failed cannot be repeated. A failed \<open>async_connect\<close> leaves the socket
  it opened open (as its documentation says), and a refused greeting does so too; \<open>connect\<close> does not
  close it, so that the next call fails the assertion \<open>!socket.is_open()\<close>.
\<close>

theorem reconnect_after_failure_aborts:
  assumes "connect rd resolve dial c = Inr (errc not_connected, c')"
    and "resolve (m_host (c_config c)) = (no_error, as)" "as \<noteq> []"
    and "\<forall>a port. fst (snd (dial a port))"
  shows "connect rd' resolve' dial' c' = Inl Assertion_failed"
proof -
  have "connect_loop rd dial as c = (errc not_connected, c')"
    using assms(1,2) by (simp add: connect_def)
  then have "c_open c'" using connect_loop_open [OF assms(3,4), of rd c] by simp
  then show ?thesis by (simp add: connect_def)
qed

theorem reconnect_after_failure_aborts_witness:
  "\<exists>c'. connect (chunk_reader 9) (\<lambda>h. (no_error, [''down''])) sample_dial (w_conn sample_world) = Inr (errc not_connected, c')
     \<and> connect (chunk_reader 9) (\<lambda>h. (no_error, [''up''])) sample_dial c' = Inl Assertion_failed"
proof -
  obtain c' where c: "connect (chunk_reader 9) (\<lambda>h. (no_error, [''down''])) sample_dial (w_conn sample_world)
      = Inr (errc not_connected, c')"
    by (auto simp: connect_def sample_world_def Connection_init_def sample_dial_def Let_def)
  have "\<forall>a port. fst (snd (sample_dial a port))" by (simp add: sample_dial_def)
  from reconnect_after_failure_aborts [OF c _ _ this, of "[''down'']"] c show ?thesis by auto
qed

end
