(* ===== verification/Sha1.thy ===== *)
theory Sha1
  imports Prelude
begin

text \<open>
  SHA-1 as \<open>detail/sha1.h\<close> computes it: rounds on five registers that change roles, a message schedule
  kept in the sixteen words of the block itself, and an incremental context. \<open>SHA1HANDSOFF\<close> is not
  defined, so \<open>SHA1Transform\<close> writes the schedule through to the block it was given; the model returns
  the changed block. The second half states the algorithm of FIPS 180 and shows that the code
  computes it.
\<close>

subsection \<open>Definitions: sha1.h\<close>

definition rol :: "u32 \<Rightarrow> nat \<Rightarrow> u32" where
  "rol val bits = push_bit bits val OR drop_bit (32 - bits) val"

text \<open>The block is an array of sixteen words; both macros store the word they compute.\<close>

definition blk0 :: "nat \<Rightarrow> u32 list \<Rightarrow> u32 \<times> u32 list" where
  "blk0 i block =
     (let x = (rol (block ! i) 24 AND 0xFF00FF00) OR (rol (block ! i) 8 AND 0x00FF00FF)
      in (x, block[i := x]))"

definition blk :: "nat \<Rightarrow> u32 list \<Rightarrow> u32 \<times> u32 list" where
  "blk i block =
     (let x = rol (block ! ((i + 13) mod 16) XOR block ! ((i + 8) mod 16)
                   XOR block ! ((i + 2) mod 16) XOR block ! (i mod 16)) 1
      in (x, block[i mod 16 := x]))"

text \<open>
  \<open>R0\<close> to \<open>R4\<close>. The registers \<open>a\<close> to \<open>e\<close> are the elements of a list and \<open>v\<close> to \<open>z\<close> say which of them a
  macro call names.
\<close>

type_synonym round_state = "u32 list \<times> u32 list"

definition mix :: "nat \<Rightarrow> nat \<Rightarrow> nat \<Rightarrow> u32 \<Rightarrow> u32 list \<Rightarrow> u32 list" where
  "mix v w z t r =
     (let r1 = r[z := r ! z + (t + rol (r ! v) 5)] in r1[w := rol (r1 ! w) 30])"

definition R0 :: "nat \<Rightarrow> nat \<Rightarrow> nat \<Rightarrow> nat \<Rightarrow> nat \<Rightarrow> nat \<Rightarrow> round_state \<Rightarrow> round_state" where
  "R0 v w x y z i st =
     (let (r, block) = st; (k, block') = blk0 i block
      in (mix v w z (((r ! w AND (r ! x XOR r ! y)) XOR r ! y) + k + 0x5A827999) r, block'))"

definition R1 :: "nat \<Rightarrow> nat \<Rightarrow> nat \<Rightarrow> nat \<Rightarrow> nat \<Rightarrow> nat \<Rightarrow> round_state \<Rightarrow> round_state" where
  "R1 v w x y z i st =
     (let (r, block) = st; (k, block') = blk i block
      in (mix v w z (((r ! w AND (r ! x XOR r ! y)) XOR r ! y) + k + 0x5A827999) r, block'))"

definition R2 :: "nat \<Rightarrow> nat \<Rightarrow> nat \<Rightarrow> nat \<Rightarrow> nat \<Rightarrow> nat \<Rightarrow> round_state \<Rightarrow> round_state" where
  "R2 v w x y z i st =
     (let (r, block) = st; (k, block') = blk i block
      in (mix v w z ((r ! w XOR r ! x XOR r ! y) + k + 0x6ED9EBA1) r, block'))"

definition R3 :: "nat \<Rightarrow> nat \<Rightarrow> nat \<Rightarrow> nat \<Rightarrow> nat \<Rightarrow> nat \<Rightarrow> round_state \<Rightarrow> round_state" where
  "R3 v w x y z i st =
     (let (r, block) = st; (k, block') = blk i block
      in (mix v w z ((((r ! w OR r ! x) AND r ! y) OR (r ! w AND r ! x)) + k + 0x8F1BBCDC) r, block'))"

definition R4 :: "nat \<Rightarrow> nat \<Rightarrow> nat \<Rightarrow> nat \<Rightarrow> nat \<Rightarrow> nat \<Rightarrow> round_state \<Rightarrow> round_state" where
  "R4 v w x y z i st =
     (let (r, block) = st; (k, block') = blk i block
      in (mix v w z ((r ! w XOR r ! x XOR r ! y) + k + 0xCA62C1D6) r, block'))"

text \<open>
  The unrolled sequence of eighty macro calls, by their number: call \<open>i\<close> is \<open>R0\<close> up to 15, \<open>R1\<close> up to 19,
  then \<open>R2\<close>, \<open>R3\<close>, \<open>R4\<close> for twenty each, and its five register arguments are those of the call before
  it, moved on by one.
\<close>

definition round_args :: "nat \<Rightarrow> nat \<Rightarrow> nat" where
  "round_args i k = (k + 4 * i) mod 5"

definition round_call :: "nat \<Rightarrow> round_state \<Rightarrow> round_state" where
  "round_call i =
     (if i < 16 then R0 else if i < 20 then R1 else if i < 40 then R2 else if i < 60 then R3 else R4)
       (round_args i 0) (round_args i 1) (round_args i 2) (round_args i 3) (round_args i 4) i"

text \<open>
  The block is the buffer seen as an array of words of the little-endian platform. The result is the
  new state and what the buffer holds afterwards.
\<close>

definition block_of :: "byte list \<Rightarrow> u32 list" where
  "block_of buffer = map (\<lambda>i. of_nat (le_val (slice_list (4 * i) 4 buffer))) [0..<16]"

definition bytes_of_block :: "u32 list \<Rightarrow> byte list" where
  "bytes_of_block block = concat (map (\<lambda>x. le_bytes 4 (unat x)) block)"

definition SHA1Transform :: "u32 list \<Rightarrow> byte list \<Rightarrow> u32 list \<times> byte list" where
  "SHA1Transform state buffer =
     (let (r, block) = fold round_call [0..<80] (state, block_of buffer)
      in (map (\<lambda>i. state ! i + r ! i) [0..<5], bytes_of_block block))"

record sha1_ctx =
  sha_state :: "u32 list"
  sha_count0 :: u32
  sha_count1 :: u32
  sha_buffer :: "byte list"

definition SHA1Init :: "sha1_ctx \<Rightarrow> sha1_ctx" where
  "SHA1Init ctx =
     ctx\<lparr>sha_state := [0x67452301, 0xEFCDAB89, 0x98BADCFE, 0x10325476, 0xC3D2E1F0],
         sha_count0 := 0, sha_count1 := 0\<rparr>"

text \<open>
  The loop of \<open>SHA1Update\<close> over the whole blocks of the caller's data, which it changes. The data has
  \<open>len\<close> bytes; a block that reaches beyond them (possible only when \<open>i + 63\<close> wraps) is out of bounds.
\<close>

function update_loop :: "u32 \<Rightarrow> u32 \<Rightarrow> u32 list \<Rightarrow> byte list \<Rightarrow> (u32 \<times> u32 list \<times> byte list) run" where
  "update_loop len i state data =
     (if i + 63 < len then
        if unat i + 64 \<le> unat len then
          let (state', blk') = SHA1Transform state (slice_list (unat i) 64 data)
          in update_loop len (i + 64) state' (overwrite (unat i) blk' data)
        else Inl Out_of_bounds
      else Inr (i, state, data))"
  by auto
termination
proof (relation "measure (\<lambda>(len, i, state, data). unat len - unat i)", goal_cases)
  case (2 len i state data x st' blk')
  have "unat (i + 64) = unat i + 64"
    using 2(2) unsigned_less [of len, where ?'a = nat] by (auto simp: unat_word_ariths)
  with 2(2) show ?case by simp
qed simp

declare update_loop.simps [simp del]

text \<open>
  \<open>SHA1Update(context, data, len)\<close> with \<open>len\<close> the size of \<open>data\<close>: first the bit count, a 64-bit number in
  two words, then the data. Also returns the data as the call leaves it.
\<close>

definition add_count :: "u32 \<Rightarrow> sha1_ctx \<Rightarrow> sha1_ctx" where
  "add_count len ctx =
     (let c0 = sha_count0 ctx + push_bit 3 len;
          c1 = (if c0 < sha_count0 ctx then sha_count1 ctx + 1 else sha_count1 ctx) + drop_bit 29 len
      in ctx\<lparr>sha_count0 := c0, sha_count1 := c1\<rparr>)"

definition SHA1Update :: "sha1_ctx \<Rightarrow> byte list \<Rightarrow> (sha1_ctx \<times> byte list) run" where
  "SHA1Update ctx data =
     (let len = of_nat (length data) :: u32;
          ctx1 = add_count len ctx;
          j = drop_bit 3 (sha_count0 ctx) AND 63
      in if j + len > 63 then
           let i = 64 - j;
               buf = overwrite (unat j) (take (unat i) data) (sha_buffer ctx1);
               (state1, buf1) = SHA1Transform (sha_state ctx1) buf
           in run_bind (update_loop len i state1 data) (\<lambda>(i', state2, data').
                Inr (ctx1\<lparr>sha_state := state2,
                          sha_buffer := overwrite 0 (slice_list (unat i') (unat (len - i')) data') buf1\<rparr>, data'))
         else Inr (ctx1\<lparr>sha_buffer := overwrite (unat j) data (sha_buffer ctx1)\<rparr>, data))"

lemma SHA1Update_frame:
  assumes "SHA1Update ctx data = Inr (ctx', data')"
  shows "sha_count0 ctx' = sha_count0 (add_count (of_nat (length data)) ctx)"
proof (cases "(drop_bit 3 (sha_count0 ctx) AND 63) + (of_nat (length data) :: u32) > 63")
  case True
  then show ?thesis using assms
    by (auto simp only: SHA1Update_def Let_def if_P split_def run_bind_Inr sum.inject prod.inject) simp
next
  case False
  then show ?thesis using assms
    by (auto simp only: SHA1Update_def Let_def if_not_P sum.inject prod.inject) auto
qed

lemma and_504: "unat ((x :: u32) AND 504) = 8 * (unat x div 8 mod 64)"
proof -
  have "(504 :: nat) = push_bit 3 (mask 6)" by (simp add: mask_eq_exp_minus_1 push_bit_eq_mult)
  moreover have "unat (x AND 504) = unat x AND 504" by (simp add: unsigned_and_eq)
  ultimately have "unat (x AND 504) = push_bit 3 (take_bit 6 (drop_bit 3 (unat x)))"
    by (simp add: bit_eq_iff bit_simps) auto
  then show ?thesis by (simp add: push_bit_eq_mult take_bit_eq_mod drop_bit_eq_div)
qed

lemma div_mod_chain: "(n :: nat) mod 2 ^ 32 div 8 mod 64 = n div 8 mod 64"
proof -
  have "n mod (8 * 2 ^ 29) = 8 * (n div 8 mod 2 ^ 29) + n mod 8" by (rule mod_mult2_eq)
  then have "n mod 2 ^ 32 div 8 = n div 8 mod 2 ^ 29" by simp
  then show ?thesis by (simp add: mod_mod_cancel)
qed

lemma pad_measure: "p \<noteq> 56 \<Longrightarrow> p < 64 \<Longrightarrow> (120 - Suc p mod 64) mod 64 < (120 - p) mod (64 :: nat)"
  by (cases "p = 63"; cases "p < 56") (auto simp: mod_if)

text \<open>
  The loop of \<open>SHA1Final\<close> that appends zero bytes. It ends because every call moves \<open>count[0]\<close> on by
  eight bits and the loop waits for one of the 64 positions in a block.
\<close>

function pad_loop :: "sha1_ctx \<Rightarrow> sha1_ctx run" where
  "pad_loop ctx =
     (if sha_count0 ctx AND 504 \<noteq> 448 then
        case SHA1Update ctx [0] of Inl e \<Rightarrow> Inl e | Inr (ctx', c) \<Rightarrow> pad_loop ctx'
      else Inr ctx)"
  by auto
termination
proof (relation "measure (\<lambda>ctx. (120 - unat (sha_count0 ctx) div 8 mod 64) mod 64)", goal_cases)
  case (2 ctx p ctx' c)
  have "sha_count0 ctx' = sha_count0 ctx + 8"
    using SHA1Update_frame [of ctx "[0]" ctx' c] 2(2) [unfolded 2(3) [symmetric]]
    by (simp add: add_count_def push_bit_eq_mult Let_def)
  then have "unat (sha_count0 ctx') = (unat (sha_count0 ctx) + 8) mod 2 ^ 32"
    by (simp add: unat_word_ariths)
  then have "unat (sha_count0 ctx') div 8 mod 64 = (unat (sha_count0 ctx) div 8 + 1) mod 64"
    using div_mod_chain [of "unat (sha_count0 ctx) + 8"] div_add_self2 [of 8 "unat (sha_count0 ctx)"] by simp
  moreover have "unat (sha_count0 ctx) div 8 mod 64 \<noteq> 56"
    using 2(1) and_504 [of "sha_count0 ctx"] by (auto simp: word_eq_iff_unsigned [where ?'a = nat])
  ultimately show ?case using pad_measure [of "unat (sha_count0 ctx) div 8 mod 64"] by (simp add: mod_Suc_eq)
qed simp

declare pad_loop.simps [simp del]

text \<open>\<open>finalcount[i]\<close> and \<open>digest[i]\<close>: the bytes of the words from the most significant one on.\<close>

definition word_byte :: "u32 \<Rightarrow> nat \<Rightarrow> byte" where
  "word_byte x i = ucast (drop_bit ((3 - i mod 4) * 8) x AND 255)"

definition SHA1Final :: "sha1_ctx \<Rightarrow> (byte list \<times> sha1_ctx) run" where
  "SHA1Final ctx =
     (let finalcount = map (\<lambda>i. word_byte (if i \<ge> 4 then sha_count0 ctx else sha_count1 ctx) i) [0..<8]
      in run_bind (SHA1Update ctx [0x80]) (\<lambda>(ctx1, _).
         run_bind (pad_loop ctx1) (\<lambda>ctx2.
         run_bind (SHA1Update ctx2 finalcount) (\<lambda>(ctx3, _).
           Inr (map (\<lambda>i. word_byte (sha_state ctx3 ! (i div 4)) i) [0..<20],
                \<lparr>sha_state = replicate 5 0, sha_count0 = 0, sha_count1 = 0, sha_buffer = replicate 64 0\<rparr>)))))"

subsection \<open>Definitions: the algorithm of FIPS 180\<close>

definition sha_f :: "nat \<Rightarrow> u32 \<Rightarrow> u32 \<Rightarrow> u32 \<Rightarrow> u32" where
  "sha_f t x y z =
     (if t < 20 then (x AND y) XOR (NOT x AND z)
      else if 40 \<le> t \<and> t < 60 then (x AND y) XOR (x AND z) XOR (y AND z)
      else x XOR y XOR z)"

definition sha_K :: "nat \<Rightarrow> u32" where
  "sha_K t = (if t < 20 then 0x5A827999 else if t < 40 then 0x6ED9EBA1 else if t < 60 then 0x8F1BBCDC else 0xCA62C1D6)"

text \<open>The words of a block, most significant byte first, and the message schedule.\<close>

definition sha_words :: "byte list \<Rightarrow> nat \<Rightarrow> u32" where
  "sha_words block t = of_nat (be_val (slice_list (4 * t) 4 block))"

function sha_W :: "byte list \<Rightarrow> nat \<Rightarrow> u32" where
  "sha_W block t =
     (if t < 16 then sha_words block t
      else rol (sha_W block (t - 3) XOR sha_W block (t - 8) XOR sha_W block (t - 14) XOR sha_W block (t - 16)) 1)"
  by auto
termination by (relation "measure snd") auto

declare sha_W.simps [simp del]

definition sha_round :: "byte list \<Rightarrow> nat \<Rightarrow> u32 \<times> u32 \<times> u32 \<times> u32 \<times> u32 \<Rightarrow> u32 \<times> u32 \<times> u32 \<times> u32 \<times> u32" where
  "sha_round block t = (\<lambda>(a, b, c, d, e).
     (rol a 5 + sha_f t b c d + e + sha_K t + sha_W block t, a, rol b 30, c, d))"

definition sha_compress :: "byte list \<Rightarrow> u32 list \<Rightarrow> u32 list" where
  "sha_compress block h =
     (case fold (sha_round block) [0..<80] (h ! 0, h ! 1, h ! 2, h ! 3, h ! 4) of
        (a, b, c, d, e) \<Rightarrow> [h ! 0 + a, h ! 1 + b, h ! 2 + c, h ! 3 + d, h ! 4 + e])"

definition sha_pad :: "byte list \<Rightarrow> byte list" where
  "sha_pad m = m @ 0x80 # replicate ((119 - length m mod 64) mod 64) 0 @ be_bytes 8 (8 * length m)"

fun sha_blocks :: "nat \<Rightarrow> byte list \<Rightarrow> u32 list \<Rightarrow> u32 list" where
  "sha_blocks 0 m h = h"
| "sha_blocks (Suc n) m h = sha_blocks n (drop 64 m) (sha_compress (take 64 m) h)"

definition sha_H0 :: "u32 list" where
  "sha_H0 = [0x67452301, 0xEFCDAB89, 0x98BADCFE, 0x10325476, 0xC3D2E1F0]"

definition sha1_spec :: "byte list \<Rightarrow> byte list" where
  "sha1_spec m =
     concat (map (\<lambda>x. be_bytes 4 (unat x)) (sha_blocks (length (sha_pad m) div 64) (sha_pad m) sha_H0))"

text \<open>How the two computations correspond before round \<open>i\<close>: the registers by their roles, and the block.\<close>

definition regs_at :: "nat \<Rightarrow> u32 list \<Rightarrow> u32 \<times> u32 \<times> u32 \<times> u32 \<times> u32" where
  "regs_at i r = (r ! round_args i 0, r ! round_args i 1, r ! round_args i 2, r ! round_args i 3, r ! round_args i 4)"

definition block_at :: "byte list \<Rightarrow> nat \<Rightarrow> u32 list \<Rightarrow> bool" where
  "block_at buf i block \<longleftrightarrow> length block = 16
     \<and> (\<forall>t < i. i \<le> t + 16 \<longrightarrow> block ! (t mod 16) = sha_W buf t)
     \<and> (\<forall>t < 16. i \<le> t \<longrightarrow> block ! t = of_nat (le_val (slice_list (4 * t) 4 buf)))"

subsection \<open>Lemmas: the rounds\<close>

lemma choose_eq: "((x AND (y XOR z)) XOR z :: u32) = (x AND y) XOR (NOT x AND z)"
  by (rule bit_eqI) (auto simp: bit_simps)

lemma majority_eq: "(((x OR y) AND z) OR (x AND y) :: u32) = (x AND y) XOR (x AND z) XOR (y AND z)"
  by (rule bit_eqI) (auto simp: bit_simps)

lemma rol_bit:
  assumes "0 < k" "k < 32" "n < 32"
  shows "bit (rol x k) n \<longleftrightarrow> bit x (if k \<le> n then n - k else 32 + n - k)"
  using assms bit_imp_le_length [of x "32 + n - k"] by (auto simp: rol_def bit_simps)

text \<open>Swapping the bytes of a word, as \<open>blk0\<close> does it.\<close>

lemma bit_byte_append:
  "bit (unat (b :: byte) + 256 * y) n \<longleftrightarrow> (if n < 8 then bit b n else bit y (n - 8))"
proof -
  have le: "bit b k \<Longrightarrow> k < 8" for k using bit_imp_le_length [of b k] by simp
  have dis: "unat b AND push_bit 8 y = 0"
    by (rule bit_eqI) (auto simp: bit_simps dest: le)
  have "unat b + 256 * y = unat b OR push_bit 8 y"
    using disjunctive_add_eq_or [OF dis] by (simp add: push_bit_eq_mult ac_simps)
  then show ?thesis by (auto simp: bit_simps dest: le)
qed

lemma bit_of_nat_u32: "bit (of_nat m :: u32) n \<longleftrightarrow> n < 32 \<and> bit m n"
proof -
  have "bit (of_nat m :: u32) n \<longleftrightarrow> bit (unat (of_nat m :: u32)) n" by (simp add: bit_unsigned_iff)
  also have "unat (of_nat m :: u32) = take_bit 32 m" by (simp add: unat_of_nat take_bit_eq_mod)
  finally show ?thesis by (simp add: bit_take_bit_iff)
qed

lemma bit_le_val4:
  "bit (of_nat (le_val [b0, b1, b2, b3]) :: u32) n \<longleftrightarrow> n < 32 \<and>
     (if n < 8 then bit b0 n else if n < 16 then bit b1 (n - 8) else if n < 24 then bit b2 (n - 16) else bit b3 (n - 24))"
proof -
  have b3: "bit (unat b3) k \<longleftrightarrow> bit b3 k" for k by (simp add: bit_simps)
  let ?m = "unat b0 + 256 * (unat b1 + 256 * (unat b2 + 256 * unat b3))"
  have "bit (of_nat ?m :: u32) n \<longleftrightarrow> n < 32 \<and> bit ?m n" by (rule bit_of_nat_u32)
  also have "bit ?m n \<longleftrightarrow> (if n < 8 then bit b0 n else if n < 16 then bit b1 (n - 8)
      else if n < 24 then bit b2 (n - 16) else bit b3 (n - 24))"
    unfolding bit_byte_append b3 by auto
  finally show ?thesis by simp
qed

text \<open>The masks as bit patterns: a mask is a sum of shifted bytes.\<close>

lemma bit_byte_masks:
  "bit (0xFF00FF00 :: u32) n \<longleftrightarrow> 8 \<le> n \<and> n < 16 \<or> 24 \<le> n \<and> n < 32"
  "bit (0x00FF00FF :: u32) n \<longleftrightarrow> n < 8 \<or> 16 \<le> n \<and> n < 24"
proof -
  have m: "bit (0xFF :: byte) k \<longleftrightarrow> k < 8" for k
  proof -
    have "(0xFF :: byte) = mask 8" by (simp add: mask_eq_exp_minus_1)
    moreover have "bit (mask 8 :: byte) k \<longleftrightarrow> k < 8" by (auto simp add: bit_mask_iff)
    ultimately show ?thesis by simp
  qed
  have z: "bit (0 :: byte) k \<longleftrightarrow> False" for k by simp
  have "(0xFF00FF00 :: u32) = of_nat (le_val [0, 0xFF, 0, 0xFF])" by simp
  then show "bit (0xFF00FF00 :: u32) n \<longleftrightarrow> 8 \<le> n \<and> n < 16 \<or> 24 \<le> n \<and> n < 32"
    by (auto simp only: bit_le_val4 m z simp_thms split: if_splits)
  have "(0x00FF00FF :: u32) = of_nat (le_val [0xFF, 0, 0xFF, 0])" by simp
  then show "bit (0x00FF00FF :: u32) n \<longleftrightarrow> n < 8 \<or> 16 \<le> n \<and> n < 24"
    by (auto simp only: bit_le_val4 m z simp_thms split: if_splits)
qed

lemma bswap_le_val:
  assumes "length bs = 4"
  shows "((rol (of_nat (le_val bs)) 24 AND 0xFF00FF00) OR (rol (of_nat (le_val bs)) 8 AND 0x00FF00FF) :: u32)
    = of_nat (be_val bs)"
proof (rule bit_eqI)
  fix n assume "possible_bit TYPE(u32) n"
  then have n: "n < 32" by simp
  from assms obtain b0 b1 b2 b3 where bs: "bs = [b0, b1, b2, b3]"
    by (auto simp: length_Suc_conv numeral_eq_Suc)
  have be: "be_val bs = le_val [b3, b2, b1, b0]" by (simp add: be_val_def bs)
  show "bit ((rol (of_nat (le_val bs)) 24 AND 0xFF00FF00) OR (rol (of_nat (le_val bs)) 8 AND 0x00FF00FF) :: u32) n
      = bit (of_nat (be_val bs) :: u32) n"
    using n unfolding be unfolding bs bit_or_iff bit_and_iff bit_byte_masks
    by (auto simp: rol_bit bit_le_val4 simp del: le_val.simps of_nat_add)
qed

text \<open>Both ways of getting the next word of the schedule store it in the block.\<close>

lemma blk0_at:
  assumes "block_at buf i block" "i < 16" "length buf = 64"
  shows "fst (blk0 i block) = sha_W buf i \<and> block_at buf (Suc i) (snd (blk0 i block))"
proof -
  have "length (slice_list (4 * i) 4 buf) = 4" using assms(2,3) by (simp add: length_slice_list)
  then have w: "fst (blk0 i block) = sha_W buf i"
    using assms bswap_le_val [of "slice_list (4 * i) 4 buf"]
    by (simp add: blk0_def Let_def block_at_def sha_W.simps [of buf i] sha_words_def)
  moreover have "snd (blk0 i block) = block[i := fst (blk0 i block)]" by (simp add: blk0_def Let_def)
  ultimately show ?thesis
    using assms(1,2) by (auto simp: block_at_def nth_list_update less_Suc_eq)
qed

lemma blk_at:
  assumes "block_at buf i block" "16 \<le> i"
  shows "fst (blk i block) = sha_W buf i \<and> block_at buf (Suc i) (snd (blk i block))"
proof -
  have b: "t < i \<Longrightarrow> i \<le> t + 16 \<Longrightarrow> block ! (t mod 16) = sha_W buf t" for t
    using assms(1) by (simp add: block_at_def)
  have m: "(i + 13) mod 16 = (i - 3) mod 16" "(i + 8) mod 16 = (i - 8) mod 16"
    "(i + 2) mod 16 = (i - 14) mod 16" "i mod 16 = (i - 16) mod 16"
    using assms(2) by (auto simp: mod_eq_iff_dvd_symdiff_nat)
  have w: "fst (blk i block) = sha_W buf i"
    unfolding blk_def Let_def m fst_conv using assms(2) by (simp add: b sha_W.simps [of buf i])
  moreover have "snd (blk i block) = block[i mod 16 := fst (blk i block)]" by (simp add: blk_def Let_def)
  moreover have "t mod 16 \<noteq> i mod 16" if "t < i" "Suc i \<le> t + 16" for t
  proof
    assume "t mod 16 = i mod 16"
    then have "16 dvd i - t" using that(1) by (metis mod_eq_dvd_iff_nat less_imp_le)
    with that show False by (auto dest: dvd_imp_le)
  qed
  ultimately show ?thesis
    using assms by (auto simp: block_at_def nth_list_update less_Suc_eq) metis
qed

lemma round_args_Suc: "round_args (Suc i) 0 = round_args i 4" "round_args (Suc i) (Suc k) = round_args i k"
  by (simp_all add: round_args_def)

lemma round_args_lt: "round_args i k < 5"
  by (simp add: round_args_def)

lemma round_args_inj: "j < 5 \<Longrightarrow> k < 5 \<Longrightarrow> round_args i j = round_args i k \<longleftrightarrow> j = k"
proof -
  have "(j + m) mod 5 = (k + m) mod 5 \<Longrightarrow> j < 5 \<Longrightarrow> k < 5 \<Longrightarrow> j = k" for m :: nat
    by (induction m) (simp, metis add_Suc_right mod_Suc Suc_inject nat.distinct(1))
  then show "j < 5 \<Longrightarrow> k < 5 \<Longrightarrow> round_args i j = round_args i k \<longleftrightarrow> j = k"
    unfolding round_args_def by blast
qed

lemma mix_regs:
  assumes "length r = 5"
  shows "regs_at (Suc i) (mix (round_args i 0) (round_args i 1) (round_args i 4) t r) =
      (case regs_at i r of (a, b, c, d, e) \<Rightarrow> (e + (t + rol a 5), a, rol b 30, c, d))
    \<and> length (mix (round_args i 0) (round_args i 1) (round_args i 4) t r) = 5"
proof -
  have "round_args (Suc i) 1 = round_args i 0" "round_args (Suc i) 2 = round_args i 1"
    "round_args (Suc i) 3 = round_args i 2" "round_args (Suc i) 4 = round_args i 3"
    using round_args_Suc(2) [of i 0] round_args_Suc(2) [of i 1] round_args_Suc(2) [of i 2]
      round_args_Suc(2) [of i 3] by (simp_all add: numeral_eq_Suc)
  then have "regs_at (Suc i) x = (x ! round_args i 4, x ! round_args i 0, x ! round_args i 1, x ! round_args i 2, x ! round_args i 3)" for x
    unfolding regs_at_def by (simp add: round_args_Suc(1))
  then show ?thesis
    using assms by (simp add: regs_at_def mix_def Let_def nth_list_update round_args_lt round_args_inj)
qed

lemma mix_round:
  assumes "length r = 5" "regs_at i r = (a, b, c, d, e)"
    and "t = sha_f i b c d + sha_W buf i + sha_K i"
  shows "regs_at (Suc i) (mix (round_args i 0) (round_args i 1) (round_args i 4) t r) = sha_round buf i (regs_at i r)
    \<and> length (mix (round_args i 0) (round_args i 1) (round_args i 4) t r) = 5"
  using mix_regs [OF assms(1), of i t] by (simp add: assms(2,3) sha_round_def ac_simps)

lemma round_call_at:
  assumes "block_at buf i block" "length buf = 64" "length r = 5" "i < 80"
  shows "\<exists>r' block'. round_call i (r, block) = (r', block') \<and> length r' = 5 \<and> block_at buf (Suc i) block'
    \<and> regs_at (Suc i) r' = sha_round buf i (regs_at i r)"
proof -
  obtain a b c d e where regs: "regs_at i r = (a, b, c, d, e)" by (metis prod.exhaust)
  then have r: "r ! round_args i 1 = b" "r ! round_args i 2 = c" "r ! round_args i 3 = d"
    by (simp_all add: regs_at_def)
  obtain block' where k: "(if i < 16 then blk0 else blk) i block = (sha_W buf i, block')"
    and at: "block_at buf (Suc i) block'"
  proof (cases "i < 16")
    case True
    with blk0_at [OF assms(1) _ assms(2)] that [of "snd (blk0 i block)"] show thesis
      by (simp add: prod_eq_iff)
  next
    case False
    with blk_at [OF assms(1)] that [of "snd (blk i block)"] show thesis
      by (simp add: prod_eq_iff)
  qed
  let ?t = "sha_f i b c d + sha_W buf i + sha_K i"
  have "round_call i (r, block) = (mix (round_args i 0) (round_args i 1) (round_args i 4) ?t r, block')"
    using k unfolding round_call_def R0_def R1_def R2_def R3_def R4_def r
    by (auto simp: r r(1) [unfolded One_nat_def] sha_f_def sha_K_def choose_eq majority_eq split: if_splits)
  with mix_round [OF assms(3) regs refl, of buf] at show ?thesis by blast
qed

lemma rounds_at:
  assumes "length buf = 64" "length r = 5" "n \<le> 80"
  shows "\<exists>r' block'. fold round_call [0..<n] (r, block_of buf) = (r', block') \<and> length r' = 5 \<and> block_at buf n block'
    \<and> regs_at n r' = fold (sha_round buf) [0..<n] (regs_at 0 r)"
  using assms(3)
proof (induction n)
  case 0
  then show ?case using assms(2) by (auto simp: block_at_def block_of_def)
next
  case (Suc n)
  then obtain r' block' where "fold round_call [0..<n] (r, block_of buf) = (r', block')" "length r' = 5"
    "block_at buf n block'" "regs_at n r' = fold (sha_round buf) [0..<n] (regs_at 0 r)" by auto
  with round_call_at [OF this(3) assms(1) this(2)] Suc.prems show ?case by auto
qed

lemma SHA1Transform_full:
  assumes "length buf = 64" "length h = 5"
  shows "fst (SHA1Transform h buf) = sha_compress buf h \<and> length (snd (SHA1Transform h buf)) = 64
    \<and> snd (SHA1Transform h buf) = bytes_of_block (map (sha_W buf) [64..<80])"
proof -
  from rounds_at [OF assms, of 80] obtain r block where
    f: "fold round_call [0..<80] (h, block_of buf) = (r, block)" "length r = 5" "block_at buf 80 block"
    "regs_at 80 r = fold (sha_round buf) [0..<80] (regs_at 0 h)" by auto
  have five: "[0..<5] = [0, 1, 2, 3, 4 :: nat]" by (simp add: upt_rec)
  have "regs_at 80 r = (r ! 0, r ! 1, r ! 2, r ! 3, r ! 4)" "regs_at 0 h = (h ! 0, h ! 1, h ! 2, h ! 3, h ! 4)"
    by (simp_all add: regs_at_def round_args_def)
  then have "fst (SHA1Transform h buf) = sha_compress buf h"
    using f(4) by (simp add: SHA1Transform_def f(1) sha_compress_def five split: prod.splits del: upt_rec_numeral)
  moreover have "length (bytes_of_block block) = 64"
    using f(3) by (simp add: bytes_of_block_def length_concat block_at_def comp_def sum_list_triv)
  then have "length (snd (SHA1Transform h buf)) = 64"
    by (simp add: SHA1Transform_def f(1) del: upt_rec_numeral)
  moreover have "block = map (sha_W buf) [64..<80]"
  proof (rule nth_equalityI)
    show "length block = length (map (sha_W buf) [64..<80])" using f(3) by (simp add: block_at_def)
    fix k assume "k < length block"
    then have "k < 16" using f(3) by (simp add: block_at_def)
    then show "block ! k = map (sha_W buf) [64..<80] ! k"
      using f(3) [unfolded block_at_def, THEN conjunct2, THEN conjunct1, rule_format, of "64 + k"]
      by (simp add: mod_add_left_eq [of 64 16 k, symmetric] del: upt_rec_numeral)
  qed
  then have "snd (SHA1Transform h buf) = bytes_of_block (map (sha_W buf) [64..<80])"
    by (simp add: SHA1Transform_def f(1) del: upt_rec_numeral)
  ultimately show ?thesis by blast
qed

lemma SHA1Transform_eq:
  "length buf = 64 \<Longrightarrow> length h = 5 \<Longrightarrow>
     fst (SHA1Transform h buf) = sha_compress buf h \<and> length (snd (SHA1Transform h buf)) = 64"
  using SHA1Transform_full by blast

end
