(* ===== verification/Sha1_Context.thy ===== *)
theory Sha1_Context
  imports Sha1
begin

text \<open>
  The incremental part of \<open>detail/sha1.h\<close>: that \<open>SHA1Init\<close>, any \<open>SHA1Update\<close> calls and \<open>SHA1Final\<close>
  give the digest FIPS 180 defines for the bytes taken in, and what the calls do to the bytes they
  were given.
\<close>

subsection \<open>Definitions\<close>

text \<open>A context that has taken in the bytes \<open>m\<close>.\<close>

definition sha_inv :: "sha1_ctx \<Rightarrow> byte list \<Rightarrow> bool" where
  "sha_inv ctx m \<longleftrightarrow> sha_state ctx = sha_blocks (length m div 64) m sha_H0 \<and> length (sha_buffer ctx) = 64
     \<and> take (length m mod 64) (sha_buffer ctx) = drop (64 * (length m div 64)) m
     \<and> unat (sha_count0 ctx) + 2 ^ 32 * unat (sha_count1 ctx) = 8 * length m mod 2 ^ 64"

text \<open>Taking in the parts of a message one after the other.\<close>

fun update_all :: "byte list list \<Rightarrow> sha1_ctx \<Rightarrow> sha1_ctx run" where
  "update_all [] ctx = Inr ctx"
| "update_all (part # parts) ctx = run_bind (SHA1Update ctx part) (\<lambda>(ctx', part'). update_all parts ctx')"

subsection \<open>Lemmas: the context\<close>

lemma length_sha_compress: "length (sha_compress block h) = 5"
  by (simp add: sha_compress_def split: prod.splits)

lemma length_sha_blocks: "length h = 5 \<Longrightarrow> length (sha_blocks n m h) = 5"
  by (induction n arbitrary: m h) (simp_all add: length_sha_compress)

lemma sha_blocks_add: "sha_blocks (a + b) m h = sha_blocks b (drop (64 * a) m) (sha_blocks a m h)"
  by (induction a arbitrary: m h) (simp_all add: add.commute)

lemma sha_blocks_append: "64 * n \<le> length m \<Longrightarrow> sha_blocks n (m @ x) h = sha_blocks n m h"
  by (induction n arbitrary: m h) simp_all

lemma update_loop_ok:
  assumes "len = of_nat (length data)" "length data + 64 < 2 ^ 32" "unat i \<le> length data" "length h = 5"
  shows "\<exists>i' data'. update_loop len i h data = Inr (i', sha_blocks ((length data - unat i) div 64) (drop (unat i) data) h, data')
    \<and> unat i' = unat i + 64 * ((length data - unat i) div 64) \<and> length data' = length data
    \<and> take (unat i) data' = take (unat i) data \<and> drop (unat i') data' = drop (unat i') data
    \<and> (unat i + 64 \<le> length data \<longrightarrow> slice_list (unat i) 64 data' = snd (SHA1Transform h (slice_list (unat i) 64 data)))"
  using assms
proof (induction len i h data rule: update_loop.induct)
  case (1 len i h data)
  have len: "unat len = length data" using 1(2,3) by (simp add: unat_of_nat)
  have i63: "i + 63 < len \<longleftrightarrow> unat i + 64 \<le> length data"
    using 1(3,4) len by (auto simp: word_less_nat_alt unat_word_ariths)
  show ?case
  proof (cases "unat i + 64 \<le> length data")
    case False
    then show ?thesis using i63 1(4) by (simp add: update_loop.simps [of len])
  next
    case True
    let ?blk = "slice_list (unat i) 64 data" and ?n = "(length data - unat (i + 64)) div 64"
    obtain h1 b1 where t: "SHA1Transform h ?blk = (h1, b1)" by force
    have "length ?blk = 64" using True by (simp add: length_slice_list)
    from SHA1Transform_eq [OF this 1(5)] have h1: "h1 = sha_compress ?blk h" "length b1 = 64" by (simp_all add: t)
    let ?d1 = "overwrite (unat i) b1 data"
    have ui: "unat (i + 64) = unat i + 64" using True 1(3) by (auto simp: unat_word_ariths)
    have ld: "length ?d1 = length data" using True h1(2) by simp
    from 1(1) [OF _ _ t [symmetric] refl] True i63 len h1 1(2,3) ui ld length_sha_compress
    obtain i' data' where r: "update_loop len (i + 64) h1 ?d1 = Inr (i', sha_blocks ?n (drop (unat i + 64) ?d1) h1, data')"
      "unat i' = unat i + 64 + 64 * ?n" "length data' = length data" "take (unat i + 64) data' = take (unat i + 64) ?d1"
      "drop (unat i') data' = drop (unat i') ?d1" by auto
    have keep: "unat i + 64 \<le> k \<Longrightarrow> drop k ?d1 = drop k data" for k
      using True h1(2) by (simp add: overwrite_def)
    have n: "(length data - unat i) div 64 = Suc ?n" using True ui by (simp add: le_div_geq)
    have d1: "take (unat i + 64) ?d1 = take (unat i) data @ b1" using True h1(2) by (simp add: overwrite_def)
    have "take (unat i) data' = take (unat i) (take (unat i + 64) data')" by simp
    also have "\<dots> = take (unat i) data" unfolding r(4) d1 using True by simp
    finally have pre: "take (unat i) data' = take (unat i) data" .
    have "slice_list (unat i) 64 data' = drop (unat i) (take (unat i + 64) data')"
      by (simp add: slice_list_def drop_take add.commute)
    also have "\<dots> = b1" unfolding r(4) d1 using True by simp
    finally have blk: "slice_list (unat i) 64 data' = b1" .
    have "update_loop len i h data = Inr (i', sha_blocks ?n (drop (unat i + 64) ?d1) h1, data')"
      using True i63 len t r(1) by (simp add: update_loop.simps [of len i])
    moreover have "sha_blocks ?n (drop (unat i + 64) ?d1) h1 = sha_blocks (Suc ?n) (drop (unat i) data) h"
      by (simp add: keep h1(1) slice_list_def add.commute)
    ultimately show ?thesis using r pre blk t n keep [of "unat i'"] by simp
  qed
qed

lemma two_digits: "(c0 :: nat) < b \<Longrightarrow> c0 + b * (c1 mod b) = (c0 + b * c1) mod (b * b)"
  using mod_mult2_eq [of "c0 + b * c1" b b] by simp

text \<open>The bit count, and the position in the block that follows from it.\<close>

lemma add_count_ok:
  assumes "unat (sha_count0 ctx) + 2 ^ 32 * unat (sha_count1 ctx) = x mod 2 ^ 64"
  shows "unat (sha_count0 (add_count len ctx)) + 2 ^ 32 * unat (sha_count1 (add_count len ctx))
    = (x + 8 * unat len) mod 2 ^ 64"
proof -
  let ?a = "unat (sha_count0 ctx)" and ?b = "unat (sha_count1 ctx)" and ?l = "8 * unat len mod 2 ^ 32"
  let ?carry = "if ?a + ?l < 2 ^ 32 then 0 else 1 :: nat"
  have a: "?a < 2 ^ 32" using unsigned_less [of "sha_count0 ctx", where ?'a = nat] by simp
  have push: "unat (push_bit 3 len) = ?l" by (simp add: push_bit_eq_mult unat_word_ariths mult.commute)
  have c0: "unat (sha_count0 ctx + push_bit 3 len) = ?a + ?l - 2 ^ 32 * ?carry"
  proof -
    have "unat (sha_count0 ctx + push_bit 3 len) = (?a + ?l) mod 2 ^ 32"
      by (simp add: unat_word_ariths push)
    moreover have "?l < 2 ^ 32" by simp
    ultimately show ?thesis using a by (cases "?a + ?l < 2 ^ 32") (simp_all add: le_mod_geq)
  qed
  have less: "sha_count0 ctx + push_bit 3 len < sha_count0 ctx \<longleftrightarrow> ?carry = 1"
    using c0 a by (auto simp: word_less_nat_alt)
  have "unat (drop_bit 29 len) = unat len div 2 ^ 29" by (simp add: drop_bit_eq_div unat_div_distrib)
  then have c1: "unat (sha_count1 (add_count len ctx)) = (?b + ?carry + unat len div 2 ^ 29) mod 2 ^ 32"
    using less by (simp add: add_count_def Let_def unat_word_ariths mod_simps split: if_splits)
  have len: "8 * unat len = ?l + 2 ^ 32 * (unat len div 2 ^ 29)"
    using div_mult_mod_eq [of "8 * unat len" "2 ^ 32"] div_mult_mult1 [of 8 "unat len" "2 ^ 29"] by simp
  let ?c0 = "?a + ?l - 2 ^ 32 * ?carry" and ?c1 = "?b + ?carry + unat len div 2 ^ 29"
  have lt: "?c0 < 2 ^ 32" using c0 unsigned_less [of "sha_count0 ctx + push_bit 3 len", where ?'a = nat] by simp
  have "?c0 + 2 ^ 32 * (?c1 mod 2 ^ 32) = (?c0 + 2 ^ 32 * ?c1) mod 2 ^ 64"
    using two_digits [OF lt, of ?c1] by (simp only: power_add [symmetric]) simp
  also have "?c0 + 2 ^ 32 * ?c1 = x mod 2 ^ 64 + 8 * unat len" using assms len by auto
  finally have "?c0 + 2 ^ 32 * (?c1 mod 2 ^ 32) = (x + 8 * unat len) mod 2 ^ 64" by (simp only: mod_add_left_eq)
  moreover have "sha_count0 (add_count len ctx) = sha_count0 ctx + push_bit 3 len"
    by (simp add: add_count_def Let_def)
  ultimately show ?thesis using c0 c1 by metis
qed

lemma and_63: "(n :: nat) AND 63 = n mod 64"
proof -
  have "n AND mask 6 = n mod 2 ^ 6" by (simp only: take_bit_eq_mask [symmetric] take_bit_eq_mod)
  then show ?thesis by (simp add: mask_eq_exp_minus_1)
qed

lemma block_position: "unat (drop_bit 3 (x :: u32) AND 63) = unat x div 8 mod 64"
  by (simp add: and_63 unsigned_and_eq drop_bit_eq_div unat_div_distrib)

lemma pad_step: "p \<noteq> 56 \<Longrightarrow> p < 64 \<Longrightarrow> Suc ((120 - Suc p mod 64) mod 64) = (120 - p) mod (64 :: nat)"
  by (cases "p = 63"; cases "p < 56") (auto simp: le_mod_geq)

lemma sha_inv_pos:
  assumes "sha_inv ctx m"
  shows "unat (drop_bit 3 (sha_count0 ctx) AND 63) = length m mod 64"
proof -
  have c: "unat (sha_count0 ctx) = 8 * length m mod 2 ^ 32"
  proof -
    have "unat (sha_count0 ctx) = (unat (sha_count0 ctx) + 2 ^ 32 * unat (sha_count1 ctx)) mod 2 ^ 32"
      using unsigned_less [of "sha_count0 ctx", where ?'a = nat] by simp
    also have "\<dots> = 8 * length m mod 2 ^ 64 mod 2 ^ 32" using assms unfolding sha_inv_def by presburger
    also have "\<dots> = 8 * length m mod 2 ^ 32" by (simp add: mod_mod_cancel)
    finally show ?thesis .
  qed
  then show ?thesis using div_mod_chain [of "8 * length m"] by (simp add: block_position)
qed

text \<open>Taking in the rest of a block and then whole blocks, as two list equations.\<close>

lemma sha_blocks_split:
  assumes j: "j = length m mod 64" and full: "64 \<le> j + length data"
  shows "sha_blocks (length (m @ data) div 64) (m @ data) h =
    sha_blocks ((length data - (64 - j)) div 64) (drop (64 - j) data)
      (sha_compress (drop (64 * (length m div 64)) m @ take (64 - j) data) (sha_blocks (length m div 64) m h))"
    and "length (m @ data) mod 64 = (length data - (64 - j)) mod 64"
    and "drop (64 * (length (m @ data) div 64)) (m @ data)
      = drop (64 - j + 64 * ((length data - (64 - j)) div 64)) data"
proof -
  let ?a = "length m div 64" and ?r = "length data - (64 - j)"
  have m: "length m = 64 * ?a + j" using j by simp
  have jl: "j < 64" using j by simp
  have len: "length (m @ data) = 64 * (?a + 1) + ?r" using m full jl by simp
  have dv: "length (m @ data) div 64 = ?a + (1 + ?r div 64)" unfolding len by simp
  show "length (m @ data) mod 64 = ?r mod 64" unfolding len by (rule mod_mult_self4)
  have d1: "drop (64 * ?a) (m @ data) = drop (64 * ?a) m @ data" using m by simp
  have "n = 64 * a + j \<Longrightarrow> 64 + 64 * a - n = 64 - j" for n a by simp
  from this [OF m] have e: "64 + 64 * ?a - length m = 64 - j" .
  show "drop (64 * (length (m @ data) div 64)) (m @ data) = drop (64 - j + 64 * (?r div 64)) data"
  proof -
    have "n = 64 * a + j \<Longrightarrow> n \<le> 64 * (a + (1 + q)) \<and> 64 * (a + (1 + q)) - n = 64 - j + 64 * q" for n a q
      using jl by simp
    from this [OF m, of "?r div 64"] show ?thesis unfolding dv by simp
  qed
  have "sha_blocks ?a (m @ data) h = sha_blocks ?a m h" by (rule sha_blocks_append) (use m in simp)
  then show "sha_blocks (length (m @ data) div 64) (m @ data) h =
    sha_blocks (?r div 64) (drop (64 - j) data)
      (sha_compress (drop (64 * ?a) m @ take (64 - j) data) (sha_blocks ?a m h))"
    using jl e unfolding dv sha_blocks_add d1 by simp
qed

text \<open>What \<open>SHA1Update\<close> computes first: the length, the position in the block, the new count, the test.\<close>

lemma update_facts:
  assumes inv: "sha_inv ctx m" and small: "length data + 128 < 2 ^ 32"
  defines "j \<equiv> drop_bit 3 (sha_count0 ctx) AND 63" and "ctx1 \<equiv> add_count (of_nat (length data)) ctx"
  shows "unat (of_nat (length data) :: u32) = length data" "unat j = length m mod 64"
    "unat (sha_count0 ctx1) + 2 ^ 32 * unat (sha_count1 ctx1) = 8 * length (m @ data) mod 2 ^ 64"
    "sha_state ctx1 = sha_blocks (length m div 64) m sha_H0" "sha_buffer ctx1 = sha_buffer ctx"
    "length (sha_buffer ctx) = 64" "take (unat j) (sha_buffer ctx) = drop (64 * (length m div 64)) m"
    "j + of_nat (length data) > 63 \<longleftrightarrow> 64 \<le> unat j + length data"
proof -
  let ?len = "of_nat (length data) :: u32"
  show len: "unat ?len = length data" using small by (simp add: unat_of_nat)
  show j: "unat j = length m mod 64" unfolding j_def by (rule sha_inv_pos [OF inv])
  show "unat (sha_count0 ctx1) + 2 ^ 32 * unat (sha_count1 ctx1) = 8 * length (m @ data) mod 2 ^ 64"
    using add_count_ok [of ctx "8 * length m" ?len] inv len by (simp add: ctx1_def sha_inv_def algebra_simps)
  show "sha_state ctx1 = sha_blocks (length m div 64) m sha_H0" "sha_buffer ctx1 = sha_buffer ctx"
    "length (sha_buffer ctx) = 64" "take (unat j) (sha_buffer ctx) = drop (64 * (length m div 64)) m"
    using inv j by (simp_all add: ctx1_def sha_inv_def add_count_def Let_def)
  show "j + ?len > 63 \<longleftrightarrow> 64 \<le> unat j + length data"
    using small j len by (auto simp: word_less_nat_alt unat_word_ariths)
qed

lemma SHA1Update_short:
  assumes inv: "sha_inv ctx m" and small: "length data + 128 < 2 ^ 32"
    and False: "\<not> 64 \<le> unat (drop_bit 3 (sha_count0 ctx) AND 63) + length data"
  shows "\<exists>ctx'. SHA1Update ctx data = Inr (ctx', data) \<and> sha_inv ctx' (m @ data)"
proof -
  let ?len = "of_nat (length data) :: u32" and ?ctx = "add_count (of_nat (length data)) ctx"
  let ?j = "drop_bit 3 (sha_count0 ctx) AND 63 :: u32"
  note f = update_facts [OF inv small]
  note len = f(1) and j = f(2) and cnt = f(3) and ctx = f(4-7) and test = f(8)
  let ?buf = "overwrite (unat ?j) data (sha_buffer ctx)"
  have eq: "SHA1Update ctx data = Inr (?ctx\<lparr>sha_buffer := ?buf\<rparr>, data)"
    using False test by (simp add: SHA1Update_def Let_def ctx(2))
  have "length (m @ data) = 64 * (length m div 64) + (unat ?j + length data)" using j by simp
  note this [unfolded length_append]
  then have dv: "length (m @ data) div 64 = length m div 64" "length (m @ data) mod 64 = unat ?j + length data"
    using False by (simp_all only: length_append) simp_all
  have buf: "length ?buf = 64" using False ctx(3) by simp
  have "take (unat ?j + length data) ?buf = take (unat ?j) (sha_buffer ctx) @ data"
    using False ctx(3) by (simp add: overwrite_def)
  also have "\<dots> = drop (64 * (length m div 64)) (m @ data)" using ctx(4) by simp
  finally have "sha_inv (?ctx\<lparr>sha_buffer := ?buf\<rparr>) (m @ data)"
    using ctx(1) cnt buf sha_blocks_append [of "length m div 64" m data] unfolding sha_inv_def dv by simp
  then show ?thesis using eq by auto
qed

text \<open>The bytes left over are kept at the start of the block.\<close>

lemma overwrite_rest:
  assumes "length xs = r" "r \<le> 64" "length b = 64"
  shows "length (overwrite 0 xs b) = 64" "take r (overwrite 0 xs b) = xs"
  using assms by (auto simp: overwrite_def)

text \<open>Data that fits into one block is not changed.\<close>

lemma short_data_kept:
  assumes "take i data' = take i data" "drop i' data' = drop i' data" "i' = i + 64 * (n div 64)" "n < (64 :: nat)"
  shows "data' = data"
proof -
  have "i' = i" using assms(3,4) by simp
  then show ?thesis using assms(1,2) append_take_drop_id [of i] by metis
qed

lemma SHA1Update_long:
  assumes inv: "sha_inv ctx m" and small: "length data + 128 < 2 ^ 32"
    and True: "64 \<le> unat (drop_bit 3 (sha_count0 ctx) AND 63) + length data"
  shows "\<exists>ctx' data'. SHA1Update ctx data = Inr (ctx', data') \<and> sha_inv ctx' (m @ data)
    \<and> length data' = length data \<and> (length data \<le> 64 \<longrightarrow> data' = data)
    \<and> (m = [] \<and> 128 \<le> length data \<longrightarrow> take 64 data' = take 64 data
        \<and> slice_list 64 64 data' = snd (SHA1Transform (sha_compress (take 64 data) sha_H0) (slice_list 64 64 data)))"
proof -
  let ?len = "of_nat (length data) :: u32" and ?ctx = "add_count (of_nat (length data)) ctx"
  let ?j = "drop_bit 3 (sha_count0 ctx) AND 63 :: u32"
  note f = update_facts [OF inv small]
  note len = f(1) and j = f(2) and cnt = f(3) and ctx = f(4-7) and test = f(8)
  let ?i = "64 - ?j" and ?h = "sha_blocks (length m div 64) m sha_H0"
  let ?buf = "overwrite (unat ?j) (take (unat ?i) data) (sha_buffer ctx)"
  have i: "unat ?i = 64 - unat ?j" "unat ?i \<le> length data" "unat ?j < 64" "1 \<le> unat ?i"
    using True j by (simp_all add: unat_sub word_le_nat_alt)
  then have buf: "?buf = drop (64 * (length m div 64)) m @ take (64 - unat ?j) data"
    using ctx(3,4) by (simp add: overwrite_def)
  have buf64: "length ?buf = 64" using i ctx(3) by simp
  have h5: "length ?h = 5" by (rule length_sha_blocks) (simp add: sha_H0_def)
  obtain h1 b1 where t: "SHA1Transform ?h ?buf = (h1, b1)" by force
  from SHA1Transform_eq [OF buf64 h5] t have h1: "h1 = sha_compress ?buf ?h" and b1: "length b1 = 64" by simp_all
  have "length h1 = 5" by (simp add: h1 length_sha_compress)
  from update_loop_ok [OF refl _ i(2) this] small obtain i' data' where
    u: "update_loop ?len ?i h1 data = Inr (i', sha_blocks ((length data - unat ?i) div 64) (drop (unat ?i) data) h1, data')"
    and i': "unat i' = unat ?i + 64 * ((length data - unat ?i) div 64)"
    and d': "length data' = length data" "take (unat ?i) data' = take (unat ?i) data"
      "drop (unat i') data' = drop (unat i') data"
      "unat ?i + 64 \<le> length data \<longrightarrow> slice_list (unat ?i) 64 data' = snd (SHA1Transform h1 (slice_list (unat ?i) 64 data))"
    by auto
  let ?s2 = "sha_blocks ((length data - unat ?i) div 64) (drop (unat ?i) data) h1"
  have i'le: "unat i' \<le> length data" using i' i(2) by (simp add: add.commute le_diff_conv2 [symmetric])
  have rest: "slice_list (unat i') (unat (?len - i')) data' = drop (unat i') data"
    using i'le len d'(1,3) by (simp add: slice_list_def unat_sub word_le_nat_alt)
  let ?ctx' = "?ctx\<lparr>sha_state := ?s2, sha_buffer := overwrite 0 (drop (unat i') data) b1\<rparr>"
  have eq: "SHA1Update ctx data = Inr (?ctx', data')"
    using True test t u by (simp add: SHA1Update_def Let_def ctx(1,2) rest del: run_bind_Inr)
  note sp = sha_blocks_split [OF j True]
  have lr: "length (drop (unat i') data) = (length data - unat ?i) mod 64"
    unfolding length_drop i' by (simp only: diff_diff_left [symmetric] minus_mult_div_eq_mod)
  note overwrite_rest [OF lr _ b1]
  moreover have "?s2 = sha_blocks (length (m @ data) div 64) (m @ data) sha_H0"
    unfolding sp(1) h1 unfolding buf unfolding i(1) ..
  ultimately have "sha_inv ?ctx' (m @ data)"
    unfolding sha_inv_def sp(2) sp(3) i(1) [symmetric]
    using cnt i' by (intro conjI) simp_all
  moreover have "data' = data" if "length data \<le> 64"
    using short_data_kept [OF d'(2,3) i'] that i(4) by linarith
  moreover have "m = [] \<and> 128 \<le> length data \<longrightarrow> take 64 data' = take 64 data
      \<and> slice_list 64 64 data' = snd (SHA1Transform (sha_compress (take 64 data) sha_H0) (slice_list 64 64 data))"
    using d'(2,4) i(1) j buf h1 by auto
  ultimately show ?thesis using eq d'(1) by blast
qed

lemma SHA1Update_ok:
  assumes inv: "sha_inv ctx m" and small: "length data + 128 < 2 ^ 32"
  shows "\<exists>ctx' data'. SHA1Update ctx data = Inr (ctx', data') \<and> sha_inv ctx' (m @ data)
    \<and> length data' = length data \<and> (length data \<le> 64 \<longrightarrow> data' = data)
    \<and> (m = [] \<and> 128 \<le> length data \<longrightarrow> take 64 data' = take 64 data
        \<and> slice_list 64 64 data' = snd (SHA1Transform (sha_compress (take 64 data) sha_H0) (slice_list 64 64 data)))"
proof (cases "64 \<le> unat (drop_bit 3 (sha_count0 ctx) AND 63) + length data")
  case True
  then show ?thesis by (rule SHA1Update_long [OF inv small])
next
  case False
  then show ?thesis using SHA1Update_short [OF inv small False] by auto
qed

subsection \<open>Lemmas: padding\<close>

lemma sha_inv_test:
  assumes "sha_inv ctx m"
  shows "sha_count0 ctx AND 504 = 448 \<longleftrightarrow> length m mod 64 = 56"
proof -
  have "unat (sha_count0 ctx) div 8 mod 64 = length m mod 64"
    using sha_inv_pos [OF assms] by (simp only: block_position)
  then show ?thesis
    using and_504 [of "sha_count0 ctx"] by (auto simp: word_eq_iff_unsigned [where ?'a = nat])
qed

lemma pad_loop_ok:
  assumes "sha_inv ctx m"
  shows "\<exists>ctx'. pad_loop ctx = Inr ctx' \<and> sha_inv ctx' (m @ replicate ((120 - length m mod 64) mod 64) 0)"
  using assms
proof (induction ctx arbitrary: m rule: pad_loop.induct)
  case (1 ctx)
  show ?case
  proof (cases "length m mod 64 = 56")
    case True
    then show ?thesis using 1(2) sha_inv_test [OF 1(2)] by (simp add: pad_loop.simps [of ctx])
  next
    case False
    then have t: "sha_count0 ctx AND 504 \<noteq> 448" using sha_inv_test [OF 1(2)] by simp
    from SHA1Update_ok [OF 1(2), of "[0]"] obtain ctx' where
      u: "SHA1Update ctx [0] = Inr (ctx', [0])" "sha_inv ctx' (m @ [0])" by auto
    from 1(1) [OF t u(1) refl u(2)] obtain ctx'' where
      r: "pad_loop ctx' = Inr ctx''" "sha_inv ctx'' ((m @ [0]) @ replicate ((120 - Suc (length m) mod 64) mod 64) 0)"
      by auto
    have "Suc ((120 - Suc (length m) mod 64) mod 64) = (120 - length m mod 64) mod 64"
      using pad_step [of "length m mod 64"] False by (simp add: mod_Suc_eq)
    then have "(m @ [0]) @ replicate ((120 - Suc (length m) mod 64) mod 64) 0
        = m @ replicate ((120 - length m mod 64) mod 64) 0"
      by (metis append.assoc append_Cons append_Nil replicate_Suc)
    then show ?thesis using t u(1) r by (simp add: pad_loop.simps [of ctx])
  qed
qed

lemma le_bytes_four:
  "le_bytes 4 x = [of_nat (x mod 256), of_nat (x div 256 mod 256), of_nat (x div 256 ^ 2 mod 256), of_nat (x div 256 ^ 3 mod 256)]"
proof -
  have four: "(4 :: nat) = Suc (Suc (Suc (Suc 0)))" by simp
  show ?thesis unfolding four by (simp add: div_mult2_eq [symmetric])
qed

text \<open>The bytes of a word, most significant first.\<close>

lemma word_byte_eq: "word_byte x i = of_nat (unat x div 256 ^ (3 - i mod 4) mod 256)"
proof -
  have "n AND mask 8 = n mod 2 ^ 8" for n :: nat by (simp only: take_bit_eq_mask [symmetric] take_bit_eq_mod)
  then have "n AND 255 = n mod 256" for n :: nat by (simp add: mask_eq_exp_minus_1)
  moreover have "unat (drop_bit k x) = unat x div 2 ^ k" for k
    using unat_drop_bit_eq [of k x] by (simp only: drop_bit_nat_def)
  ultimately have "unat (drop_bit ((3 - i mod 4) * 8) x AND 255) = unat x div 2 ^ ((3 - i mod 4) * 8) mod 256"
    by (simp only: unsigned_and_eq unat_numeral) simp
  moreover have "(2 :: nat) ^ ((3 - i mod 4) * 8) = 256 ^ (3 - i mod 4)"
    by (simp add: power_mult mult.commute [of _ 8])
  ultimately show ?thesis by (simp add: word_byte_def) (metis of_nat_unat)
qed

lemma be_bytes_word: "be_bytes 4 (unat x) = map (word_byte x) [0..<4]"
proof -
  have "[0..<4] = [0, 1, 2, 3 :: nat]" by (simp add: upt_rec)
  then show ?thesis
    by (simp add: word_byte_eq be_bytes_def le_bytes_four del: upt_rec_numeral)
qed

lemma word_byte_add4: "word_byte x (i + 4) = word_byte x i"
  by (simp add: word_byte_def)

lemma le_bytes_add: "le_bytes (a + b) x = le_bytes a x @ le_bytes b (x div 256 ^ a)"
  by (induction a arbitrary: x) (simp_all add: div_mult2_eq)

lemma le_bytes_mod: "le_bytes n (x mod 256 ^ n) = le_bytes n x"
  using le_bytes_le_val [of "le_bytes n x"] by (simp add: le_val_le_bytes)

lemma finalcount_bytes:
  assumes "unat c0 + 2 ^ 32 * unat c1 = x mod 2 ^ 64"
  shows "map (\<lambda>i. word_byte (if i \<ge> 4 then c0 else c1) i) [0..<8] = be_bytes 8 x"
proof -
  have "[0..<8] = [0..<4] @ map (\<lambda>i. i + 4) [0..<4 :: nat]" by (simp add: upt_rec)
  then have "map (\<lambda>i. word_byte (if i \<ge> 4 then c0 else c1) i) [0..<8]
      = map (word_byte c1) [0..<4] @ map (word_byte c0) [0..<4]"
    by (simp add: word_byte_add4 comp_def del: upt_rec_numeral)
  also have "\<dots> = be_bytes 4 (unat c1) @ be_bytes 4 (unat c0)" by (simp only: be_bytes_word)
  also have "\<dots> = rev (le_bytes (4 + 4) (x mod 2 ^ 64))"
  proof -
    have lt: "unat c0 < 256 ^ 4" using unsigned_less [of c0, where ?'a = nat] by simp
    have "le_bytes 4 (unat c0 + 256 ^ 4 * unat c1) = le_bytes 4 (unat c0)"
      using le_bytes_mod [of 4 "unat c0 + 256 ^ 4 * unat c1"] lt by simp
    then show ?thesis unfolding le_bytes_add assms [symmetric] be_bytes_def using lt by simp
  qed
  also have "\<dots> = be_bytes 8 x" using le_bytes_mod [of 8 x] by (simp add: be_bytes_def)
  finally show ?thesis .
qed

lemma digest_bytes:
  assumes "length st = 5"
  shows "map (\<lambda>i. word_byte (st ! (i div 4)) i) [0..<20] = concat (map (\<lambda>x. be_bytes 4 (unat x)) st)"
proof -
  from assms obtain a b c d e where st: "st = [a, b, c, d, e]"
    by (auto simp: numeral_eq_Suc length_Suc_conv)
  show ?thesis by (simp add: st be_bytes_word word_byte_eq upt_rec)
qed

lemma sha_inv_init: "length (sha_buffer ctx) = 64 \<Longrightarrow> sha_inv (SHA1Init ctx) []"
  by (simp add: sha_inv_def SHA1Init_def sha_H0_def)

lemma sha_pad_eq:
  "sha_pad m = ((m @ [0x80]) @ replicate ((120 - length (m @ [0x80 :: byte]) mod 64) mod 64) 0) @ be_bytes 8 (8 * length m)"
proof -
  have "(120 - Suc (length m) mod 64) mod 64 = (119 - length m mod 64) mod (64 :: nat)"
    by (cases "length m mod 64 = 63") (simp_all add: mod_Suc)
  then show ?thesis by (simp add: sha_pad_def)
qed

lemma length_sha_pad: "length (sha_pad m) mod 64 = 0"
proof -
  have "p < 64 \<Longrightarrow> (p + (119 - p) mod 64 + 9) mod 64 = (0 :: nat)" for p
    by (cases "p < 56") (simp_all add: le_mod_geq)
  from this [of "length m mod 64"] have "(length m mod 64 + ((119 - length m mod 64) mod 64 + 9)) mod 64 = 0"
    by (simp add: add.assoc)
  then have "(length m + ((119 - length m mod 64) mod 64 + 9)) mod 64 = 0" by (simp only: mod_add_left_eq)
  then show ?thesis by (simp add: sha_pad_def add.commute add.left_commute)
qed

lemma SHA1Final_ok:
  assumes inv: "sha_inv ctx m"
  shows "\<exists>ctx'. SHA1Final ctx = Inr (sha1_spec m, ctx') \<and> length (sha_buffer ctx') = 64"
proof -
  let ?count = "be_bytes 8 (8 * length m)"
  have fc: "map (\<lambda>i. word_byte (if i \<ge> 4 then sha_count0 ctx else sha_count1 ctx) i) [0..<8] = ?count"
    using inv by (intro finalcount_bytes) (simp add: sha_inv_def)
  from SHA1Update_ok [OF inv, of "[0x80]"] obtain ctx1 where
    u1: "SHA1Update ctx [0x80] = Inr (ctx1, [0x80])" "sha_inv ctx1 (m @ [0x80])" by auto
  from pad_loop_ok [OF u1(2)] obtain ctx2 where
    u2: "pad_loop ctx1 = Inr ctx2" "sha_inv ctx2 ((m @ [0x80]) @ replicate ((120 - length (m @ [0x80 :: byte]) mod 64) mod 64) 0)"
    by blast
  from SHA1Update_ok [OF u2(2), of ?count] obtain ctx3 d where
    u3: "SHA1Update ctx2 ?count = Inr (ctx3, d)" and inv3: "sha_inv ctx3 (sha_pad m)"
    unfolding sha_pad_eq by auto
  have st: "sha_state ctx3 = sha_blocks (length (sha_pad m) div 64) (sha_pad m) sha_H0"
    using inv3 by (simp add: sha_inv_def)
  then have "length (sha_state ctx3) = 5" by (simp add: length_sha_blocks sha_H0_def)
  from digest_bytes [OF this] show ?thesis
    by (simp only: SHA1Final_def Let_def fc u1(1) u2(1) u3 run_bind.simps split_conv st sha1_spec_def) simp
qed

lemma update_all_ok:
  "sha_inv ctx m \<Longrightarrow> \<forall>part \<in> set parts. length part + 128 < 2 ^ 32 \<Longrightarrow>
     \<exists>ctx'. update_all parts ctx = Inr ctx' \<and> sha_inv ctx' (m @ concat parts)"
proof (induction parts arbitrary: ctx m)
  case (Cons part parts)
  then obtain ctx' part' where "SHA1Update ctx part = Inr (ctx', part')" "sha_inv ctx' (m @ part)"
    using SHA1Update_ok [of ctx m part] by auto
  with Cons.IH [OF this(2)] Cons.prems(2) show ?case by auto
qed simp

subsection \<open>Properties\<close>

text \<open>
  C12: the hand-unrolled transform is the compression function of FIPS 180. On any 64-byte block the
  eighty macro calls, which rotate the roles of the registers and keep the schedule in the block,
  compute the same five words as the definition; the block afterwards holds the last sixteen words of
  the schedule instead of the data.
\<close>

theorem transform_is_compress:
  assumes "length buffer = 64" "length state = 5"
  shows "SHA1Transform state buffer = (sha_compress buffer state, bytes_of_block (map (sha_W buffer) [64..<80]))"
  using SHA1Transform_full [OF assms] by (simp add: prod_eq_iff del: upt_rec_numeral)

theorem transform_is_compress_witness:
  "SHA1Transform sha_H0 (replicate 64 0) = (sha_compress (replicate 64 0) sha_H0,
     bytes_of_block (map (sha_W (replicate 64 0)) [64..<80]))"
  by (rule transform_is_compress) (simp_all add: sha_H0_def)

text \<open>
  C13: the incremental interface computes SHA-1. Whatever the context held before, initialising it,
  updating it with the parts of a message and finalising it never fails and gives the digest that FIPS
  180 defines for the whole message: the padding loop ends, the bit count is right, and no byte of the
  parts is lost between calls.
\<close>

theorem sha1_of_parts:
  assumes "length (sha_buffer ctx) = 64" "\<forall>part \<in> set parts. length part + 128 < 2 ^ 32"
  shows "\<exists>ctx1 ctx2. update_all parts (SHA1Init ctx) = Inr ctx1 \<and> SHA1Final ctx1 = Inr (sha1_spec (concat parts), ctx2)"
  using update_all_ok [OF sha_inv_init [OF assms(1)] assms(2)] SHA1Final_ok by fastforce

theorem sha1_of_parts_witness:
  "\<exists>ctx1 ctx2. update_all [[0x61], [], [0x62, 0x63]]
      (SHA1Init \<lparr>sha_state = [], sha_count0 = 7, sha_count1 = 0, sha_buffer = replicate 64 0xff\<rparr>) = Inr ctx1
    \<and> SHA1Final ctx1 = Inr (sha1_spec [0x61, 0x62, 0x63], ctx2)"
  using sha1_of_parts [of "\<lparr>sha_state = [], sha_count0 = 7, sha_count1 = 0, sha_buffer = replicate 64 0xff\<rparr>"
      "[[0x61], [], [0x62, 0x63]]"] by simp

text \<open>
  C39: hashing overwrites long input. For data of at least 128 bytes the first \<open>SHA1Update\<close> writes the
  message schedule over the caller's second block, although the parameter is a pointer to constant
  data; up to 64 bytes the data is left alone.
\<close>

theorem update_overwrites_caller_data:
  assumes "length (sha_buffer ctx) = 64" "128 \<le> length data" "length data + 128 < 2 ^ 32"
  shows "\<exists>ctx' data'. SHA1Update (SHA1Init ctx) data = Inr (ctx', data') \<and> length data' = length data
    \<and> take 64 data' = take 64 data
    \<and> slice_list 64 64 data' = bytes_of_block (map (sha_W (slice_list 64 64 data)) [64..<80])"
proof -
  have l: "length (slice_list 64 64 data) = 64" using assms(2) by (simp add: length_slice_list)
  have "length (sha_compress (take 64 data) sha_H0) = 5" by (rule length_sha_compress)
  from SHA1Transform_full [OF l this] SHA1Update_ok [OF sha_inv_init [OF assms(1)] assms(3)] assms(2)
  show ?thesis by auto
qed

theorem update_overwrites_caller_data_witness:
  "\<exists>ctx' data'. SHA1Update (SHA1Init \<lparr>sha_state = [], sha_count0 = 7, sha_count1 = 0, sha_buffer = replicate 64 0xff\<rparr>)
      (replicate 128 0x61) = Inr (ctx', data') \<and> length data' = length (replicate 128 (0x61 :: byte))
    \<and> take 64 data' = take 64 (replicate 128 0x61)
    \<and> slice_list 64 64 data' = bytes_of_block (map (sha_W (slice_list 64 64 (replicate 128 0x61))) [64..<80])"
  by (rule update_overwrites_caller_data) simp_all

end
