(* ===== verification/Crypto.thy ===== *)
theory Crypto
  imports Sha1_Context
begin

text \<open>
  \<open>ScramblePassword\<close> of \<open>detail/tntpp_crypto.h\<close>: the answer to the server's \<open>chap-sha1\<close> challenge.
  Trimming and base64 decoding come from Boost and are parameters. The password is the string inside
  the configuration, passed by reference, and hashing may overwrite it, so it is part of the result.
\<close>

subsection \<open>Definitions\<close>

abbreviation SCRAMBLE_SIZE :: nat where "SCRAMBLE_SIZE \<equiv> 20"

text \<open>One digest: initialise the context, update it with the parts, finalise it.\<close>

definition sha1_once :: "sha1_ctx \<Rightarrow> byte list list \<Rightarrow> (byte list \<times> sha1_ctx) run" where
  "sha1_once ctx parts = run_bind (update_all parts (SHA1Init ctx)) SHA1Final"

text \<open>
  The salt before hashing: padding characters are counted, replaced by \<open>A\<close> and, after decoding, the
  bytes they stand for erased. Erasing more than there is, and reading twenty bytes of a shorter
  salt, are out of bounds. \<open>b64\<close> may throw.
\<close>

definition decode_salt ::
  "(byte list \<Rightarrow> byte list) \<Rightarrow> (byte list \<Rightarrow> exn + byte list) \<Rightarrow> byte list \<Rightarrow> (exn + byte list) run" where
  "decode_salt trim b64 salt =
     (let salt1 = trim salt;
          paddChars = length (filter (\<lambda>c. c = 0x3d) salt1);
          salt2 = map (\<lambda>c. if c = 0x3d then 0x41 else c) salt1
      in case b64 salt2 of
           Inl e \<Rightarrow> Inr (Inl e)
         | Inr decoded \<Rightarrow>
             if paddChars \<le> length decoded then Inr (Inr (take (length decoded - paddChars) decoded))
             else Inl Out_of_bounds)"

definition ScramblePassword ::
  "(byte list \<Rightarrow> byte list) \<Rightarrow> (byte list \<Rightarrow> exn + byte list) \<Rightarrow> sha1_ctx \<Rightarrow> byte list \<Rightarrow> byte list
     \<Rightarrow> (exn + (byte list \<times> byte list)) run" where
  "ScramblePassword trim b64 ctx password salt =
     run_bind (decode_salt trim b64 salt) (\<lambda>r.
       case r of
         Inl e \<Rightarrow> Inr (Inl e)
       | Inr decodedSalt \<Rightarrow>
           run_bind (SHA1Update (SHA1Init ctx) password) (\<lambda>(ctx1, password').
           run_bind (SHA1Final ctx1) (\<lambda>(hash1, ctx2).
           run_bind (sha1_once ctx2 [hash1]) (\<lambda>(hash2, ctx3).
             if length decodedSalt < SCRAMBLE_SIZE then Inl Out_of_bounds
             else run_bind (sha1_once ctx3 [take SCRAMBLE_SIZE decodedSalt, hash2]) (\<lambda>(out, ctx4).
               Inr (Inr (map (\<lambda>i. hash1 ! i XOR out ! i) [0..<SCRAMBLE_SIZE], password')))))))"

text \<open>
  What the server does with the answer: it knows only the double hash of the password, takes the
  first hash out of the scramble and hashes it again.
\<close>

definition xor_bytes :: "byte list \<Rightarrow> byte list \<Rightarrow> byte list" where
  "xor_bytes xs ys = map2 (XOR) xs ys"

definition server_accepts :: "byte list \<Rightarrow> byte list \<Rightarrow> byte list \<Rightarrow> bool" where
  "server_accepts hash2 salt scramble \<longleftrightarrow>
     sha1_spec (xor_bytes scramble (sha1_spec (take SCRAMBLE_SIZE salt @ hash2))) = hash2"

text \<open>A decoder and a trimmer to evaluate examples with.\<close>

definition b64_digit :: "byte \<Rightarrow> nat option" where
  "b64_digit c =
     (let n = unat c in
      if 65 \<le> n \<and> n \<le> 90 then Some (n - 65)
      else if 97 \<le> n \<and> n \<le> 122 then Some (n - 71)
      else if 48 \<le> n \<and> n \<le> 57 then Some (n + 4)
      else if n = 43 then Some 62 else if n = 47 then Some 63 else None)"

fun base64_ref :: "byte list \<Rightarrow> exn + byte list" where
  "base64_ref (a # b # c # d # rest) =
     (case (b64_digit a, b64_digit b, b64_digit c, b64_digit d) of
        (Some w, Some x, Some y, Some z) \<Rightarrow>
          (case base64_ref rest of
             Inl e \<Rightarrow> Inl e
           | Inr bs \<Rightarrow> Inr (be_bytes 3 (((w * 64 + x) * 64 + y) * 64 + z) @ bs))
      | _ \<Rightarrow> Inl Std_exception)"
| "base64_ref [] = Inr []"
| "base64_ref _ = Inl Std_exception"

definition trim_ref :: "byte list \<Rightarrow> byte list" where
  "trim_ref s = (let sp = (\<lambda>c. c = 0x20 \<or> c = 0x0a) in rev (dropWhile sp (rev (dropWhile sp s))))"

subsection \<open>Lemmas\<close>

lemma length_sha1_spec: "length (sha1_spec m) = 20"
proof -
  have "length (sha_blocks n x sha_H0) = 5" for n x by (rule length_sha_blocks) (simp add: sha_H0_def)
  then show ?thesis by (simp add: sha1_spec_def length_concat comp_def sum_list_triv)
qed

lemma sha1_once_ok:
  assumes "length (sha_buffer ctx) = 64" "\<forall>part \<in> set parts. length part + 128 < 2 ^ 32"
  shows "\<exists>ctx'. sha1_once ctx parts = Inr (sha1_spec (concat parts), ctx') \<and> length (sha_buffer ctx') = 64"
  using update_all_ok [OF sha_inv_init [OF assms(1)] assms(2)] SHA1Final_ok
  by (fastforce simp: sha1_once_def)

lemma xor_bytes_nth: "length xs = n \<Longrightarrow> length ys = n \<Longrightarrow> map (\<lambda>i. xs ! i XOR ys ! i) [0..<n] = xor_bytes xs ys"
  by (rule nth_equalityI) (simp_all add: xor_bytes_def)

lemma xor_bytes_twice: "length xs = length ys \<Longrightarrow> xor_bytes (xor_bytes xs ys) ys = xs"
  by (rule nth_equalityI) (simp_all add: xor_bytes_def xor.assoc)

lemma scramble_ok:
  assumes "length (sha_buffer ctx) = 64" "length password + 128 < 2 ^ 32"
    "decode_salt trim b64 salt = Inr (Inr decoded)" "20 \<le> length decoded"
  shows "\<exists>password'. ScramblePassword trim b64 ctx password salt =
      Inr (Inr (xor_bytes (sha1_spec password) (sha1_spec (take 20 decoded @ sha1_spec (sha1_spec password))), password'))
    \<and> (length password \<le> 64 \<longrightarrow> password' = password)"
proof -
  from SHA1Update_ok [OF sha_inv_init [OF assms(1)] assms(2)] obtain ctx1 password' where
    u: "SHA1Update (SHA1Init ctx) password = Inr (ctx1, password')" "sha_inv ctx1 password"
      "length password \<le> 64 \<longrightarrow> password' = password" by auto
  from SHA1Final_ok [OF u(2)] obtain ctx2 where
    f: "SHA1Final ctx1 = Inr (sha1_spec password, ctx2)" "length (sha_buffer ctx2) = 64" by blast
  from sha1_once_ok [OF f(2), of "[sha1_spec password]"] obtain ctx3 where
    h2: "sha1_once ctx2 [sha1_spec password] = Inr (sha1_spec (sha1_spec password), ctx3)"
      "length (sha_buffer ctx3) = 64" by (auto simp: length_sha1_spec)
  have "length (take 20 decoded) = 20" using assms(4) by simp
  with sha1_once_ok [OF h2(2), of "[take 20 decoded, sha1_spec (sha1_spec password)]"] obtain ctx4 where
    h3: "sha1_once ctx3 [take 20 decoded, sha1_spec (sha1_spec password)]
      = Inr (sha1_spec (take 20 decoded @ sha1_spec (sha1_spec password)), ctx4)" by (auto simp: length_sha1_spec simp del: length_take)
  have "ScramblePassword trim b64 ctx password salt =
      Inr (Inr (xor_bytes (sha1_spec password) (sha1_spec (take 20 decoded @ sha1_spec (sha1_spec password))), password'))"
    using assms(4) unfolding ScramblePassword_def
    by (simp only: assms(3) u(1) f(1) h2(1) h3 run_bind.simps split_conv sum.case
        xor_bytes_nth length_sha1_spec) simp
  with u(3) show ?thesis by blast
qed

subsection \<open>Properties\<close>

text \<open>
  C14: the scramble is the one the \<open>chap-sha1\<close> protocol asks for. If the salt decodes to at least
  twenty bytes, \<open>ScramblePassword\<close> returns \<open>hash1 XOR SHA1(salt, SHA1(hash1))\<close> with
  \<open>hash1 = SHA1(password)\<close>, and a server that stores only \<open>SHA1(hash1)\<close> accepts it. A password of at most 64
  bytes stays as it was.
\<close>

theorem scramble_is_accepted:
  assumes "length (sha_buffer ctx) = 64" "length password + 128 < 2 ^ 32"
    and "decode_salt trim b64 salt = Inr (Inr decoded)" "20 \<le> length decoded"
  shows "\<exists>scramble password'. ScramblePassword trim b64 ctx password salt = Inr (Inr (scramble, password'))
    \<and> scramble = xor_bytes (sha1_spec password) (sha1_spec (take 20 decoded @ sha1_spec (sha1_spec password)))
    \<and> server_accepts (sha1_spec (sha1_spec password)) decoded scramble
    \<and> (length password \<le> 64 \<longrightarrow> password' = password)"
  using scramble_ok [OF assms] by (auto simp: server_accepts_def xor_bytes_twice length_sha1_spec)

theorem scramble_is_accepted_witness:
  "\<exists>scramble password'. ScramblePassword trim_ref base64_ref
      \<lparr>sha_state = [], sha_count0 = 0, sha_count1 = 0, sha_buffer = replicate 64 0\<rparr> [0x70, 0x77]
      (replicate 27 0x41 @ [0x3d, 0x20, 0x0a]) = Inr (Inr (scramble, password'))
    \<and> server_accepts (sha1_spec (sha1_spec [0x70, 0x77])) (replicate 20 0) scramble \<and> password' = [0x70, 0x77]"
proof -
  have "decode_salt trim_ref base64_ref (replicate 27 0x41 @ [0x3d, 0x20, 0x0a]) = Inr (Inr (replicate 20 0))"
    by code_simp
  from scramble_is_accepted [OF _ _ this,
      of "\<lparr>sha_state = [], sha_count0 = 0, sha_count1 = 0, sha_buffer = replicate 64 0\<rparr>" "[0x70, 0x77]"]
  show ?thesis by simp
qed

end
