(* ===== verification/Connector.thy ===== *)
theory Connector
  imports Connection Crypto
begin

text \<open>
  The parts of \<open>tarantool_connector.hpp\<close> that run without waiting: the table of requests that wait for a
  response, sending, \<open>reset\<close>, the login request and the requests the class builds itself. How they are
  put together by the receive loop is in \<open>Connector_Loop\<close>. Completion handlers are numbered; an
  \<open>any_completion_handler\<close> that was called or moved from is empty, and calling an empty one throws.
\<close>

subsection \<open>Definitions: packets\<close>

text \<open>The header every request starts with.\<close>

definition request_header :: "request_type \<Rightarrow> u64 \<Rightarrow> message_header" where
  "request_header type rid = set_request_type type (MessageHeader_default\<lparr>sync := rid\<rparr>)"

text \<open>\<open>pack<PingRequest>\<close>: an empty map.\<close>

definition ping_request_pack :: "msgpack_lib \<Rightarrow> unit \<Rightarrow> byte list" where
  "ping_request_pack L r = mp_pack_map L 0"

definition ping_packet :: "msgpack_lib \<Rightarrow> endian_lib \<Rightarrow> u64 \<Rightarrow> byte list" where
  "ping_packet L E rid =
     packer_str (finalize E (pack (ping_request_pack L) ()
       (pack (header_pack L) (request_header R_Ping rid) RequestPacker_init)))"

text \<open>\<open>args\<close> is the object the MessagePack adaptor of the argument list produces.\<close>

definition call_packet :: "msgpack_lib \<Rightarrow> endian_lib \<Rightarrow> u64 \<Rightarrow> byte list \<Rightarrow> mp_object \<Rightarrow> byte list" where
  "call_packet L E rid function args =
     packer_str (finalize E (pack_map_entry L F_Tuple args (pack_map_entry L F_FunctionName (Mp_str function)
       (begin_map_count L 2 (pack (header_pack L) (request_header R_Call rid) RequestPacker_init)))))"

definition eval_packet :: "msgpack_lib \<Rightarrow> endian_lib \<Rightarrow> u64 \<Rightarrow> byte list \<Rightarrow> mp_object \<Rightarrow> byte list" where
  "eval_packet L E rid expression args =
     packer_str (finalize E (pack_map_entry L F_Tuple args (pack_map_entry L F_Expr (Mp_str expression)
       (begin_map_count L 2 (pack (header_pack L) (request_header R_Eval rid) RequestPacker_init)))))"

text \<open>The bytes of \<open>"chap-sha1"\<close>.\<close>

definition chap_sha1 :: "byte list" where
  "chap_sha1 = [0x63, 0x68, 0x61, 0x70, 0x2d, 0x73, 0x68, 0x61, 0x31]"

definition auth_packet :: "msgpack_lib \<Rightarrow> endian_lib \<Rightarrow> u64 \<Rightarrow> byte list \<Rightarrow> byte list \<Rightarrow> byte list" where
  "auth_packet L E rid username scramble =
     packer_str (finalize E (pack_map_entry L F_Tuple (Mp_array [Mp_str chap_sha1, Mp_str scramble])
       (pack_map_entry L F_Username (Mp_str username)
       (begin_map_count L 2 (pack (header_pack L) (request_header R_Auth rid) RequestPacker_init)))))"

subsection \<open>Definitions: Internal\<close>

datatype conn_state = Connecting | Connected | Stopped

text \<open>
  \<open>m_requests\<close> lists the entries of the unordered map. \<open>k_done\<close> records the handlers called so far and
  what they were called with.
\<close>

type_synonym handler = nat

record 's connector =
  m_s :: conn_state
  m_schema_version :: u64
  m_request_id :: u64
  m_requests :: "(u64 \<times> handler option) list"
  m_conn :: "'s connection"
  k_done :: "(handler \<times> error_code \<times> iproto_frame) list"

definition Connector_init :: "'s connection \<Rightarrow> 's connector" where
  "Connector_init conn =
     \<lparr>m_s = Connected, m_schema_version = 0, m_request_id = 0, m_requests = [], m_conn = conn, k_done = []\<rparr>"

text \<open>\<open>unordered_map::insert\<close>: an existing entry is kept and the new value dropped.\<close>

definition insert_request :: "u64 \<Rightarrow> handler option \<Rightarrow> (u64 \<times> handler option) list \<Rightarrow> (u64 \<times> handler option) list" where
  "insert_request rid h rs = (if rid \<in> fst ` set rs then rs else rs @ [(rid, h)])"

text \<open>
  The strand part of \<open>send_request\<close>. When the connector is not connected the handler is called, but
  there is no return: the now empty handler is stored and the data is sent all the same.
\<close>

definition send_request :: "(nat \<Rightarrow> nat) \<Rightarrow> u64 \<Rightarrow> byte list \<Rightarrow> handler \<Rightarrow> 's connector \<Rightarrow> 's connector" where
  "send_request grow rid data h k =
     (let (any_handler, k1) =
            (if m_s k \<noteq> Connected
             then (None, k\<lparr>k_done := k_done k @ [(h, errc not_connected, IprotoFrame_default)]\<rparr>)
             else (Some h, k));
          k2 = k1\<lparr>m_requests := insert_request rid any_handler (m_requests k1)\<rparr>
      in k2\<lparr>m_conn := send_data grow data (m_conn k2)\<rparr>)"

definition generate_id :: "'s connector \<Rightarrow> u64 \<times> 's connector" where
  "generate_id k = (m_request_id k, k\<lparr>m_request_id := m_request_id k + 1\<rparr>)"

text \<open>
  The loop of \<open>reset\<close>: each handler is called and is empty afterwards; calling an empty one throws
  \<open>std::bad_function_call\<close>, and the rest of the loop and of \<open>reset\<close> is skipped.
\<close>

fun call_all :: "error_code \<Rightarrow> (u64 \<times> handler option) list \<Rightarrow> exn + (handler \<times> error_code \<times> iproto_frame) list" where
  "call_all ec [] = Inr []"
| "call_all ec ((rid, None) # rs) = Inl Std_exception"
| "call_all ec ((rid, Some h) # rs) =
     (case call_all ec rs of Inl e \<Rightarrow> Inl e | Inr done \<Rightarrow> Inr ((h, ec, IprotoFrame_default) # done))"

text \<open>
  \<open>reset\<close> as its callers see it: every exception it lets out ends in the assertion of the last
  \<open>catch\<close> clause of the receive loop.
\<close>

definition reset :: "'s connector \<Rightarrow> 's connector run" where
  "reset k =
     (let k1 = (if m_s k = Connected then k\<lparr>m_s := Connecting\<rparr> else k);
          ec = errc (if m_s k1 = Stopped then operation_canceled else broken_pipe)
      in case call_all ec (m_requests k1) of
           Inl e \<Rightarrow> Inl Assertion_failed
         | Inr done \<Rightarrow> Inr (k1\<lparr>k_done := k_done k1 @ done, m_requests := [], m_conn := stop (m_conn k1)\<rparr>))"

definition destroy_connector :: "'s connector \<Rightarrow> 's connector" where
  "destroy_connector k = k\<lparr>m_s := Stopped, m_conn := stop (m_conn k)\<rparr>"

text \<open>
  The end of a loop iteration: a message has arrived, or receiving has failed. An exception of a
  handler, the one of an empty handler included, is caught and logged.
\<close>

definition on_message :: "error_code \<Rightarrow> iproto_frame \<Rightarrow> 's connector \<Rightarrow> 's connector run" where
  "on_message ec msg k =
     (if failed ec then reset k
      else let k1 = k\<lparr>m_schema_version := schema_version (m_header msg)\<rparr>;
               rid = sync (m_header msg)
           in case map_of (m_requests k1) rid of
                None \<Rightarrow> Inr k1
              | Some h \<Rightarrow>
                  let k2 = k1\<lparr>m_requests := filter (\<lambda>r. fst r \<noteq> rid) (m_requests k1)\<rparr>
                  in Inr (case h of None \<Rightarrow> k2
                          | Some h' \<Rightarrow> k2\<lparr>k_done := k_done k2 @ [(h', no_error, msg)]\<rparr>))"

text \<open>The handlers that wait in the table.\<close>

definition waiting_handlers :: "(u64 \<times> handler option) list \<Rightarrow> handler list" where
  "waiting_handlers rs = List.map_filter snd rs"

subsection \<open>Definitions: authentication\<close>

text \<open>The library functions and the garbage in the hash context that \<open>async_auth\<close> depends on.\<close>

record auth_env =
  ae_msgpack :: msgpack_lib
  ae_endian :: endian_lib
  ae_trim :: "byte list \<Rightarrow> byte list"
  ae_base64 :: "byte list \<Rightarrow> byte list option"
  ae_ctx :: sha1_ctx

text \<open>The decoder's \<open>dataflow_exception\<close> is a \<open>std::exception\<close> and no \<open>system_error\<close>.\<close>

definition auth_base64 :: "auth_env \<Rightarrow> byte list \<Rightarrow> exn + byte list" where
  "auth_base64 A s = (case ae_base64 A s of None \<Rightarrow> Inl Std_exception | Some bs \<Rightarrow> Inr bs)"

text \<open>
  \<open>async_auth\<close> up to its request: the identifier and the packet, if there are credentials. Hashing may
  have changed the password inside the configuration. An exception is passed on to the caller.
\<close>

definition async_auth_start :: "auth_env \<Rightarrow> 's connector \<Rightarrow> (exn + (u64 \<times> byte list) option \<times> 's connector) run" where
  "async_auth_start A k =
     (case m_credentials (c_config (m_conn k)) of
        None \<Rightarrow> Inr (Inr (None, k))
      | Some cr \<Rightarrow>
          run_bind (ScramblePassword (ae_trim A) (auth_base64 A) (ae_ctx A) (cr_password cr) (m_salt (m_conn k))) (\<lambda>r.
            case r of
              Inl e \<Rightarrow> Inr (Inl e)
            | Inr (scramble, password') \<Rightarrow>
                let conn = m_conn k;
                    cfg = (c_config conn)\<lparr>m_credentials := Some (cr\<lparr>cr_password := password'\<rparr>)\<rparr>;
                    (rid, k1) = generate_id (k\<lparr>m_conn := conn\<lparr>c_config := cfg\<rparr>\<rparr>)
                in Inr (Inr (Some (rid, auth_packet (ae_msgpack A) (ae_endian A) rid (cr_username cr) scramble), k1))))"

text \<open>
  Its end, when the response or an error has arrived. The message logged about an error response is
  built with \<open>get_error_string\<close>, which may terminate; without a logger for the level it is not built.
\<close>

definition async_auth_result :: "msgpack_lib \<Rightarrow> 's connector \<Rightarrow> error_code \<Rightarrow> iproto_frame \<Rightarrow> error_code run" where
  "async_auth_result L k ec fr =
     (if failed ec then Inr ec
      else if frame_is_error fr then
        (if log_evaluates (m_logger (c_config (m_conn k))) Info
         then run_bind (frame_get_error_string L (fst (c_stream (m_conn k))) fr) (\<lambda>text. Inr (frame_get_error_code fr))
         else Inr (frame_get_error_code fr))
      else Inr ec)"

subsection \<open>Lemmas\<close>

lemma waiting_handlers_simps [simp]:
  "waiting_handlers [] = []"
  "waiting_handlers ((rid, None) # rs) = waiting_handlers rs"
  "waiting_handlers ((rid, Some h) # rs) = h # waiting_handlers rs"
  "waiting_handlers (rs @ rs') = waiting_handlers rs @ waiting_handlers rs'"
  by (simp_all add: waiting_handlers_def map_filter_def)

lemma in_waiting_handlers: "h \<in> set (waiting_handlers rs) \<longleftrightarrow> (\<exists>rid. (rid, Some h) \<in> set rs)"
  by (force simp: waiting_handlers_def map_filter_def)

lemma call_all_ok:
  "call_all ec rs = Inr done \<Longrightarrow> done = map (\<lambda>h. (h, ec, IprotoFrame_default)) (waiting_handlers rs)"
  by (induction ec rs arbitrary: "done" rule: call_all.induct) (auto split: sum.splits)

lemma call_all_empty: "(rid, None) \<in> set rs \<Longrightarrow> call_all ec rs = Inl Std_exception"
  by (induction ec rs rule: call_all.induct) auto

lemma call_all_full: "\<forall>rid. (rid, None) \<notin> set rs \<Longrightarrow> \<exists>done. call_all ec rs = Inr done"
  by (induction ec rs rule: call_all.induct) (force split: sum.splits)+

lemma reset_Inr:
  assumes "reset k = Inr k'"
  shows "k' = k\<lparr>m_s := (if m_s k = Connected then Connecting else m_s k), m_requests := [], m_conn := stop (m_conn k),
      k_done := k_done k @ map (\<lambda>h. (h, errc (if m_s k = Stopped then operation_canceled else broken_pipe), IprotoFrame_default))
        (waiting_handlers (m_requests k))\<rparr>"
  using assms by (cases k) (auto simp: reset_def Let_def split: sum.splits if_splits dest!: call_all_ok)

lemma extract_request:
  assumes "distinct (map fst rs)" "map_of rs rid = Some ho"
  obtains rs1 rs2 where "rs = rs1 @ (rid, ho) # rs2" "filter (\<lambda>r. fst r \<noteq> rid) rs = rs1 @ rs2"
proof -
  from assms(2) obtain rs1 rs2 where rs: "rs = rs1 @ (rid, ho) # rs2" by (meson map_of_SomeD split_list)
  with assms(1) have "\<forall>r \<in> set rs1 \<union> set rs2. fst r \<noteq> rid" by (force simp: rev_image_eqI)
  then have "filter (\<lambda>r. fst r \<noteq> rid) rs = rs1 @ rs2" by (simp add: rs)
  with rs that show thesis by blast
qed

text \<open>A response takes its entry out of the table and calls the handler in it.\<close>

lemma on_message_takes:
  assumes "on_message ec msg k = Inr k'" "\<not> failed ec" "map_of (m_requests k) (sync (m_header msg)) = Some ho"
    and d: "distinct (map fst (m_requests k))"
  obtains rs1 rs2 where "m_requests k = rs1 @ (sync (m_header msg), ho) # rs2"
    "k' = (case ho of
        None \<Rightarrow> k\<lparr>m_schema_version := schema_version (m_header msg), m_requests := rs1 @ rs2\<rparr>
      | Some h \<Rightarrow> k\<lparr>m_schema_version := schema_version (m_header msg), m_requests := rs1 @ rs2,
          k_done := k_done k @ [(h, no_error, msg)]\<rparr>)"
proof -
  from extract_request [OF d assms(3)] obtain rs1 rs2 where
    "m_requests k = rs1 @ (sync (m_header msg), ho) # rs2"
    "filter (\<lambda>r. fst r \<noteq> sync (m_header msg)) (m_requests k) = rs1 @ rs2" .
  moreover from this(2) assms(1-3) have "k' = (case ho of
        None \<Rightarrow> k\<lparr>m_schema_version := schema_version (m_header msg), m_requests := rs1 @ rs2\<rparr>
      | Some h \<Rightarrow> k\<lparr>m_schema_version := schema_version (m_header msg), m_requests := rs1 @ rs2,
          k_done := k_done k @ [(h, no_error, msg)]\<rparr>)"
    by (simp add: on_message_def Let_def split: option.splits)
  ultimately show thesis using that by blast
qed

lemma async_auth_start_cases:
  assumes "async_auth_start A k = Inr (Inr (r, k'))"
  shows "if m_credentials (c_config (m_conn k)) = None then r = None \<and> k' = k
    else (\<exists>cfg data. r = Some (m_request_id k, data)
      \<and> k' = k\<lparr>m_conn := (m_conn k)\<lparr>c_config := cfg\<rparr>, m_request_id := m_request_id k + 1\<rparr>)"
proof (cases "m_credentials (c_config (m_conn k))")
  case None
  with assms show ?thesis by (auto simp: async_auth_start_def)
next
  case (Some cr)
  let ?scramble = "ScramblePassword (ae_trim A) (auth_base64 A) (ae_ctx A) (cr_password cr) (m_salt (m_conn k))"
  from assms Some obtain x where x: "?scramble = Inr x" by (auto simp: async_auth_start_def)
  with assms Some show ?thesis
    by (cases x) (auto simp: async_auth_start_def generate_id_def Let_def)
qed

lemma bind_auth_start:
  "run_bind m (\<lambda>r. case r of Inl e \<Rightarrow> f e | Inr (None, k) \<Rightarrow> g k | Inr (Some (rid, data), k) \<Rightarrow> h rid data k) = Inr y
    \<longleftrightarrow> (\<exists>e. m = Inr (Inl e) \<and> f e = Inr y) \<or> (\<exists>k. m = Inr (Inr (None, k)) \<and> g k = Inr y)
      \<or> (\<exists>rid data k. m = Inr (Inr (Some (rid, data), k)) \<and> h rid data k = Inr y)"
proof (cases m)
  case (Inr x)
  then show ?thesis
  proof (cases x)
    case [simp]: (Inr rk)
    then show ?thesis using \<open>m = Inr x\<close> by (cases rk; cases "fst rk") auto
  qed (simp add: Inr)
qed simp

lemma async_auth_start_None: "async_auth_start A k = Inr (Inr (None, k')) \<Longrightarrow> k' = k"
  by (drule async_auth_start_cases) (simp split: if_splits)

lemma async_auth_start_Some:
  assumes "async_auth_start A k = Inr (Inr (Some (rid, data), k'))"
  shows "rid = m_request_id k" "\<exists>cfg. k' = k\<lparr>m_conn := (m_conn k)\<lparr>c_config := cfg\<rparr>, m_request_id := m_request_id k + 1\<rparr>"
  using async_auth_start_cases [OF assms] by (auto split: if_splits)

lemma send_request_conn: "m_conn (send_request grow rid data h k) = send_data grow data (m_conn k)"
  by (simp add: send_request_def Let_def)

text \<open>The bytes of the requests.\<close>

lemma two_entry_frame:
  assumes "msgpack_ok L" "endian_ok E"
    "length (header_pack L h @ mp_pack L (Mp_map [(mp_field f1, o1), (mp_field f2, o2)])) < 2 ^ 32"
  shows "packer_str (finalize E (pack_map_entry L f2 o2 (pack_map_entry L f1 o1
      (begin_map_count L 2 (pack (header_pack L) h RequestPacker_init)))))
    = wire_frame (header_pack L h @ mp_pack L (Mp_map [(mp_field f1, o1), (mp_field f2, o2)]))"
  using counted_frame [OF assms(1,2), of "[(f1, o1), (f2, o2)]" h] assms(3) by (simp add: pack_map_entries_def)

lemma ping_frame:
  assumes "msgpack_ok L" "endian_ok E" "length (header_pack L h @ mp_pack L (Mp_map [])) < 2 ^ 32"
  shows "packer_str (finalize E (pack (ping_request_pack L) () (pack (header_pack L) h RequestPacker_init)))
    = wire_frame (header_pack L h @ mp_pack L (Mp_map []))"
proof -
  let ?p = "pack (ping_request_pack L) () (pack (header_pack L) h RequestPacker_init)"
  have ok: "packer_ok ?p" by (simp add: packer_ok_init)
  have "packer_body ?p = header_pack L h @ mp_pack L (Mp_map [])"
    using msgpack_pack_map [OF assms(1), of "[]"] by (simp add: packer_ok_init ping_request_pack_def)
  with wire_frame_finalize [OF ok assms(2)] assms(3) show ?thesis by simp
qed

lemma login_request_frame:
  assumes cr: "m_credentials (c_config (m_conn k)) = Some cr" and lib: "msgpack_ok (ae_msgpack A)" "endian_ok (ae_endian A)"
    and sha: "length (sha_buffer (ae_ctx A)) = 64" "length (cr_password cr) + 128 < 2 ^ 32"
    and salt: "decode_salt (ae_trim A) (auth_base64 A) (m_salt (m_conn k)) = Inr (Inr decoded)" "20 \<le> length decoded"
  shows "\<exists>scramble password'. length scramble = 20 \<and> server_accepts (sha1_spec (sha1_spec (cr_password cr))) decoded scramble
    \<and> (length (cr_password cr) \<le> 64 \<longrightarrow> password' = cr_password cr)
    \<and> async_auth_start A k = Inr (Inr (Some (m_request_id k,
          auth_packet (ae_msgpack A) (ae_endian A) (m_request_id k) (cr_username cr) scramble),
        k\<lparr>m_conn := (m_conn k)\<lparr>c_config := (c_config (m_conn k))\<lparr>m_credentials := Some (cr\<lparr>cr_password := password'\<rparr>)\<rparr>\<rparr>,
          m_request_id := m_request_id k + 1\<rparr>))"
proof -
  let ?pw = "cr_password cr"
  let ?scramble = "xor_bytes (sha1_spec ?pw) (sha1_spec (take 20 decoded @ sha1_spec (sha1_spec ?pw)))"
  from scramble_ok [OF sha salt] obtain password' where
    s: "ScramblePassword (ae_trim A) (auth_base64 A) (ae_ctx A) ?pw (m_salt (m_conn k)) = Inr (Inr (?scramble, password'))"
    and pw: "length ?pw \<le> 64 \<longrightarrow> password' = ?pw" by blast
  have "length ?scramble = 20" by (simp add: xor_bytes_def length_sha1_spec)
  moreover have "server_accepts (sha1_spec (sha1_spec ?pw)) decoded ?scramble"
    by (simp add: server_accepts_def xor_bytes_twice length_sha1_spec)
  ultimately show ?thesis using s pw
    by (intro exI [of _ ?scramble] exI [of _ password'])
      (simp add: async_auth_start_def cr generate_id_def Let_def del: run_bind_Inr)
qed

text \<open>Libraries and a connection with credentials to evaluate examples with.\<close>

definition sample_auth :: auth_env where
  "sample_auth = \<lparr>ae_msgpack = msgpack_ref, ae_endian = endian_ref, ae_trim = trim_ref, ae_base64 = (\<lambda>s. case base64_ref s of Inl e \<Rightarrow> None | Inr bs \<Rightarrow> Some bs),
     ae_ctx = \<lparr>sha_state = [], sha_count0 = 0, sha_count1 = 0, sha_buffer = replicate 64 0\<rparr>\<rparr>"

definition sample_login_conn :: "byte list connection" where
  "sample_login_conn = (Connection_init id [] (Config_default\<lparr>m_credentials :=
       Some \<lparr>cr_username = [0x75], cr_password = [0x70, 0x77]\<rparr>\<rparr>))
     \<lparr>c_open := True, m_salt := replicate 27 0x41 @ [0x3d, 0x20, 0x0a]\<rparr>"

lemma base64_ref_exn: "base64_ref s = Inl e \<Longrightarrow> e = Std_exception"
  by (induction s rule: base64_ref.induct) (auto split: option.splits sum.splits)

lemma sample_base64: "auth_base64 sample_auth = base64_ref"
  by (rule ext) (auto simp: auth_base64_def sample_auth_def dest: base64_ref_exn split: sum.splits)

lemma sample_salt_decodes:
  "decode_salt (ae_trim sample_auth) (auth_base64 sample_auth) (m_salt sample_login_conn) = Inr (Inr (replicate 20 0))"
proof -
  have "decode_salt trim_ref base64_ref (replicate 27 0x41 @ [0x3d, 0x20, 0x0a]) = Inr (Inr (replicate 20 0))"
    by code_simp
  then show ?thesis by (simp add: sample_base64 sample_login_conn_def) (simp add: sample_auth_def)
qed

definition sample_login_k :: "conn_state \<Rightarrow> byte list connector" where
  "sample_login_k s = (Connector_init sample_login_conn)\<lparr>m_s := s\<rparr>"

lemma sample_login_facts:
  "m_credentials (c_config (m_conn (sample_login_k s))) = Some \<lparr>cr_username = [0x75], cr_password = [0x70, 0x77]\<rparr>"
    "decode_salt (ae_trim sample_auth) (auth_base64 sample_auth) (m_salt (m_conn (sample_login_k s))) = Inr (Inr (replicate 20 0))"
    "m_request_id (sample_login_k s) = 0" "msgpack_ok (ae_msgpack sample_auth)" "endian_ok (ae_endian sample_auth)"
    "length (sha_buffer (ae_ctx sample_auth)) = 64"
proof -
  have "m_conn (sample_login_k s) = sample_login_conn" by (simp add: sample_login_k_def Connector_init_def)
  then show "m_credentials (c_config (m_conn (sample_login_k s))) = Some \<lparr>cr_username = [0x75], cr_password = [0x70, 0x77]\<rparr>"
    "decode_salt (ae_trim sample_auth) (auth_base64 sample_auth) (m_salt (m_conn (sample_login_k s))) = Inr (Inr (replicate 20 0))"
    by (simp_all add: sample_salt_decodes) (simp add: sample_login_conn_def Connection_init_def)
qed (simp_all add: sample_login_k_def Connector_init_def sample_auth_def msgpack_ref_ok endian_ref_ok)

lemma sample_login:
  "\<exists>data k'. async_auth_start sample_auth (sample_login_k s) = Inr (Inr (Some (0, data), k'))"
proof -
  note f = sample_login_facts
  from login_request_frame [OF f(1) [of s] f(4-6) _ f(2)] show ?thesis unfolding f(3) by auto
qed

subsection \<open>Properties\<close>

text \<open>
  C16: \<open>reset\<close> completes everything that waits. It calls every handler in the table once, with
  \<open>operation_canceled\<close> after the connector was stopped and with \<open>broken_pipe\<close> otherwise, empties the
  table, closes the socket and leaves the connected state; one empty handler in the table makes the
  receive loop fail its assertion instead.
\<close>

theorem reset_completes_all:
  "reset k = (if \<exists>rid. (rid, None) \<in> set (m_requests k) then Inl Assertion_failed
     else Inr (k\<lparr>m_s := (if m_s k = Connected then Connecting else m_s k), m_requests := [],
       m_conn := (m_conn k)\<lparr>c_open := False\<rparr>,
       k_done := k_done k @ map (\<lambda>h. (h, errc (if m_s k = Stopped then operation_canceled else broken_pipe), IprotoFrame_default))
         (waiting_handlers (m_requests k))\<rparr>))"
proof (cases "\<exists>rid. (rid, None) \<in> set (m_requests k)")
  case True
  then obtain rid where "(rid, None) \<in> set (m_requests k)" by blast
  then show ?thesis using True by (auto simp: reset_def Let_def call_all_empty)
next
  case False
  then have "\<forall>ec. \<exists>called. call_all ec (m_requests k) = Inr called" by (intro allI call_all_full) blast
  from choice [OF this] obtain f where "\<forall>ec. call_all ec (m_requests k) = Inr (f ec)" by blast
  then have "\<exists>k'. reset k = Inr k'" by (simp add: reset_def Let_def)
  then obtain k' where k': "reset k = Inr k'" by blast
  show ?thesis unfolding k' reset_Inr [OF k'] using False by (simp only: if_False stop_def)
qed

text \<open>
  C17: a request sent while the connector is not connected breaks it. The handler gets
  \<open>not_connected\<close>, but the request is sent all the same and its table entry holds the empty handler, so
  that the next \<open>reset\<close>, at the latest when the connector is stopped, fails an assertion.
\<close>

theorem unconnected_request_breaks_reset:
  assumes "m_s k \<noteq> Connected" "rid \<notin> fst ` set (m_requests k)"
  shows "k_done (send_request grow rid data h k) = k_done k @ [(h, errc not_connected, IprotoFrame_default)]
    \<and> m_conn (send_request grow rid data h k) = send_data grow data (m_conn k)
    \<and> reset (send_request grow rid data h k) = Inl Assertion_failed
    \<and> reset (destroy_connector (send_request grow rid data h k)) = Inl Assertion_failed"
proof -
  let ?k = "send_request grow rid data h k"
  have rs: "(rid, None) \<in> set (m_requests ?k)" using assms by (simp add: send_request_def insert_request_def Let_def)
  then have "(rid, None) \<in> set (m_requests (destroy_connector ?k))" by (simp add: destroy_connector_def)
  with rs show ?thesis using assms(1)
    by (simp add: reset_def Let_def call_all_empty send_request_conn) (simp add: send_request_def Let_def)
qed

theorem unconnected_request_breaks_reset_witness:
  "reset (send_request id 3 [0xce] 3 ((Connector_init (w_conn sample_world))\<lparr>m_s := Connecting\<rparr>)) = Inl Assertion_failed"
  using unconnected_request_breaks_reset [of "(Connector_init (w_conn sample_world))\<lparr>m_s := Connecting\<rparr>" 3 id "[0xce]" 3]
  by (simp add: Connector_init_def)

text \<open>
  C22: the connector's own requests have the documented wire format: one frame with the header of the
  request type and the request's identifier, and the map of exactly the fields of \<open>ping\<close>, \<open>call\<close> and
  \<open>eval\<close>, provided the message is shorter than \<open>2 ^ 32\<close> bytes.
\<close>

theorem connector_requests_wire_format:
  assumes "msgpack_ok L" "endian_ok E"
  shows "(let m = header_pack L (request_header R_Ping rid) @ mp_pack L (Mp_map [])
       in length m < 2 ^ 32 \<longrightarrow> ping_packet L E rid = wire_frame m)
    \<and> (let m = header_pack L (request_header R_Call rid)
               @ mp_pack L (Mp_map [(mp_field F_FunctionName, Mp_str function), (mp_field F_Tuple, args)])
       in length m < 2 ^ 32 \<longrightarrow> call_packet L E rid function args = wire_frame m)
    \<and> (let m = header_pack L (request_header R_Eval rid)
               @ mp_pack L (Mp_map [(mp_field F_Expr, Mp_str expression), (mp_field F_Tuple, args)])
       in length m < 2 ^ 32 \<longrightarrow> eval_packet L E rid expression args = wire_frame m)"
  unfolding Let_def ping_packet_def call_packet_def eval_packet_def
  by (intro conjI impI ping_frame two_entry_frame assms)

theorem connector_requests_wire_format_witness:
  "ping_packet msgpack_ref endian_ref 7 = wire_frame [0x82, 0x01, 0x07, 0x00, 0x40, 0x80]
   \<and> eval_packet msgpack_ref endian_ref 7 [0x31] (Mp_array [])
      = wire_frame [0x82, 0x01, 0x07, 0x00, 0x08, 0x82, 0x27, 0xa1, 0x31, 0x21, 0x90]"
  using connector_requests_wire_format [OF msgpack_ref_ok endian_ref_ok, of 7 "[]" "Mp_array []" "[0x31]"]
  by (simp add: msgpack_ref_def header_pack_def head_bytes_def field_type_val.simps request_header_def
      set_request_type_def MessageHeader_default_def Let_def)

text \<open>
  C15: the login request proves knowledge of the password. With credentials and a salt that decodes to
  twenty bytes or more, \<open>async_auth\<close> takes the next identifier and sends one frame with the user name and
  a \<open>chap-sha1\<close> scramble that a server knowing the double hash of the password accepts; a password of
  at most 64 bytes stays in the configuration unchanged.
\<close>

theorem login_request_is_accepted:
  assumes "m_credentials (c_config (m_conn k)) = Some cr" "msgpack_ok (ae_msgpack A)" "endian_ok (ae_endian A)"
    and "length (sha_buffer (ae_ctx A)) = 64" "length (cr_password cr) + 128 < 2 ^ 32"
    and "decode_salt (ae_trim A) (auth_base64 A) (m_salt (m_conn k)) = Inr (Inr decoded)" "20 \<le> length decoded"
    and "\<forall>s. length s = 20 \<longrightarrow> length (header_pack (ae_msgpack A) (request_header R_Auth (m_request_id k))
      @ mp_pack (ae_msgpack A) (Mp_map [(mp_field F_Username, Mp_str (cr_username cr)),
          (mp_field F_Tuple, Mp_array [Mp_str chap_sha1, Mp_str s])])) < 2 ^ 32"
  shows "\<exists>scramble k'. async_auth_start A k = Inr (Inr (Some (m_request_id k,
        wire_frame (header_pack (ae_msgpack A) (request_header R_Auth (m_request_id k))
          @ mp_pack (ae_msgpack A) (Mp_map [(mp_field F_Username, Mp_str (cr_username cr)),
              (mp_field F_Tuple, Mp_array [Mp_str chap_sha1, Mp_str scramble])]))), k'))
    \<and> server_accepts (sha1_spec (sha1_spec (cr_password cr))) decoded scramble
    \<and> m_request_id k' = m_request_id k + 1
    \<and> (length (cr_password cr) \<le> 64 \<longrightarrow> m_credentials (c_config (m_conn k')) = Some cr)"
proof -
  from login_request_frame [OF assms(1-7)] obtain scramble password' where s: "length scramble = 20"
    "server_accepts (sha1_spec (sha1_spec (cr_password cr))) decoded scramble"
    "length (cr_password cr) \<le> 64 \<longrightarrow> password' = cr_password cr"
    and start: "async_auth_start A k = Inr (Inr (Some (m_request_id k,
          auth_packet (ae_msgpack A) (ae_endian A) (m_request_id k) (cr_username cr) scramble),
        k\<lparr>m_conn := (m_conn k)\<lparr>c_config := (c_config (m_conn k))\<lparr>m_credentials := Some (cr\<lparr>cr_password := password'\<rparr>)\<rparr>\<rparr>,
          m_request_id := m_request_id k + 1\<rparr>))" by blast
  note frame = two_entry_frame [OF assms(2,3) assms(8) [rule_format, OF s(1)], folded auth_packet_def]
  show ?thesis using s by (intro exI [of _ scramble]) (simp add: start frame)
qed

theorem login_request_is_accepted_witness:
  "\<exists>scramble data k'. async_auth_start sample_auth (sample_login_k Connected)
        = Inr (Inr (Some (0, data), k'))
    \<and> server_accepts (sha1_spec (sha1_spec [0x70, 0x77])) (replicate 20 0) scramble \<and> m_request_id k' = 1"
proof -
  note f = sample_login_facts
  let ?msg = "\<lambda>s. header_pack (ae_msgpack sample_auth) (request_header R_Auth 0)
      @ mp_pack (ae_msgpack sample_auth) (Mp_map [(mp_field F_Username, Mp_str [0x75]),
          (mp_field F_Tuple, Mp_array [Mp_str chap_sha1, Mp_str s])])"
  have fits: "\<forall>s. length s = 20 \<longrightarrow> length (?msg s) < 2 ^ 32"
    by (simp add: sample_auth_def msgpack_ref_def header_pack_def head_bytes_def field_type_val.simps
        request_header_def set_request_type_def MessageHeader_default_def chap_sha1_def)
  show ?thesis using login_request_is_accepted [OF f(1) [of Connected] f(4-6) _ f(2)] fits unfolding f(3) by auto
qed

end
