(* ===== verification/Connector_Loop.thy ===== *)
theory Connector_Loop
  imports Connector
begin

text \<open>
  The connector as a running system: \<open>Connector::connect\<close>, the coroutine \<open>start\<close> of the receive loop with
  reconnects, the destructor, and the threads of its clients. Code on the strand runs without
  interruption between two \<open>co_await\<close>s, so each such piece is one step; what other threads do in between
  (taking an identifier, sending a request, releasing the connector) are steps of their own.
\<close>

subsection \<open>Definitions: the receive loop and the steps of a connector\<close>

text \<open>
  Where the coroutine \<open>start\<close> is suspended, and the coroutine of \<open>Connector::connect\<close>, which waits for the
  login and then reports its outcome.
\<close>

datatype loop_pc = Top | Await_connect | Await_auth handler | Await_message | Finished

datatype starter_pc = Auth_wait handler | Started error_code

text \<open>
  \<open>w_owned\<close>: the coroutine of \<open>connect\<close>, or later its caller, holds a pointer to the connector. While the
  loop waits for a login it holds one too. The destructor runs when the last one is released; the
  function it hands to the strand is then due (\<open>w_dying\<close>), unless it is released on the strand, where
  that function runs at once.

  \<open>w_issued\<close> counts the identifiers generated so far. A handler has the number of the identifier its
  request uses. \<open>w_free\<close> are the identifiers clients hold and have not sent a request with (a request
  under construction, or one given up); \<open>w_outbox\<close> are the calls of \<open>send_request\<close> dispatched to the
  strand and not run yet.
\<close>

record 's cworld =
  w_k :: "'s connector"
  w_pc :: loop_pc
  w_start :: starter_pc
  w_owned :: bool
  w_dying :: bool
  w_free :: "(u64 \<times> handler) list"
  w_outbox :: "(u64 \<times> byte list \<times> handler) list"
  w_issued :: nat

fun loop_holds :: "loop_pc \<Rightarrow> bool" where
  "loop_holds (Await_auth h) = True"
| "loop_holds _ = False"

text \<open>The owner releases its pointer.\<close>

definition release :: "'s cworld \<Rightarrow> 's cworld" where
  "release w = w\<lparr>w_owned := False, w_dying := \<not> loop_holds (w_pc w)\<rparr>"

text \<open>\<open>Connector::connect\<close> after the connection is there: the object, the spawned loop, the login.\<close>

definition connector_start :: "auth_env \<Rightarrow> 's connection \<Rightarrow> (exn + 's cworld) run" where
  "connector_start A conn =
     run_bind (async_auth_start A (Connector_init conn)) (\<lambda>r.
       case r of
         Inl e \<Rightarrow> Inr (Inl e)
       | Inr (None, k) \<Rightarrow>
           Inr (Inr \<lparr>w_k = k, w_pc = Top, w_start = Started no_error, w_owned = True, w_dying = False, w_free = [], w_outbox = [], w_issued = 0\<rparr>)
       | Inr (Some (rid, data), k) \<Rightarrow>
           Inr (Inr \<lparr>w_k = k, w_pc = Top, w_start = Auth_wait 0, w_owned = True, w_dying = False, w_free = [], w_outbox = [(rid, data, 0)], w_issued = 1\<rparr>))"

definition connector_connect ::
  "(nat \<Rightarrow> nat) \<Rightarrow> auth_env \<Rightarrow> 's reader \<Rightarrow> (string \<Rightarrow> error_code \<times> address list)
     \<Rightarrow> (address \<Rightarrow> u16 \<Rightarrow> error_code \<times> bool \<times> 's) \<Rightarrow> 's \<Rightarrow> config \<Rightarrow> (exn + error_code \<times> 's cworld option) run" where
  "connector_connect grow A rd resolve dial s cfg =
     run_bind (connect rd resolve dial (Connection_init grow s cfg)) (\<lambda>(ec, conn).
       if failed ec then Inr (Inr (ec, None))
       else run_bind (connector_start A conn) (\<lambda>r.
              case r of Inl e \<Rightarrow> Inr (Inl e) | Inr w \<Rightarrow> Inr (Inr (no_error, Some w))))"

text \<open>The login of \<open>Connector::connect\<close> has an outcome; a failed one releases the connector.\<close>

definition starter_done :: "msgpack_lib \<Rightarrow> error_code \<Rightarrow> iproto_frame \<Rightarrow> 's cworld \<Rightarrow> 's cworld run" where
  "starter_done L ec fr w =
     run_bind (async_auth_result L (w_k w) ec fr) (\<lambda>r.
       let w1 = w\<lparr>w_start := Started r\<rparr>
       in Inr (if failed r then release w1 else w1))"

definition loop_top :: "'s cworld \<Rightarrow> 's cworld run" where
  "loop_top w =
     (if m_s (w_k w) = Stopped then run_bind (reset (w_k w)) (\<lambda>k. Inr (w\<lparr>w_k := k, w_pc := Finished\<rparr>))
      else if m_s (w_k w) \<noteq> Connected then Inr (w\<lparr>w_pc := Await_connect\<rparr>)
      else Inr (w\<lparr>w_pc := Await_message\<rparr>))"

text \<open>
  \<open>connect\<close> has completed inside the loop. The login request runs at once, since the loop is on the
  strand already.
\<close>

definition loop_connected ::
  "(nat \<Rightarrow> nat) \<Rightarrow> auth_env \<Rightarrow> error_code \<Rightarrow> 's connection \<Rightarrow> 's cworld \<Rightarrow> 's cworld run" where
  "loop_connected grow A ec conn w =
     (let w1 = w\<lparr>w_k := (w_k w)\<lparr>m_conn := conn\<rparr>\<rparr>
      in if failed ec then Inr (w1\<lparr>w_pc := Top\<rparr>)
         else if \<not> w_owned w1 then Inr (w1\<lparr>w_pc := Finished\<rparr>)
         else run_bind (async_auth_start A (w_k w1)) (\<lambda>r.
           case r of
             Inl e \<Rightarrow> Inl Assertion_failed
           | Inr (None, k) \<Rightarrow> Inr (w1\<lparr>w_k := k\<lparr>m_s := Connected\<rparr>, w_pc := Await_message\<rparr>)
           | Inr (Some (rid, data), k) \<Rightarrow>
               Inr (w1\<lparr>w_k := send_request grow rid data (w_issued w1) k, w_pc := Await_auth (w_issued w1),
                       w_issued := Suc (w_issued w1)\<rparr>)))"

text \<open>
  The login of the loop has an outcome. The loop's pointer is released at the end of the block, on the
  strand; if it was the last one, the destructor has run before the loop goes on.
\<close>

definition loop_authed :: "msgpack_lib \<Rightarrow> error_code \<Rightarrow> iproto_frame \<Rightarrow> 's cworld \<Rightarrow> 's cworld run" where
  "loop_authed L ec fr w =
     run_bind (async_auth_result L (w_k w) ec fr) (\<lambda>r.
       let w1 = (if failed r then w\<lparr>w_pc := Top\<rparr>
                 else w\<lparr>w_k := (w_k w)\<lparr>m_s := Connected\<rparr>, w_pc := Await_message\<rparr>)
       in Inr (if w_owned w1 then w1 else w1\<lparr>w_k := destroy_connector (w_k w1)\<rparr>))"

definition loop_message :: "error_code \<Rightarrow> iproto_frame \<Rightarrow> 's connection \<Rightarrow> 's cworld \<Rightarrow> 's cworld run" where
  "loop_message ec msg conn w =
     run_bind (on_message ec msg ((w_k w)\<lparr>m_conn := conn\<rparr>)) (\<lambda>k. Inr (w\<lparr>w_k := k, w_pc := Top\<rparr>))"

text \<open>
  A client thread takes an identifier; later it calls \<open>send_request\<close> with the packet it has built, which
  dispatches to the strand.
\<close>

definition take_id :: "'s cworld \<Rightarrow> 's cworld" where
  "take_id w =
     (let (rid, k) = generate_id (w_k w)
      in w\<lparr>w_k := k, w_free := w_free w @ [(rid, w_issued w)], w_issued := Suc (w_issued w)\<rparr>)"

definition submit_request :: "u64 \<times> handler \<Rightarrow> byte list \<Rightarrow> 's cworld \<Rightarrow> 's cworld" where
  "submit_request i data w =
     w\<lparr>w_free := remove1 i (w_free w), w_outbox := w_outbox w @ [(fst i, data, snd i)]\<rparr>"

text \<open>The steps of the coroutine \<open>start\<close>, from one place where it is suspended to the next.\<close>

inductive loop_step :: "(nat \<Rightarrow> nat) \<Rightarrow> auth_env \<Rightarrow> 's cworld \<Rightarrow> 's cworld \<Rightarrow> bool" for grow A where
  ls_top: "w_pc w = Top \<Longrightarrow> loop_top w = Inr w' \<Longrightarrow> loop_step grow A w w'"
| ls_connected: "w_pc w = Await_connect \<Longrightarrow> connect rd resolve dial (m_conn (w_k w)) = Inr (ec, conn) \<Longrightarrow>
    loop_connected grow A ec conn w = Inr w' \<Longrightarrow> loop_step grow A w w'"
| ls_authed: "w_pc w = Await_auth h \<Longrightarrow> (h, ec, fr) \<in> set (k_done (w_k w)) \<Longrightarrow>
    loop_authed (ae_msgpack A) ec fr w = Inr w' \<Longrightarrow> loop_step grow A w w'"
| ls_message: "w_pc w = Await_message \<Longrightarrow> reader_ok rd incoming \<Longrightarrow>
    conn_receive_message (ae_msgpack A) (ae_endian A) rd (m_conn (w_k w)) = Inr ((ec, msg), conn) \<Longrightarrow>
    loop_message ec msg conn w = Inr w' \<Longrightarrow> loop_step grow A w w'"

text \<open>
  All steps of a connector: those of the loop, and in between those of its clients, of the functions
  dispatched to the strand, of the coroutine \<open>connect\<close> and of completed writes. A client has the
  connector from the moment \<open>connect\<close> reports success.
\<close>

inductive cstep :: "(nat \<Rightarrow> nat) \<Rightarrow> auth_env \<Rightarrow> 's cworld \<Rightarrow> 's cworld \<Rightarrow> bool" for grow A where
  ks_loop: "loop_step grow A w w' \<Longrightarrow> cstep grow A w w'"
| ks_id: "w_owned w \<Longrightarrow> w_start w = Started ec \<Longrightarrow> cstep grow A w (take_id w)"
| ks_submit: "w_owned w \<Longrightarrow> i \<in> set (w_free w) \<Longrightarrow> cstep grow A w (submit_request i data w)"
| ks_dispatch: "w_outbox w = xs @ (rid, data, h) # ys \<Longrightarrow>
    cstep grow A w (w\<lparr>w_k := send_request grow rid data h (w_k w), w_outbox := xs @ ys\<rparr>)"
| ks_release: "w_owned w \<Longrightarrow> w_start w = Started ec \<Longrightarrow> cstep grow A w (release w)"
| ks_destroy: "w_dying w \<Longrightarrow> cstep grow A w (w\<lparr>w_k := destroy_connector (w_k w), w_dying := False\<rparr>)"
| ks_started: "w_start w = Auth_wait h \<Longrightarrow> (h, ec, fr) \<in> set (k_done (w_k w)) \<Longrightarrow>
    starter_done (ae_msgpack A) ec fr w = Inr w' \<Longrightarrow> cstep grow A w w'"
| ks_written: "c_writes (m_conn (w_k w)) \<noteq> [] \<Longrightarrow>
    cstep grow A w (w\<lparr>w_k := (w_k w)\<lparr>m_conn := on_data_sent ec
      ((m_conn (w_k w))\<lparr>c_writes := tl (c_writes (m_conn (w_k w)))\<rparr>)\<rparr>\<rparr>)"

inductive_cases loop_stepE: "loop_step grow A w w'"
inductive_cases cstepE: "cstep grow A w w'"

text \<open>A connector starts when \<open>Connector::connect\<close> has connected; a buffer of \<open>2 ^ 63\<close> bytes cannot be allocated.\<close>

definition cinit :: "(nat \<Rightarrow> nat) \<Rightarrow> auth_env \<Rightarrow> 's cworld \<Rightarrow> bool" where
  "cinit grow A w \<longleftrightarrow> (\<exists>rd resolve dial s cfg ec. m_receive_buffer_size cfg < 2 ^ 63
     \<and> connector_connect grow A rd resolve dial s cfg = Inr (Inr (ec, Some w)))"

subsection \<open>Definitions: the accounting of handlers\<close>

text \<open>
  The accounting of handlers: each one is still with its client, or dispatched and not run yet, or waits
  in the table, or has been called, exactly one of these and once. Identifiers are the handlers' numbers,
  an empty entry of the table belongs to a handler already called, and a handler called without an
  error got a frame with its own identifier.
\<close>

definition all_handlers :: "'s cworld \<Rightarrow> handler list" where
  "all_handlers w = map snd (w_free w) @ map (snd \<circ> snd) (w_outbox w) @ waiting_handlers (m_requests (w_k w)) @ map fst (k_done (w_k w))"

definition entry_ok :: "(handler \<times> error_code \<times> iproto_frame) list \<Rightarrow> u64 \<times> handler option \<Rightarrow> bool" where
  "entry_ok called r \<longleftrightarrow>
     (case snd r of Some h \<Rightarrow> fst r = of_nat h | None \<Rightarrow> \<exists>h \<in> fst ` set called. fst r = of_nat h)"

definition handlers_ok :: "'s cworld \<Rightarrow> bool" where
  "handlers_ok w \<longleftrightarrow> (let k = w_k w in
     mset (all_handlers w) = mset [0..<w_issued w]
     \<and> m_request_id k = of_nat (w_issued w) \<and> distinct (map fst (m_requests k))
     \<and> (\<forall>(rid, h) \<in> set (w_free w). rid = of_nat h)
     \<and> (\<forall>(rid, data, h) \<in> set (w_outbox w). rid = of_nat h)
     \<and> (\<forall>r \<in> set (m_requests k). entry_ok (k_done k) r)
     \<and> (\<forall>(h, ec, fr) \<in> set (k_done k). \<not> failed ec \<longrightarrow> sync (m_header fr) = of_nat h))"

text \<open>The identifiers have not wrapped around yet.\<close>

definition cinv :: "'s cworld \<Rightarrow> bool" where
  "cinv w \<longleftrightarrow> w_issued w \<le> 2 ^ 64 \<longrightarrow> handlers_ok w"

subsection \<open>Lemmas: the outcomes of logins\<close>

text \<open>The outcome of a login changes where the coroutines are, and who owns the connector; nothing is sent or completed.\<close>

lemma loop_authed_keeps:
  assumes "loop_authed L ec fr w = Inr w'"
  shows "w_free w' = w_free w" "w_outbox w' = w_outbox w" "w_issued w' = w_issued w" "m_requests (w_k w') = m_requests (w_k w)"
    "k_done (w_k w') = k_done (w_k w)" "m_request_id (w_k w') = m_request_id (w_k w)"
    "m_sending (m_conn (w_k w')) = m_sending (m_conn (w_k w))" "m_queue (m_conn (w_k w')) = m_queue (m_conn (w_k w))"
    "c_writes (m_conn (w_k w')) = c_writes (m_conn (w_k w))" "c_stream (m_conn (w_k w')) = c_stream (m_conn (w_k w))"
  using assms by (auto simp: loop_authed_def destroy_connector_def stop_def Let_def split: if_splits)

lemma starter_done_Inr:
  assumes "starter_done L ec fr w = Inr w'"
  obtains r where "w' = w\<lparr>w_start := Started r\<rparr>" | r where "w' = release (w\<lparr>w_start := Started r\<rparr>)"
  using assms by (auto simp: starter_done_def Let_def split: if_splits)

lemma starter_done_keeps:
  assumes "starter_done L ec fr w = Inr w'"
  shows "w_k w' = w_k w" "w_pc w' = w_pc w" "w_free w' = w_free w" "w_outbox w' = w_outbox w" "w_issued w' = w_issued w"
  using assms by (auto elim!: starter_done_Inr simp: release_def)

subsection \<open>Lemmas: the accounting of handlers\<close>

lemma entry_ok_simps [simp]:
  "entry_ok called (rid, Some h) \<longleftrightarrow> rid = of_nat h"
  "entry_ok called (rid, None) \<longleftrightarrow> (\<exists>h \<in> fst ` set called. rid = of_nat h)"
  by (simp_all add: entry_ok_def)

lemma entry_ok_append: "entry_ok called r \<Longrightarrow> entry_ok (called @ more_calls) r"
  by (auto simp: entry_ok_def split: option.splits)

lemma handlers_distinct:
  assumes "handlers_ok w"
  shows "distinct (all_handlers w)" "set (all_handlers w) = {..<w_issued w}"
proof -
  have m: "mset (all_handlers w) = mset [0..<w_issued w]" using assms by (simp add: handlers_ok_def Let_def)
  then show "distinct (all_handlers w)" by (metis distinct_upt mset_eq_imp_distinct_iff)
  show "set (all_handlers w) = {..<w_issued w}" using m by (metis set_mset_mset atLeast_upt)
qed

lemma of_nat_u64_inj: "(of_nat a :: u64) = of_nat b \<Longrightarrow> a < 2 ^ 64 \<Longrightarrow> b < 2 ^ 64 \<Longrightarrow> a = b"
proof -
  assume "(of_nat a :: u64) = of_nat b" "a < 2 ^ 64" "b < 2 ^ 64"
  moreover from this(2,3) have "unat (of_nat a :: u64) = a" "unat (of_nat b :: u64) = b"
    by (simp_all add: unat_of_nat)
  ultimately show "a = b" by metis
qed

text \<open>Only six components matter.\<close>

lemma handlers_ok_cong:
  assumes "handlers_ok w" "w_free w' = w_free w" "w_outbox w' = w_outbox w" "w_issued w' = w_issued w"
    "m_requests (w_k w') = m_requests (w_k w)" "k_done (w_k w') = k_done (w_k w)"
    "m_request_id (w_k w') = m_request_id (w_k w)"
  shows "handlers_ok w'"
  using assms by (simp add: handlers_ok_def all_handlers_def Let_def)

lemma handlers_ok_take_id: "handlers_ok w \<Longrightarrow> handlers_ok (take_id w)"
  by (auto simp: handlers_ok_def all_handlers_def Let_def take_id_def generate_id_def)

lemma handlers_ok_submit:
  assumes ok: "handlers_ok w" and i: "i \<in> set (w_free w)"
  shows "handlers_ok (submit_request i data w)"
proof -
  from i obtain xs ys where fr: "w_free w = xs @ i # ys" "i \<notin> set xs" by (meson split_list_first)
  then have "w_free (submit_request i data w) = xs @ ys" by (simp add: submit_request_def remove1_append)
  then show ?thesis using ok
    by (cases i) (auto simp: handlers_ok_def all_handlers_def Let_def submit_request_def fr(1))
qed

lemma dispatched_id_fresh:
  assumes ok: "handlers_ok w" and n: "w_issued w \<le> 2 ^ 64" and ob: "w_outbox w = xs @ (rid, data, h) # ys"
  shows "rid = of_nat h" "rid \<notin> fst ` set (m_requests (w_k w))"
proof -
  show rid: "rid = of_nat h" using ok ob by (auto simp: handlers_ok_def Let_def)
  note d = handlers_distinct [OF ok]
  have h: "h \<in> set (all_handlers w)" "h \<notin> set (waiting_handlers (m_requests (w_k w)))"
    "h \<notin> fst ` set (k_done (w_k w))"
    using d(1) by (auto simp: all_handlers_def ob)
  show "rid \<notin> fst ` set (m_requests (w_k w))"
  proof
    assume "rid \<in> fst ` set (m_requests (w_k w))"
    then obtain ho where e: "(rid, ho) \<in> set (m_requests (w_k w))" by auto
    obtain h' where h': "rid = of_nat h'"
      "h' \<in> set (waiting_handlers (m_requests (w_k w))) \<or> h' \<in> fst ` set (k_done (w_k w))"
    proof (cases ho)
      case None
      with ok e have "\<exists>h \<in> fst ` set (k_done (w_k w)). rid = of_nat h" by (auto simp: handlers_ok_def Let_def)
      then show thesis using that by blast
    next
      case (Some h')
      with ok e have "rid = of_nat h'" by (auto simp: handlers_ok_def Let_def)
      moreover have "h' \<in> set (waiting_handlers (m_requests (w_k w)))" using e Some in_waiting_handlers by blast
      ultimately show thesis using that by blast
    qed
    then have "h' \<in> set (all_handlers w)" by (auto simp: all_handlers_def)
    with h(1) d(2) n have "h < 2 ^ 64" "h' < 2 ^ 64" by auto
    with rid h'(1) have "h = h'" by (intro of_nat_u64_inj) auto
    with h h'(2) show False by blast
  qed
qed

lemma handlers_ok_dispatch:
  assumes ok: "handlers_ok w" and n: "w_issued w \<le> 2 ^ 64" and ob: "w_outbox w = xs @ (rid, data, h) # ys"
  shows "handlers_ok (w\<lparr>w_k := send_request grow rid data h (w_k w), w_outbox := xs @ ys\<rparr>)"
proof -
  note fresh = dispatched_id_fresh [OF ok n ob]
  let ?w = "w\<lparr>w_k := send_request grow rid data h (w_k w), w_outbox := xs @ ys\<rparr>"
  have "mset (all_handlers ?w) = mset (all_handlers w)"
    using fresh by (auto simp: all_handlers_def ob send_request_def insert_request_def Let_def)
  then show ?thesis
    using ok fresh ob
    by (auto simp: handlers_ok_def Let_def send_request_def insert_request_def entry_ok_append)
qed

lemma handlers_ok_reset:
  assumes "handlers_ok w" "reset (w_k w) = Inr k"
  shows "handlers_ok (w\<lparr>w_k := k\<rparr>)"
  using assms(1) reset_Inr [OF assms(2)]
  by (auto simp: handlers_ok_def all_handlers_def Let_def comp_def ac_simps split: if_splits)

lemma handlers_ok_message:
  assumes ok: "handlers_ok w" and "on_message ec msg (w_k w) = Inr k"
  shows "handlers_ok (w\<lparr>w_k := k\<rparr>)"
proof (cases "failed ec")
  case True
  with assms show ?thesis by (auto simp: on_message_def intro: handlers_ok_reset)
next
  case False
  let ?rs = "m_requests (w_k w)" and ?rid = "sync (m_header msg)"
  let ?k1 = "(w_k w)\<lparr>m_schema_version := schema_version (m_header msg)\<rparr>"
  show ?thesis
  proof (cases "map_of ?rs ?rid")
    case None
    with False assms(2) have "k = ?k1" by (simp add: on_message_def Let_def)
    then show ?thesis using ok by (auto intro: handlers_ok_cong)
  next
    case (Some ho)
    have dist: "distinct (map fst ?rs)" using ok by (simp add: handlers_ok_def Let_def)
    from on_message_takes [OF assms(2) False Some dist] obtain rs1 rs2 where
      rs: "?rs = rs1 @ (?rid, ho) # rs2"
      and k: "k = (case ho of None \<Rightarrow> ?k1\<lparr>m_requests := rs1 @ rs2\<rparr>
        | Some h \<Rightarrow> ?k1\<lparr>m_requests := rs1 @ rs2, k_done := k_done (w_k w) @ [(h, no_error, msg)]\<rparr>)" .
    show ?thesis
    proof (cases ho)
      case None
      then show ?thesis using ok by (auto simp: k handlers_ok_def all_handlers_def Let_def rs)
    next
      case (Some h)
      have "mset (all_handlers (w\<lparr>w_k := k\<rparr>)) = mset (all_handlers w)"
        by (simp add: all_handlers_def k Some rs ac_simps)
      then show ?thesis using ok by (auto simp: handlers_ok_def Let_def k Some rs entry_ok_append)
    qed
  qed
qed

text \<open>The login of the loop is an identifier taken, a request submitted and run, in one step.\<close>

lemma handlers_ok_login:
  assumes ok: "handlers_ok w" and n: "Suc (w_issued w) \<le> 2 ^ 64"
    and start: "async_auth_start A (w_k w) = Inr (Inr (Some (rid, data), k))"
  shows "handlers_ok (w\<lparr>w_k := send_request grow rid data (w_issued w) k, w_issued := Suc (w_issued w)\<rparr>)"
proof -
  note auth = async_auth_start_Some [OF start]
  have "handlers_ok (w\<lparr>w_k := k, w_outbox := w_outbox w @ [(rid, data, w_issued w)], w_issued := Suc (w_issued w)\<rparr>)"
    using ok auth by (auto simp: handlers_ok_def all_handlers_def Let_def)
  from handlers_ok_dispatch [OF this, of "w_outbox w" rid data "w_issued w" "[]" grow] n show ?thesis
    by (auto intro: handlers_ok_cong)
qed

lemma cinit_cases:
  assumes "cinit grow A w"
  obtains rd resolve dial s cfg ec conn where "m_receive_buffer_size cfg < 2 ^ 63" "connect rd resolve dial (Connection_init grow s cfg) = Inr (ec, conn)"
    "\<not> failed ec" "connector_start A conn = Inr (Inr w)"
proof -
  from assms obtain rd resolve dial s cfg ec' where
    sz: "m_receive_buffer_size cfg < 2 ^ 63" and e: "connector_connect grow A rd resolve dial s cfg = Inr (Inr (ec', Some w))" by (auto simp: cinit_def)
  then obtain ec conn where c: "connect rd resolve dial (Connection_init grow s cfg) = Inr (ec, conn)"
    by (auto simp: connector_connect_def)
  with e obtain r where r: "\<not> failed ec" "connector_start A conn = Inr r"
    by (auto simp: connector_connect_def split: if_splits)
  with e c have "r = Inr w" by (cases r) (simp_all add: connector_connect_def)
  with that sz c r show thesis by blast
qed

lemma connector_start_Inr:
  assumes "connector_start A conn = Inr (Inr w)"
  shows "\<exists>cfg r. async_auth_start A (Connector_init conn) = Inr (Inr (r, w_k w)) \<and> w_pc w = Top \<and> w_owned w \<and> \<not> w_dying w \<and> w_free w = []
    \<and> w_k w = (Connector_init conn)\<lparr>m_conn := conn\<lparr>c_config := cfg\<rparr>, m_request_id := of_nat (w_issued w)\<rparr>
    \<and> (case r of None \<Rightarrow> w_outbox w = [] \<and> w_issued w = 0 \<and> w_start w = Started no_error
        | Some (rid, data) \<Rightarrow> rid = 0 \<and> w_outbox w = [(0, data, 0)] \<and> w_issued w = 1 \<and> w_start w = Auth_wait 0)"
proof -
  from assms have "(\<exists>k. async_auth_start A (Connector_init conn) = Inr (Inr (None, k))
      \<and> w = \<lparr>w_k = k, w_pc = Top, w_start = Started no_error, w_owned = True, w_dying = False, w_free = [], w_outbox = [], w_issued = 0\<rparr>)
    \<or> (\<exists>rid data k. async_auth_start A (Connector_init conn) = Inr (Inr (Some (rid, data), k))
      \<and> w = \<lparr>w_k = k, w_pc = Top, w_start = Auth_wait 0, w_owned = True, w_dying = False, w_free = [], w_outbox = [(rid, data, 0)], w_issued = 1\<rparr>)"
    by (auto simp: connector_start_def bind_auth_start simp del: run_bind_Inr)
  then show ?thesis
  proof (elim disjE exE conjE)
    fix k assume a: "async_auth_start A (Connector_init conn) = Inr (Inr (None, k))"
      and w: "w = \<lparr>w_k = k, w_pc = Top, w_start = Started no_error, w_owned = True, w_dying = False, w_free = [], w_outbox = [], w_issued = 0\<rparr>"
    show ?thesis using a async_auth_start_None [OF a]
      by (intro exI [of _ "c_config conn"] exI [of _ None]) (simp add: w Connector_init_def)
  next
    fix rid data k assume a: "async_auth_start A (Connector_init conn) = Inr (Inr (Some (rid, data), k))"
      and w: "w = \<lparr>w_k = k, w_pc = Top, w_start = Auth_wait 0, w_owned = True, w_dying = False, w_free = [], w_outbox = [(rid, data, 0)], w_issued = 1\<rparr>"
    from async_auth_start_Some [OF a] obtain cfg where "rid = 0"
      "k = (Connector_init conn)\<lparr>m_conn := conn\<lparr>c_config := cfg\<rparr>, m_request_id := 1\<rparr>" by (auto simp: Connector_init_def)
    with a show ?thesis by (intro exI [of _ cfg] exI [of _ "Some (rid, data)"]) (simp add: w)
  qed
qed

lemma cinv_init:
  assumes "cinit grow A w"
  shows "cinv w"
proof -
  from assms obtain conn where "connector_start A conn = Inr (Inr w)" by (rule cinit_cases)
  from connector_start_Inr [OF this] show ?thesis
    by (auto simp: cinv_def handlers_ok_def all_handlers_def Let_def Connector_init_def split: option.splits)
qed

lemma loop_connected_Inr:
  assumes step: "loop_connected grow A ec conn w = Inr w'"
  defines "w1 \<equiv> w\<lparr>w_k := (w_k w)\<lparr>m_conn := conn\<rparr>\<rparr>"
  shows "(failed ec \<or> \<not> w_owned w) \<and> w' = w1\<lparr>w_pc := (if failed ec then Top else Finished)\<rparr>
    \<or> (\<exists>k. async_auth_start A (w_k w1) = Inr (Inr (None, k)) \<and> w' = w1\<lparr>w_k := k\<lparr>m_s := Connected\<rparr>, w_pc := Await_message\<rparr>)
    \<or> (\<exists>rid data k. async_auth_start A (w_k w1) = Inr (Inr (Some (rid, data), k))
         \<and> w' = w1\<lparr>w_k := send_request grow rid data (w_issued w) k, w_pc := Await_auth (w_issued w), w_issued := Suc (w_issued w)\<rparr>)"
  using step by (auto simp: loop_connected_def Let_def w1_def bind_auth_start simp del: run_bind_Inr split: if_splits)

lemma loop_connected_issued: "loop_connected grow A ec conn w = Inr w' \<Longrightarrow> w_issued w \<le> w_issued w'"
  by (drule loop_connected_Inr) auto

lemma handlers_ok_connected:
  assumes ok: "handlers_ok w" and n: "w_issued w' \<le> 2 ^ 64" and step: "loop_connected grow A ec conn w = Inr w'"
  shows "handlers_ok w'"
proof -
  let ?w = "w\<lparr>w_k := (w_k w)\<lparr>m_conn := conn\<rparr>\<rparr>"
  have okw: "handlers_ok ?w" using ok by (rule handlers_ok_cong) simp_all
  from loop_connected_Inr [OF step] consider
      "w' = ?w\<lparr>w_pc := (if failed ec then Top else Finished)\<rparr>"
    | k where "async_auth_start A (w_k ?w) = Inr (Inr (None, k))"
        "w' = ?w\<lparr>w_k := k\<lparr>m_s := Connected\<rparr>, w_pc := Await_message\<rparr>"
    | rid data k where "async_auth_start A (w_k ?w) = Inr (Inr (Some (rid, data), k))"
        "w' = ?w\<lparr>w_k := send_request grow rid data (w_issued w) k, w_pc := Await_auth (w_issued w), w_issued := Suc (w_issued w)\<rparr>"
    by blast
  then show ?thesis
  proof cases
    case 1
    with okw show ?thesis by (auto intro: handlers_ok_cong)
  next
    case 2
    with async_auth_start_None [OF 2(1)] show ?thesis using okw by (auto intro: handlers_ok_cong)
  next
    case 3
    with n have "Suc (w_issued ?w) \<le> 2 ^ 64" by simp
    from handlers_ok_login [OF okw this 3(1), of grow] show ?thesis
      by (rule handlers_ok_cong) (simp_all add: 3)
  qed
qed

lemma loop_step_issued: "loop_step grow A w w' \<Longrightarrow> w_issued w \<le> w_issued w'"
  by (erule loop_step.cases) (auto simp: loop_top_def loop_authed_def loop_message_def Let_def
      split: if_splits dest: loop_connected_issued)

lemma cstep_issued:
  assumes "cstep grow A w w'"
  shows "w_issued w \<le> w_issued w'"
  using assms by cases (auto simp: take_id_def generate_id_def submit_request_def starter_done_def release_def Let_def
      dest: loop_step_issued)

lemma handlers_ok_loop:
  assumes ok: "handlers_ok w" and n: "w_issued w' \<le> 2 ^ 64" and step: "loop_step grow A w w'"
  shows "handlers_ok w'"
  using step
proof cases
  case ls_top
  show ?thesis
  proof (cases "m_s (w_k w) = Stopped")
    case True
    with ls_top obtain k where "reset (w_k w) = Inr k" "w' = w\<lparr>w_k := k, w_pc := Finished\<rparr>"
      by (auto simp: loop_top_def)
    with handlers_ok_reset [OF ok] show ?thesis by (auto intro: handlers_ok_cong)
  next
    case False
    with ls_top ok show ?thesis by (auto simp: loop_top_def split: if_splits intro: handlers_ok_cong)
  qed
next
  case (ls_message rd incoming ec msg conn)
  then obtain k where k: "on_message ec msg ((w_k w)\<lparr>m_conn := conn\<rparr>) = Inr k" "w' = w\<lparr>w_k := k, w_pc := Top\<rparr>"
    by (auto simp: loop_message_def)
  have "handlers_ok (w\<lparr>w_k := (w_k w)\<lparr>m_conn := conn\<rparr>\<rparr>)" using ok by (rule handlers_ok_cong) simp_all
  from handlers_ok_message [OF this, of ec msg k] k(1) have "handlers_ok (w\<lparr>w_k := k\<rparr>)" by simp
  then show ?thesis by (rule handlers_ok_cong) (simp_all add: k(2))
next
  case ls_connected
  then show ?thesis using handlers_ok_connected [OF ok n] by blast
next
  case ls_authed
  show ?thesis using ok by (rule handlers_ok_cong) (simp_all add: loop_authed_keeps [OF ls_authed(3)])
qed

lemma cinv_step:
  assumes inv: "cinv w" and step: "cstep grow A w w'"
  shows "cinv w'"
  unfolding cinv_def
proof
  assume n': "w_issued w' \<le> 2 ^ 64"
  with cstep_issued [OF step] inv have ok: "handlers_ok w" and n: "w_issued w \<le> 2 ^ 64" by (auto simp: cinv_def)
  from step show "handlers_ok w'"
  proof cases
    case ks_loop
    then show ?thesis by (rule handlers_ok_loop [OF ok n'])
  next
    case ks_id
    then show ?thesis using ok by (simp add: handlers_ok_take_id)
  next
    case ks_submit
    then show ?thesis using ok by (simp add: handlers_ok_submit)
  next
    case ks_dispatch
    then show ?thesis using handlers_ok_dispatch [OF ok n] by blast
  next
    case ks_started
    show ?thesis using ok by (rule handlers_ok_cong) (simp_all add: starter_done_keeps [OF ks_started(3)])
  qed (use ok in \<open>auto simp: release_def destroy_connector_def intro: handlers_ok_cong\<close>)
qed

interpretation connector: inv_system "cinit grow A" "cstep grow A" cinv
  by unfold_locales (auto intro: cinv_init cinv_step)

subsection \<open>Lemmas: the connector as a client of the connection\<close>

text \<open>
  The connector as a client of the connection: whatever it does, the send machine keeps its invariant,
  with some history of what was handed over and written.
\<close>

definition sender_inv :: "'s cworld \<Rightarrow> bool" where
  "sender_inv w \<longleftrightarrow> (\<exists>given wire. send_inv \<lparr>w_conn = m_conn (w_k w), w_given = given, w_wire = wire\<rparr>)"

lemma sender_inv_same:
  assumes "sender_inv w" "m_sending (m_conn (w_k w')) = m_sending (m_conn (w_k w))"
    "m_queue (m_conn (w_k w')) = m_queue (m_conn (w_k w))" "c_writes (m_conn (w_k w')) = c_writes (m_conn (w_k w))"
  shows "sender_inv w'"
  using assms by (simp add: sender_inv_def send_inv_def Let_def)

lemma sender_inv_send:
  assumes "sender_inv w" "m_conn (w_k w') = send_data grow data (m_conn (w_k w))"
  shows "sender_inv w'"
proof -
  from assms(1) obtain given wire where
    "send_inv \<lparr>w_conn = m_conn (w_k w), w_given = given, w_wire = wire\<rparr>" by (auto simp: sender_inv_def)
  from send_inv_send [OF this, where grow = grow and data = data] show ?thesis by (auto simp: sender_inv_def assms(2))
qed

lemma sender_inv_written:
  assumes "sender_inv w" "c_writes (m_conn (w_k w)) \<noteq> []"
    "m_conn (w_k w') = on_data_sent ec ((m_conn (w_k w))\<lparr>c_writes := tl (c_writes (m_conn (w_k w)))\<rparr>)"
  shows "sender_inv w'"
proof -
  from assms(1) obtain given wire where
    inv: "send_inv \<lparr>w_conn = m_conn (w_k w), w_given = given, w_wire = wire\<rparr>" by (auto simp: sender_inv_def)
  from send_inv_complete [OF inv, of ec] assms(2) show ?thesis
    by (auto simp: sender_inv_def assms(3) complete_write_def Let_def split: if_splits)
qed

lemma sender_inv_init:
  assumes "cinit grow A w"
  shows "sender_inv w"
proof -
  from assms obtain rd resolve dial s cfg ec conn where
    c: "connect rd resolve dial (Connection_init grow s cfg) = Inr (ec, conn)" and st: "connector_start A conn = Inr (Inr w)"
    by (rule cinit_cases)
  have "send_inv \<lparr>w_conn = conn, w_given = [], w_wire = []\<rparr>"
    using connect_same_sender [OF c] by (simp add: same_sender_def send_inv_def Connection_init_def Let_def)
  moreover from connector_start_Inr [OF st] obtain cfg' where "m_conn (w_k w) = conn\<lparr>c_config := cfg'\<rparr>"
    by (auto simp: Connector_init_def)
  ultimately show ?thesis
    by (intro sender_inv_def [THEN iffD2] exI [of _ "[]"]) (simp add: send_inv_def Let_def)
qed

lemma sender_inv_connected:
  assumes inv: "sender_inv w" and c: "connect rd resolve dial (m_conn (w_k w)) = Inr (ec, conn)"
    and step: "loop_connected grow A ec conn w = Inr w'"
  shows "sender_inv w'"
proof -
  let ?w = "w\<lparr>w_k := (w_k w)\<lparr>m_conn := conn\<rparr>\<rparr>"
  have inv1: "sender_inv ?w"
    using inv connect_same_sender [OF c] by (auto simp: same_sender_def intro: sender_inv_same)
  from loop_connected_Inr [OF step] show ?thesis
  proof (elim disjE exE conjE)
    fix k assume "async_auth_start A (w_k ?w) = Inr (Inr (None, k))"
      "w' = ?w\<lparr>w_k := k\<lparr>m_s := Connected\<rparr>, w_pc := Await_message\<rparr>"
    with async_auth_start_None inv1 show ?thesis by (fastforce intro: sender_inv_same)
  next
    fix rid data k assume a: "async_auth_start A (w_k ?w) = Inr (Inr (Some (rid, data), k))"
      and w': "w' = ?w\<lparr>w_k := send_request grow rid data (w_issued w) k, w_pc := Await_auth (w_issued w),
        w_issued := Suc (w_issued w)\<rparr>"
    from async_auth_start_Some(2) [OF a] obtain cfg where "m_conn k = conn\<lparr>c_config := cfg\<rparr>" by auto
    then have "sender_inv (?w\<lparr>w_k := k\<rparr>)" using inv1 by (auto intro: sender_inv_same)
    then show ?thesis by (rule sender_inv_send) (simp add: w' send_request_conn)
  qed (use inv1 in \<open>auto intro: sender_inv_same\<close>)
qed

lemma sender_inv_loop:
  assumes inv: "sender_inv w" and step: "loop_step grow A w w'"
  shows "sender_inv w'"
  using step
proof cases
  case ls_connected
  then show ?thesis using sender_inv_connected [OF inv] by blast
next
  case ls_top
  then show ?thesis using inv
    by (auto simp: loop_top_def stop_def split: if_splits dest!: reset_Inr intro: sender_inv_same)
next
  case (ls_message rd incoming ec msg conn)
  then obtain k where k: "on_message ec msg ((w_k w)\<lparr>m_conn := conn\<rparr>) = Inr k" "w' = w\<lparr>w_k := k, w_pc := Top\<rparr>"
    by (auto simp: loop_message_def)
  then have "m_conn k = conn \<or> m_conn k = stop conn"
    by (auto simp: on_message_def Let_def split: if_splits option.splits dest: reset_Inr)
  then show ?thesis using inv receive_same_sender [OF ls_message(3)] k(2)
    by (auto simp: same_sender_def stop_def intro: sender_inv_same)
next
  case ls_authed
  show ?thesis using inv by (rule sender_inv_same) (simp_all add: loop_authed_keeps [OF ls_authed(3)])
qed

lemma sender_inv_step:
  assumes inv: "sender_inv w" and step: "cstep grow A w w'"
  shows "sender_inv w'"
  using step
proof cases
  case ks_loop
  then show ?thesis by (rule sender_inv_loop [OF inv])
next
  case (ks_dispatch xs rid data h ys)
  then show ?thesis using inv by (auto simp: send_request_conn intro: sender_inv_send)
next
  case ks_written
  then show ?thesis using inv by (auto intro: sender_inv_written)
next
  case ks_started
  show ?thesis using inv by (rule sender_inv_same) (simp_all add: starter_done_keeps [OF ks_started(3)])
qed (use inv in \<open>auto simp: take_id_def generate_id_def submit_request_def destroy_connector_def
  release_def stop_def intro: sender_inv_same\<close>)

interpretation connector_send: inv_system "cinit grow A" "cstep grow A" sender_inv
  by unfold_locales (auto intro: sender_inv_init sender_inv_step)

text \<open>A connector that has connected without credentials, and one request waiting for its response.\<close>

lemma sample_connected_to:
  "\<exists>w :: byte list cworld. cinit id sample_auth w \<and> m_s (w_k w) = Connected \<and> m_requests (w_k w) = [] \<and> k_done (w_k w) = []
    \<and> m_request_id (w_k w) = 0 \<and> w_issued w = 0 \<and> w_owned w \<and> w_pc w = Top \<and> w_start w = Started no_error \<and> w_outbox w = [] \<and> w_free w = []
    \<and> pending id (c_stream (m_conn (w_k w))) = bs \<and> m_credentials (c_config (m_conn (w_k w))) = None
    \<and> \<not> m_sending (m_conn (w_k w))"
proof -
  let ?dial = "\<lambda>a port. (no_error, True, greeting @ bs)"
  obtain c where c: "connect (chunk_reader 9) (\<lambda>h. (no_error, [''up''])) ?dial (Connection_init id [] Config_default)
      = Inr (no_error, c)" "m_credentials (c_config c) = None" "snd (c_stream c) = bs" "ready_data (fst (c_stream c)) = []" "\<not> m_sending c"
    using mb_clear_ok [of "MutableBuffer_init 16384"] mb_ok_init [of 16384] mb_clear_ok
    by (auto simp: connect_def Connection_init_def Let_def greeting_hello Config_default_def framing_clear_def)
  let ?w = "\<lparr>w_k = Connector_init c, w_pc = Top, w_start = Started no_error, w_owned = True, w_dying = False, w_free = [], w_outbox = [], w_issued = 0\<rparr>"
  have "connector_start sample_auth c = Inr (Inr ?w)"
    using c(2) by (simp add: connector_start_def async_auth_start_def Connector_init_def del: run_bind_Inr)
  then have "connector_connect id sample_auth (chunk_reader 9) (\<lambda>h. (no_error, [''up''])) ?dial [] Config_default
      = Inr (Inr (no_error, Some ?w))"
    by (simp add: connector_connect_def c(1) del: run_bind_Inr)
  moreover have "m_receive_buffer_size Config_default < 2 ^ 63" by (simp add: Config_default_def)
  ultimately have "cinit id sample_auth ?w" unfolding cinit_def by blast
  then show ?thesis by (intro exI [of _ ?w]) (simp add: Connector_init_def c(2-5) pending_def)
qed

lemmas sample_connected = sample_connected_to [of "[0xce]"]

lemma sample_waiting_on:
  "\<exists>w :: byte list cworld. reach (cinit id sample_auth) (cstep id sample_auth) w \<and> m_requests (w_k w) = [(0, Some 0)]
    \<and> k_done (w_k w) = [] \<and> w_issued w = 1 \<and> m_s (w_k w) = Connected \<and> w_free w = [] \<and> w_outbox w = []
    \<and> w_owned w \<and> w_start w = Started no_error \<and> w_pc w = Top
    \<and> pending id (c_stream (m_conn (w_k w))) = bs \<and> m_sending (m_conn (w_k w)) \<and> m_request_id (w_k w) = 1
    \<and> m_credentials (c_config (m_conn (w_k w))) = None"
proof -
  from sample_connected_to [of bs] obtain w :: "byte list cworld" where w: "cinit id sample_auth w" "m_s (w_k w) = Connected"
    "m_requests (w_k w) = []" "k_done (w_k w) = []" "m_request_id (w_k w) = 0" "w_issued w = 0" "w_owned w"
    "w_start w = Started no_error" "w_outbox w = []" "w_free w = []" "w_pc w = Top"
    "pending id (c_stream (m_conn (w_k w))) = bs" "m_credentials (c_config (m_conn (w_k w))) = None" by blast
  let ?w1 = "take_id w"
  let ?w2 = "submit_request (0, 0) [1] ?w1"
  let ?w3 = "?w2\<lparr>w_k := send_request id 0 [1] 0 (w_k ?w2), w_outbox := [] @ []\<rparr>"
  have w1: "reach (cinit id sample_auth) (cstep id sample_auth) ?w1"
    using reach_init [where init = "cinit id sample_auth", OF w(1)] ks_id [OF w(7,8)] by (rule reach_step)
  have "cstep id sample_auth ?w1 ?w2" using w by (intro ks_submit) (simp_all add: take_id_def generate_id_def)
  with w1 have w2: "reach (cinit id sample_auth) (cstep id sample_auth) ?w2" by (rule reach_step)
  have "cstep id sample_auth ?w2 ?w3"
    using w by (intro ks_dispatch) (simp add: take_id_def generate_id_def submit_request_def)
  with w2 have "reach (cinit id sample_auth) (cstep id sample_auth) ?w3" by (rule reach_step)
  then show ?thesis using w
    by (intro exI [of _ ?w3])
      (simp add: take_id_def generate_id_def submit_request_def send_request_def insert_request_def send_defs Let_def)
qed

lemmas sample_waiting = sample_waiting_on [of "[0xce]"]

subsection \<open>Properties\<close>

text \<open>
  C3: every completion handler is called at most once and none is lost. In every reachable state, as
  long as the 64-bit identifiers have not wrapped around, each handler is with its client, dispatched,
  waiting in the table or called, exactly one of these, and a handler called without an error was
  given a response that carries the identifier of its own request.
\<close>

theorem handlers_called_once:
  assumes "reach (cinit grow A) (cstep grow A) w" "w_issued w \<le> 2 ^ 64"
  shows "distinct (map snd (w_free w) @ map (snd \<circ> snd) (w_outbox w) @ waiting_handlers (m_requests (w_k w)) @ map fst (k_done (w_k w)))
    \<and> set (map snd (w_free w) @ map (snd \<circ> snd) (w_outbox w) @ waiting_handlers (m_requests (w_k w)) @ map fst (k_done (w_k w)))
        = {..<w_issued w}
    \<and> (\<forall>(h, ec, fr) \<in> set (k_done (w_k w)). \<not> failed ec \<longrightarrow> sync (m_header fr) = of_nat h)"
proof -
  have ok: "handlers_ok w" using connector.reach_inv [OF assms(1)] assms(2) by (simp add: cinv_def)
  show ?thesis using handlers_distinct [OF ok] ok by (simp add: all_handlers_def handlers_ok_def Let_def)
qed

theorem handlers_called_once_witness:
  "\<exists>w :: byte list cworld. reach (cinit id sample_auth) (cstep id sample_auth) w \<and> w_issued w = 1
    \<and> waiting_handlers (m_requests (w_k w)) = [0] \<and> k_done (w_k w) = []
    \<and> set (map snd (w_free w) @ map (snd \<circ> snd) (w_outbox w) @ waiting_handlers (m_requests (w_k w)) @ map fst (k_done (w_k w)))
        = {..<w_issued w}"
proof -
  from sample_waiting obtain w :: "byte list cworld" where w: "reach (cinit id sample_auth) (cstep id sample_auth) w"
    "m_requests (w_k w) = [(0, Some 0)]" "k_done (w_k w) = []" "w_issued w = 1" by blast
  have "w_issued w \<le> 2 ^ 64" by (simp add: w(4))
  from handlers_called_once [OF w(1) this] w show ?thesis by (intro exI [of _ w]) (simp del: set_append set_map)
qed

text \<open>
  C8: a response reaches the handler of its request and only that one. The receive loop stores the
  schema version, takes the entry with the response's sync out of the table, calls its handler with
  the message, and leaves the other entries; a response nobody waits for is dropped.
\<close>

theorem response_reaches_handler:
  assumes "reach (cinit grow A) (cstep grow A) w" "w_issued w \<le> 2 ^ 64" "\<not> failed ec"
  shows "\<exists>w'. loop_message ec msg conn w = Inr w' \<and> w_pc w' = Top
    \<and> m_schema_version (w_k w') = schema_version (m_header msg) \<and> m_conn (w_k w') = conn
    \<and> set (m_requests (w_k w')) = {r \<in> set (m_requests (w_k w)). fst r \<noteq> sync (m_header msg)}
    \<and> (\<forall>h. (sync (m_header msg), Some h) \<in> set (m_requests (w_k w)) \<longrightarrow>
          k_done (w_k w') = k_done (w_k w) @ [(h, no_error, msg)])
    \<and> ((\<forall>h. (sync (m_header msg), Some h) \<notin> set (m_requests (w_k w))) \<longrightarrow> k_done (w_k w') = k_done (w_k w))"
proof -
  have "distinct (map fst (m_requests (w_k w)))"
    using connector.reach_inv [OF assms(1)] assms(2) by (simp add: cinv_def handlers_ok_def Let_def)
  then have look: "(rid, ho) \<in> set (m_requests (w_k w)) \<longleftrightarrow> map_of (m_requests (w_k w)) rid = Some ho" for rid ho
    by simp
  show ?thesis
  proof (cases "map_of (m_requests (w_k w)) (sync (m_header msg))")
    case None
    then have "\<forall>r \<in> set (m_requests (w_k w)). fst r \<noteq> sync (m_header msg)" by (force simp: map_of_eq_None_iff)
    with None assms(3) show ?thesis
      by (auto simp: loop_message_def on_message_def Let_def look simp del: run_bind_Inr)
  next
    case (Some ho)
    then show ?thesis using assms(3)
      by (cases ho) (auto simp: loop_message_def on_message_def Let_def look simp del: run_bind_Inr)
  qed
qed

theorem response_reaches_handler_witness:
  "\<exists>w w' :: byte list cworld. loop_message no_error IprotoFrame_default (m_conn (w_k w)) w = Inr w'
    \<and> m_requests (w_k w) = [(0, Some 0)] \<and> m_requests (w_k w') = [] \<and> k_done (w_k w') = [(0, no_error, IprotoFrame_default)]"
proof -
  from sample_waiting obtain w :: "byte list cworld" where w: "reach (cinit id sample_auth) (cstep id sample_auth) w"
    "m_requests (w_k w) = [(0, Some 0)]" "k_done (w_k w) = []" "w_issued w = 1" by blast
  have "w_issued w \<le> 2 ^ 64" "\<not> failed no_error" by (simp_all add: w(4))
  from response_reaches_handler [OF w(1) this, of IprotoFrame_default "m_conn (w_k w)"]
  obtain w' where w': "loop_message no_error IprotoFrame_default (m_conn (w_k w)) w = Inr w'"
    "set (m_requests (w_k w')) = {r \<in> set (m_requests (w_k w)). fst r \<noteq> sync (m_header IprotoFrame_default)}"
    "(sync (m_header IprotoFrame_default), Some 0) \<in> set (m_requests (w_k w)) \<longrightarrow>
       k_done (w_k w') = k_done (w_k w) @ [(0, no_error, IprotoFrame_default)]" by blast
  have "sync (m_header IprotoFrame_default) = 0" by (simp add: IprotoFrame_default_def MessageHeader_default_def)
  with w'(2,3) w(2,3) have "set (m_requests (w_k w')) = {}" "k_done (w_k w') = [(0, no_error, IprotoFrame_default)]"
    by auto
  then have "m_requests (w_k w') = []" "k_done (w_k w') = [(0, no_error, IprotoFrame_default)]" by simp_all
  with w'(1) w(2) show ?thesis by blast
qed

text \<open>
  C20: a connector with credentials cannot reconnect. The login of the receive loop is sent while the
  state is still \<open>Connecting\<close>, so its handler gets \<open>not_connected\<close> at once; the loop tries again, and the
  next \<open>connect\<close> fails its assertion because the socket of the first attempt is open.
\<close>

theorem reconnect_with_credentials_aborts:
  assumes "m_s (w_k w) = Connecting" "w_owned w" "m_credentials (c_config conn) \<noteq> None" "c_open conn"
    and "loop_connected grow A no_error conn w = Inr w'"
  shows "\<exists>w2. w_pc w' = Await_auth (w_issued w)
    \<and> (w_issued w, errc not_connected, IprotoFrame_default) \<in> set (k_done (w_k w'))
    \<and> run_bind (loop_authed (ae_msgpack A) (errc not_connected) IprotoFrame_default w') loop_top = Inr w2 \<and> w_pc w2 = Await_connect
    \<and> connect rd resolve dial (m_conn (w_k w2)) = Inl Assertion_failed"
proof -
  let ?k = "(w_k w)\<lparr>m_conn := conn\<rparr>"
  from loop_connected_Inr [OF assms(5)] assms(2) have "\<exists>r k. async_auth_start A ?k = Inr (Inr (r, k))
      \<and> (r \<noteq> None \<longrightarrow> w' = w\<lparr>w_k := send_request grow (fst (the r)) (snd (the r)) (w_issued w) k, w_pc := Await_auth (w_issued w),
          w_issued := Suc (w_issued w)\<rparr>)" by auto
  then obtain r k where a: "async_auth_start A ?k = Inr (Inr (r, k))"
    and w': "r \<noteq> None \<longrightarrow> w' = w\<lparr>w_k := send_request grow (fst (the r)) (snd (the r)) (w_issued w) k,
      w_pc := Await_auth (w_issued w), w_issued := Suc (w_issued w)\<rparr>" by blast
  from async_auth_start_cases [OF a] assms(3) obtain cfg data where r: "r = Some (m_request_id (w_k w), data)"
    and k: "k = ?k\<lparr>m_conn := conn\<lparr>c_config := cfg\<rparr>, m_request_id := m_request_id (w_k w) + 1\<rparr>" by auto
  have "c_open (send_data grow data (conn\<lparr>c_config := cfg\<rparr>))" using assms(4) by (simp add: send_defs)
  then show ?thesis using assms(1,2) w' r
    by (simp add: k send_request_def Let_def loop_authed_def async_auth_result_def loop_top_def connect_def)
qed

theorem reconnect_with_credentials_aborts_witness:
  "\<exists>w2 :: byte list cworld. w_pc w2 = Await_connect
    \<and> connect (chunk_reader 9) (\<lambda>h. (no_error, [''up''])) sample_dial (m_conn (w_k w2)) = Inl Assertion_failed"
proof -
  obtain data k' where
    a: "async_auth_start sample_auth (sample_login_k Connecting) = Inr (Inr (Some (0, data), k'))"
    using sample_login by blast
  let ?w = "\<lparr>w_k = sample_login_k Connecting, w_pc = Await_connect, w_start = Started no_error,
      w_owned = True, w_dying = False, w_free = [], w_outbox = [], w_issued = 0\<rparr>"
  have "\<exists>w'. loop_connected id sample_auth no_error sample_login_conn ?w = Inr w'"
    using a by (simp add: loop_connected_def sample_login_k_def Connector_init_def Let_def del: run_bind_Inr)
  then obtain w' where w': "loop_connected id sample_auth no_error sample_login_conn ?w = Inr w'" by blast
  have "m_s (w_k ?w) = Connecting" "w_owned ?w" "m_credentials (c_config sample_login_conn) \<noteq> None" "c_open sample_login_conn"
    by (simp_all add: sample_login_conn_def Connection_init_def sample_login_k_def)
  from reconnect_with_credentials_aborts [OF this w', of "chunk_reader 9" "\<lambda>h. (no_error, [''up''])" sample_dial]
  show ?thesis by blast
qed

text \<open>
  C21: a refused login can pass for a success. If the response to the login is an error, the connection
  attempt reports an error and releases the connector exactly if the server's code is between 1 and 280;
  with any other code the error is lost and \<open>connect\<close> hands out the connector. The process ends
  instead exactly when a logger takes messages of level \<open>Info\<close> and \<open>get_error_string\<close> terminates.
\<close>

theorem refused_login_may_pass:
  assumes "frame_is_error fr"
  shows "(\<forall>r. async_auth_result L (w_k w) no_error fr = Inr r \<longrightarrow> (failed r \<longleftrightarrow>
      1 \<le> unat (request_type (m_header fr)) - 0x8000 \<and> unat (request_type (m_header fr)) - 0x8000 \<le> 280))
    \<and> (\<forall>w'. starter_done L no_error fr w = Inr w' \<longrightarrow> w_owned w'
        = (w_owned w \<and> \<not> (1 \<le> unat (request_type (m_header fr)) - 0x8000 \<and> unat (request_type (m_header fr)) - 0x8000 \<le> 280)))
    \<and> ((\<exists>w'. starter_done L no_error fr w = Inr w') \<longleftrightarrow>
        \<not> (log_evaluates (m_logger (c_config (m_conn (w_k w)))) Info
           \<and> (\<exists>a. frame_get_error_string L (fst (c_stream (m_conn (w_k w)))) fr = Inl a)))"
proof -
  let ?code = "1 \<le> unat (request_type (m_header fr)) - 0x8000 \<and> unat (request_type (m_header fr)) - 0x8000 \<le> 280"
  have h: "header_is_error (m_header fr)" using assms by (simp add: frame_is_error_def)
  have f: "failed (frame_get_error_code fr) \<longleftrightarrow> ?code"
    using error_code_failed_iff [OF h] assms h by (simp add: frame_get_error_code_def)
  have r: "r = frame_get_error_code fr" if "async_auth_result L (w_k w) no_error fr = Inr r" for r
    using that assms by (auto simp: async_auth_result_def split: if_splits)
  have "(\<exists>r. async_auth_result L (w_k w) no_error fr = Inr r) \<longleftrightarrow>
      \<not> (log_evaluates (m_logger (c_config (m_conn (w_k w)))) Info
         \<and> (\<exists>a. frame_get_error_string L (fst (c_stream (m_conn (w_k w)))) fr = Inl a))"
    using assms by (cases "frame_get_error_string L (fst (c_stream (m_conn (w_k w)))) fr") (simp_all add: async_auth_result_def)
  moreover have "(\<exists>w'. starter_done L no_error fr w = Inr w') \<longleftrightarrow> (\<exists>r. async_auth_result L (w_k w) no_error fr = Inr r)"
    by (auto simp: starter_done_def Let_def)
  moreover have "w_owned w' = (w_owned w \<and> \<not> ?code)" if "starter_done L no_error fr w = Inr w'" for w'
    using that r f by (auto simp: starter_done_def release_def Let_def)
  ultimately show ?thesis using r f by blast
qed

theorem refused_login_may_pass_witness:
  "\<exists>w w1 w2 :: byte list cworld. w_owned w
    \<and> starter_done msgpack_ref no_error \<lparr>m_header = MessageHeader_default\<lparr>request_type := 0x8000 + 281\<rparr>, m_body = FrozenBuffer_default\<rparr> w = Inr w1
    \<and> w_owned w1
    \<and> starter_done msgpack_ref no_error \<lparr>m_header = MessageHeader_default\<lparr>request_type := 0x8000 + 47\<rparr>, m_body = FrozenBuffer_default\<rparr> w = Inr w2
    \<and> \<not> w_owned w2"
proof -
  let ?fr = "\<lambda>c. \<lparr>m_header = MessageHeader_default\<lparr>request_type := c\<rparr>, m_body = FrozenBuffer_default\<rparr>"
  let ?w = "\<lparr>w_k = sample_login_k Connecting, w_pc = Top, w_start = Auth_wait 0,
      w_owned = True, w_dying = False, w_free = [], w_outbox = [], w_issued = 1\<rparr> :: byte list cworld"
  have log: "m_logger (c_config (m_conn (w_k ?w))) = None"
    by (simp add: sample_login_k_def sample_login_conn_def Connector_init_def Connection_init_def Config_default_def)
  have e: "frame_is_error (?fr (0x8000 + 281))" "frame_is_error (?fr (0x8000 + 47))"
    by (simp_all add: frame_is_error_def header_is_error_def is_error_req_type_def)
  from e [THEN refused_login_may_pass, of msgpack_ref ?w] obtain w1 w2 where
    w: "starter_done msgpack_ref no_error (?fr (0x8000 + 281)) ?w = Inr w1"
      "starter_done msgpack_ref no_error (?fr (0x8000 + 47)) ?w = Inr w2"
    unfolding log by (auto simp: log_evaluates_def)
  from e [THEN refused_login_may_pass, of msgpack_ref ?w] w have "w_owned w1" "\<not> w_owned w2" by simp_all
  with w show ?thesis by (intro exI [of _ ?w] exI [of _ w1] exI [of _ w2]) simp
qed

end
