(* ===== verification/Box.thy ===== *)
theory Box
  imports Connector_Loop
begin

text \<open>
  The data manipulation requests of \<open>box/tntpp_box.h\<close>: spaces and indexes given by number or name, the
  select builder and the requests of \<open>Box\<close>. A request is built by its client, who has taken an
  identifier of the connector; the coroutine then resolves the space and hands the finished packet to
  \<open>Connector::send_request\<close>. When the space is given by name, that happens after a detour to the strand, on which
  depends what is still there of the arguments of the call (\<open>caller\<close>). The schema lookup is a placeholder in the code, and so are two overloads
  of \<open>select\<close> without a body; \<open>remove\<close> with an index does not compile when it is used, as it passes a
  \<open>Space\<close> where an \<open>Index\<close> is needed.
\<close>

subsection \<open>Definitions: spaces, indexes and iterators\<close>

text \<open>\<open>SpaceVariant\<close>, and so \<open>Space\<close> and \<open>Index\<close>: nothing, a name, or a number.\<close>

datatype space_variant = SV_monostate | SV_name "byte list" | SV_id u64

datatype select_iterator = It_EQ | It_REQ | It_ALL | It_LT | It_TE | It_GE | It_GT | It_BITS_ALL_SET
  | It_BITS_ANY_SET | It_BITS_ALL_NOT_SET | It_OVERLAPS | It_NEIGHBOR

fun select_iterator_val :: "select_iterator \<Rightarrow> u64" where
  "select_iterator_val It_EQ = 0"
| "select_iterator_val It_REQ = 1"
| "select_iterator_val It_ALL = 2"
| "select_iterator_val It_LT = 3"
| "select_iterator_val It_TE = 4"
| "select_iterator_val It_GE = 5"
| "select_iterator_val It_GT = 6"
| "select_iterator_val It_BITS_ALL_SET = 7"
| "select_iterator_val It_BITS_ANY_SET = 8"
| "select_iterator_val It_BITS_ALL_NOT_SET = 9"
| "select_iterator_val It_OVERLAPS = 10"
| "select_iterator_val It_NEIGHBOR = 11"

subsection \<open>Definitions: SelectBuilder\<close>

record select_request =
  sr_sync :: u64
  sr_space :: space_variant
  sr_index :: space_variant
  sr_packer :: request_packer

definition SelectBuilder_init :: "msgpack_lib \<Rightarrow> space_variant \<Rightarrow> u64 \<Rightarrow> select_request" where
  "SelectBuilder_init L space request_id =
     \<lparr>sr_sync = request_id, sr_space = space, sr_index = SV_monostate,
      sr_packer = begin_map (pack (header_pack L) (request_header R_Select request_id) RequestPacker_init)\<rparr>"

definition SelectBuilder_init_index :: "msgpack_lib \<Rightarrow> space_variant \<Rightarrow> space_variant \<Rightarrow> u64 \<Rightarrow> select_request" where
  "SelectBuilder_init_index L space index request_id =
     \<lparr>sr_sync = request_id, sr_space = space, sr_index = index,
      sr_packer = begin_map (pack (header_pack L) (request_header R_Select request_id) RequestPacker_init)\<rparr>"

definition select_index :: "space_variant \<Rightarrow> select_request \<Rightarrow> select_request" where
  "select_index index r = r\<lparr>sr_index := index\<rparr>"

definition select_limit :: "msgpack_lib \<Rightarrow> u64 \<Rightarrow> select_request \<Rightarrow> select_request" where
  "select_limit L v r = r\<lparr>sr_packer := pack_map_entry L F_Limit (Mp_uint v) (sr_packer r)\<rparr>"

definition select_offset :: "msgpack_lib \<Rightarrow> u64 \<Rightarrow> select_request \<Rightarrow> select_request" where
  "select_offset L v r = r\<lparr>sr_packer := pack_map_entry L F_Offset (Mp_uint v) (sr_packer r)\<rparr>"

definition select_iterator_entry :: "msgpack_lib \<Rightarrow> select_iterator \<Rightarrow> select_request \<Rightarrow> select_request" where
  "select_iterator_entry L it r =
     r\<lparr>sr_packer := pack_map_entry L F_Iterator (Mp_uint (select_iterator_val it)) (sr_packer r)\<rparr>"

definition select_key :: "msgpack_lib \<Rightarrow> mp_object \<Rightarrow> select_request \<Rightarrow> select_request" where
  "select_key L key r = r\<lparr>sr_packer := pack_map_entry L F_Key key (sr_packer r)\<rparr>"

definition select_after_position :: "msgpack_lib \<Rightarrow> byte list \<Rightarrow> select_request \<Rightarrow> select_request" where
  "select_after_position L pos r = r\<lparr>sr_packer := pack_map_entry L F_AfterPosition (Mp_str pos) (sr_packer r)\<rparr>"

definition select_after_tuple :: "msgpack_lib \<Rightarrow> mp_object \<Rightarrow> select_request \<Rightarrow> select_request" where
  "select_after_tuple L pos r = r\<lparr>sr_packer := pack_map_entry L F_AfterTuple pos (sr_packer r)\<rparr>"

definition select_fetch_position :: "msgpack_lib \<Rightarrow> bool \<Rightarrow> select_request \<Rightarrow> select_request" where
  "select_fetch_position L val r = r\<lparr>sr_packer := pack_map_entry L F_FetchPosition (Mp_bool val) (sr_packer r)\<rparr>"

subsection \<open>Definitions: Box\<close>

text \<open>A name resolves to the space, or index, with number zero, whatever the schema says.\<close>

definition get_space_index :: "space_variant \<Rightarrow> error_code \<times> u64" where
  "get_space_index space =
     (case space of
        SV_monostate \<Rightarrow> (errc invalid_argument, 0)
      | SV_id n \<Rightarrow> (no_error, n)
      | SV_name name \<Rightarrow> (no_error, 0))"

definition get_index_id :: "space_variant \<Rightarrow> error_code \<times> u64" where
  "get_index_id index =
     (case index of
        SV_monostate \<Rightarrow> (errc invalid_argument, 0)
      | SV_id n \<Rightarrow> (no_error, n)
      | SV_name name \<Rightarrow> (no_error, 0))"

text \<open>
  The packet a request sends, or the error it completes with when the space cannot be resolved. The
  index of a select request is not used.
\<close>

definition box_select :: "msgpack_lib \<Rightarrow> endian_lib \<Rightarrow> select_request \<Rightarrow> (error_code + u64 \<times> byte list) run" where
  "box_select L E builder =
     (let (ec, space_index) = get_space_index (sr_space builder)
      in if failed ec then Inr (Inl ec)
         else run_bind (finalize_map E (pack_map_entry L F_SpaceId (Mp_uint space_index) (sr_packer builder))) (\<lambda>packer.
           Inr (Inr (sr_sync builder, packer_str (finalize E packer)))))"

text \<open>
  Who calls a request: whether on the strand of the connection, and whether the completion token keeps the
  arguments of the operation until it completes, as an awaited deferred operation does; otherwise
  they are gone when the call returns, as with a plain callback.
\<close>

record caller =
  running_in_this_thread :: bool
  keeps_arguments :: bool

text \<open>
  To look a name up, \<open>get_space_index\<close> moves to the strand, which posts the rest of the coroutine: the
  call of the request returns before it goes on.
\<close>

definition lookup_suspends :: "caller \<Rightarrow> space_variant \<Rightarrow> bool" where
  "lookup_suspends cl space =
     (case space of SV_name name \<Rightarrow> \<not> running_in_this_thread cl | _ \<Rightarrow> False)"

text \<open>
  The coroutine \<open>insert\<close>, \<open>replace\<close> and \<open>remove\<close> share: space, size field, packet. \<open>packer_alive\<close> tells
  whether the packer the coroutine uses after the lookup is still there.
\<close>

definition with_space ::
  "msgpack_lib \<Rightarrow> endian_lib \<Rightarrow> bool \<Rightarrow> u64 \<Rightarrow> space_variant \<Rightarrow> request_packer \<Rightarrow> (error_code + u64 \<times> byte list) run" where
  "with_space L E packer_alive sync_id space packer =
     (let (ec, space_index) = get_space_index space
      in if failed ec then Inr (Inl ec)
         else if \<not> packer_alive then Inl Dangling_reference
         else Inr (Inr (sync_id, packer_str (finalize E (pack_map_entry L F_SpaceId (Mp_uint space_index) packer)))))"

text \<open>The coroutines of \<open>insert\<close> and \<open>replace\<close> take the packer by value.\<close>

definition box_insert ::
  "msgpack_lib \<Rightarrow> endian_lib \<Rightarrow> caller \<Rightarrow> u64 \<Rightarrow> space_variant \<Rightarrow> mp_object \<Rightarrow> (error_code + u64 \<times> byte list) run" where
  "box_insert L E cl rid space tuple =
     with_space L E True rid space (pack_map_entry L F_Tuple tuple
       (begin_map_count L 2 (pack (header_pack L) (request_header R_Insert rid) RequestPacker_init)))"

definition box_replace ::
  "msgpack_lib \<Rightarrow> endian_lib \<Rightarrow> caller \<Rightarrow> u64 \<Rightarrow> space_variant \<Rightarrow> mp_object \<Rightarrow> (error_code + u64 \<times> byte list) run" where
  "box_replace L E cl rid space tuple =
     with_space L E True rid space (pack_map_entry L F_Tuple tuple
       (begin_map_count L 2 (pack (header_pack L) (request_header R_Replace rid) RequestPacker_init)))"

text \<open>The coroutine of \<open>remove\<close> takes the packer by reference: after a suspension it is there only if the token keeps it.\<close>

definition box_remove ::
  "msgpack_lib \<Rightarrow> endian_lib \<Rightarrow> caller \<Rightarrow> u64 \<Rightarrow> space_variant \<Rightarrow> mp_object \<Rightarrow> (error_code + u64 \<times> byte list) run" where
  "box_remove L E cl rid space key =
     with_space L E (\<not> lookup_suspends cl space \<or> keeps_arguments cl) rid space (pack_map_entry L F_Key key
       (begin_map_count L 2 (pack (header_pack L) (request_header R_Delete rid) RequestPacker_init)))"

text \<open>The contract the three requests share: a type, the field of their argument, and how the coroutine takes the packer.\<close>

locale space_request =
  fixes request :: "msgpack_lib \<Rightarrow> endian_lib \<Rightarrow> caller \<Rightarrow> u64 \<Rightarrow> space_variant \<Rightarrow> mp_object \<Rightarrow> (error_code + u64 \<times> byte list) run"
    and type :: request_type and field :: field_type and by_value :: bool
  assumes request_packs: "request L E cl rid space obj =
    with_space L E (by_value \<or> \<not> lookup_suspends cl space \<or> keeps_arguments cl) rid space (pack_map_entry L field obj
      (begin_map_count L 2 (pack (header_pack L) (request_header type rid) RequestPacker_init)))"
begin

lemma unset_space: "request L E cl rid SV_monostate obj = Inr (Inl (errc invalid_argument))"
  by (simp add: request_packs with_space_def get_space_index_def)

lemma named_space:
  "request L E cl rid (SV_name name) obj =
    (if by_value \<or> running_in_this_thread cl \<or> keeps_arguments cl then request L E cl rid (SV_id 0) obj
     else Inl Dangling_reference)"
  by (simp add: request_packs with_space_def get_space_index_def lookup_suspends_def)

lemma request_frame:
  assumes "msgpack_ok L" "endian_ok E"
    "length (header_pack L (request_header type rid) @ mp_pack L (Mp_map [(mp_field field, obj), (mp_field F_SpaceId, Mp_uint n)])) < 2 ^ 32"
  shows "request L E cl rid (SV_id n) obj = Inr (Inr (rid, wire_frame (header_pack L (request_header type rid)
    @ mp_pack L (Mp_map [(mp_field field, obj), (mp_field F_SpaceId, Mp_uint n)]))))"
  using two_entry_frame [OF assms] by (simp add: request_packs with_space_def get_space_index_def lookup_suspends_def)

end

interpretation ins: space_request box_insert R_Insert F_Tuple True
  by unfold_locales (simp add: box_insert_def)

interpretation repl: space_request box_replace R_Replace F_Tuple True
  by unfold_locales (simp add: box_replace_def)

interpretation rem: space_request box_remove R_Delete F_Key False
  by unfold_locales (simp add: box_remove_def)

text \<open>
  \<open>get_select_builder\<close>, and a request as the client sees it: an identifier is taken first; then the
  handler gets the error at once, or the packet goes to the connector.
\<close>

definition get_select_builder :: "msgpack_lib \<Rightarrow> space_variant \<Rightarrow> 's cworld \<Rightarrow> select_request \<times> 's cworld" where
  "get_select_builder L space w = (SelectBuilder_init L space (m_request_id (w_k w)), take_id w)"

definition get_select_builder_index ::
  "msgpack_lib \<Rightarrow> space_variant \<Rightarrow> space_variant \<Rightarrow> 's cworld \<Rightarrow> select_request \<times> 's cworld" where
  "get_select_builder_index L space index w =
     (SelectBuilder_init_index L space index (m_request_id (w_k w)), take_id w)"

definition box_send ::
  "handler \<Rightarrow> (error_code + u64 \<times> byte list) run \<Rightarrow> 's cworld \<Rightarrow> (error_code option \<times> 's cworld) run" where
  "box_send h request w =
     run_bind request (\<lambda>r. Inr (case r of
        Inl ec \<Rightarrow> (Some ec, w)
      | Inr (rid, data) \<Rightarrow> (None, submit_request (rid, h) data w)))"

definition box_request ::
  "(u64 \<Rightarrow> (error_code + u64 \<times> byte list) run) \<Rightarrow> 's cworld \<Rightarrow> (error_code option \<times> 's cworld) run" where
  "box_request request w = box_send (w_issued w) (request (m_request_id (w_k w))) (take_id w)"

text \<open>The calls a client can make on a builder, and the entry of the request's body each adds.\<close>

datatype select_call =
    C_index space_variant
  | C_limit u64
  | C_offset u64
  | C_iterator select_iterator
  | C_key mp_object
  | C_after_position "byte list"
  | C_after_tuple mp_object
  | C_fetch_position bool

fun builder_call :: "msgpack_lib \<Rightarrow> select_call \<Rightarrow> select_request \<Rightarrow> select_request" where
  "builder_call L (C_index i) r = select_index i r"
| "builder_call L (C_limit v) r = select_limit L v r"
| "builder_call L (C_offset v) r = select_offset L v r"
| "builder_call L (C_iterator it) r = select_iterator_entry L it r"
| "builder_call L (C_key key) r = select_key L key r"
| "builder_call L (C_after_position pos) r = select_after_position L pos r"
| "builder_call L (C_after_tuple pos) r = select_after_tuple L pos r"
| "builder_call L (C_fetch_position val) r = select_fetch_position L val r"

definition builder_calls :: "msgpack_lib \<Rightarrow> select_call list \<Rightarrow> select_request \<Rightarrow> select_request" where
  "builder_calls L calls r = fold (builder_call L) calls r"

fun call_entries :: "select_call \<Rightarrow> (field_type \<times> mp_object) list" where
  "call_entries (C_index i) = []"
| "call_entries (C_limit v) = [(F_Limit, Mp_uint v)]"
| "call_entries (C_offset v) = [(F_Offset, Mp_uint v)]"
| "call_entries (C_iterator it) = [(F_Iterator, Mp_uint (select_iterator_val it))]"
| "call_entries (C_key key) = [(F_Key, key)]"
| "call_entries (C_after_position pos) = [(F_AfterPosition, Mp_str pos)]"
| "call_entries (C_after_tuple pos) = [(F_AfterTuple, pos)]"
| "call_entries (C_fetch_position val) = [(F_FetchPosition, Mp_bool val)]"

definition select_entries :: "select_call list \<Rightarrow> u64 \<Rightarrow> (field_type \<times> mp_object) list" where
  "select_entries calls n = concat (map call_entries calls) @ [(F_SpaceId, Mp_uint n)]"

subsection \<open>Lemmas\<close>

lemmas builder_defs = select_index_def select_limit_def select_offset_def select_iterator_entry_def select_key_def
  select_after_position_def select_after_tuple_def select_fetch_position_def

lemma pack_map_entries_append: "pack_map_entries L (es @ es') p = pack_map_entries L es' (pack_map_entries L es p)"
  by (simp add: pack_map_entries_def)

lemma builder_call_effect:
  "sr_packer (builder_call L c r) = pack_map_entries L (call_entries c) (sr_packer r)"
  "sr_sync (builder_call L c r) = sr_sync r" "sr_space (builder_call L c r) = sr_space r"
  by (cases c; simp add: builder_defs pack_map_entries_def)+

lemma builder_calls_effect:
  "sr_packer (builder_calls L calls r) = pack_map_entries L (concat (map call_entries calls)) (sr_packer r)"
  "sr_sync (builder_calls L calls r) = sr_sync r" "sr_space (builder_calls L calls r) = sr_space r"
  unfolding builder_calls_def
  by (induction calls arbitrary: r)
    (simp_all add: builder_call_effect pack_map_entries_append, simp add: pack_map_entries_def)

lemma select_packet:
  assumes "msgpack_ok L" "endian_ok E" "length (select_entries calls n) < 2 ^ 16"
    "mp_wf (Mp_map (entry_objects (select_entries calls n)))"
    "length (header_pack L (request_header R_Select rid)) + 3 + length (pack_entries L (entry_objects (select_entries calls n))) < 2 ^ 32"
    and r: "sr_packer r = begin_map (pack (header_pack L) (request_header R_Select rid) RequestPacker_init)" "sr_sync r = rid"
    "get_space_index (sr_space r) = (no_error, n)"
  shows "\<exists>body. box_select L E (builder_calls L calls r) = Inr (Inr (rid, wire_frame (header_pack L (request_header R_Select rid) @ body)))
    \<and> mp_unpack L body 0 = Inr (Mp_map (entry_objects (select_entries calls n)), length body)"
proof -
  have p: "pack_map_entry L F_SpaceId (Mp_uint n) (sr_packer (builder_calls L calls r))
      = pack_map_entries L (select_entries calls n) (begin_map (pack (header_pack L) (request_header R_Select rid) RequestPacker_init))"
    by (simp add: builder_calls_effect r(1) select_entries_def pack_map_entries_append)
      (simp add: pack_map_entries_def)
  from patched_frame [OF assms(1-5)] obtain q body where
    "finalize_map E (pack_map_entry L F_SpaceId (Mp_uint n) (sr_packer (builder_calls L calls r))) = Inr q"
    "packer_str (finalize E q) = wire_frame (header_pack L (request_header R_Select rid) @ body)"
    "mp_unpack L body 0 = Inr (Mp_map (entry_objects (select_entries calls n)), length body)" unfolding p by blast
  then show ?thesis by (intro exI [of _ body]) (simp add: box_select_def builder_calls_effect r del: run_bind_Inr)
qed

text \<open>
  A request handed to a connected connector: its call of \<open>send_request\<close> runs on the strand, the table gains
  its handler, and its packet is the last one on its way to the socket.
\<close>

definition outgoing :: "'s connection \<Rightarrow> byte list list" where
  "outgoing c = concat (c_writes c) @ waiting_elems (m_queue c)"

definition request_sent :: "u64 \<Rightarrow> handler \<Rightarrow> byte list \<Rightarrow> 's cworld \<Rightarrow> 's cworld \<Rightarrow> bool" where
  "request_sent rid h data w w' \<longleftrightarrow> m_requests (w_k w') = m_requests (w_k w) @ [(rid, Some h)]
     \<and> outgoing (m_conn (w_k w')) = outgoing (m_conn (w_k w)) @ [data]
     \<and> k_done (w_k w') = k_done (w_k w) \<and> w_outbox w' = w_outbox w"

lemma outgoing_send:
  assumes "sender_inv w"
  shows "outgoing (send_data grow data (m_conn (w_k w))) = outgoing (m_conn (w_k w)) @ [data]"
  using assms by (auto simp: sender_inv_def send_inv_def outgoing_def send_defs Let_def dbq.waiting_enq)

lemma submitted_request_is_sent:
  assumes w: "reach (cinit grow A) (cstep grow A) w" "w_owned w" "m_s (w_k w) = Connected" "w_issued w \<le> 2 ^ 64"
    and i: "(rid, h) \<in> set (w_free w)"
  shows "cstep grow A w (submit_request (rid, h) data w)
    \<and> (\<exists>w'. cstep grow A (submit_request (rid, h) data w) w' \<and> request_sent rid h data w w')"
proof -
  let ?w1 = "submit_request (rid, h) data w"
  let ?w2 = "?w1\<lparr>w_k := send_request grow rid data h (w_k ?w1), w_outbox := w_outbox w @ []\<rparr>"
  have s1: "cstep grow A w ?w1" using w(2) i by (rule ks_submit)
  have ob: "w_outbox ?w1 = w_outbox w @ (rid, data, h) # []" and k: "w_k ?w1 = w_k w" by (simp_all add: submit_request_def)
  have s2: "cstep grow A ?w1 ?w2" using ob by (rule ks_dispatch)
  have "reach (cinit grow A) (cstep grow A) ?w1" using w(1) s1 by (rule reach_step)
  moreover have n: "w_issued ?w1 \<le> 2 ^ 64" using w(4) by (simp add: submit_request_def)
  ultimately have "handlers_ok ?w1" using connector.reach_inv by (auto simp: cinv_def)
  from dispatched_id_fresh(2) [OF this n ob] have "rid \<notin> fst ` set (m_requests (w_k w))" by (simp add: k)
  moreover have "sender_inv w" using w(1) by (rule connector_send.reach_inv)
  ultimately have "request_sent rid h data w ?w2"
    using w(3) outgoing_send [of w grow data] by (simp add: request_sent_def k send_request_def insert_request_def Let_def)
  with s1 s2 show ?thesis by blast
qed

text \<open>A request for an identifier taken at once.\<close>

lemma box_request_is_sent:
  assumes w: "reach (cinit grow A) (cstep grow A) w" "w_owned w" "w_start w = Started ec" "m_s (w_k w) = Connected" "w_issued w < 2 ^ 64"
    and r: "request (m_request_id (w_k w)) = Inr (Inr (m_request_id (w_k w), data))"
  shows "\<exists>w1 w2. box_request request w = Inr (None, w1) \<and> reach (cinit grow A) (cstep grow A) w1
    \<and> cstep grow A w1 w2 \<and> request_sent (m_request_id (w_k w)) (w_issued w) data w w2"
proof -
  let ?w0 = "take_id w"
  have s0: "cstep grow A w ?w0" using w(2,3) by (rule ks_id)
  have reach0: "reach (cinit grow A) (cstep grow A) ?w0" using w(1) s0 by (rule reach_step)
  have f: "w_owned ?w0" "m_s (w_k ?w0) = Connected" "w_issued ?w0 \<le> 2 ^ 64"
      "(m_request_id (w_k w), w_issued w) \<in> set (w_free ?w0)"
    using w(2,4,5) by (simp_all add: take_id_def generate_id_def)
  from submitted_request_is_sent [OF reach0 f, of data] obtain w2 where
    s: "cstep grow A ?w0 (submit_request (m_request_id (w_k w), w_issued w) data ?w0)"
      "cstep grow A (submit_request (m_request_id (w_k w), w_issued w) data ?w0) w2"
      "request_sent (m_request_id (w_k w)) (w_issued w) data ?w0 w2" by blast
  from s(3) have "request_sent (m_request_id (w_k w)) (w_issued w) data w w2"
    by (simp add: request_sent_def take_id_def generate_id_def)
  moreover have "box_request request w = Inr (None, submit_request (m_request_id (w_k w), w_issued w) data ?w0)"
    by (simp add: box_request_def box_send_def r del: run_bind_Inr)
  ultimately show ?thesis using reach_step [OF reach0 s(1)] s(2) by blast
qed

subsection \<open>Properties\<close>

text \<open>
  C23: a select request carries exactly what was asked for. For a space that resolves to \<open>n\<close> and any
  sequence of builder calls, \<open>select\<close> sends one frame with the select header and a map, whose length was
  patched in afterwards, of the entries of the calls in order followed by the space number. The index,
  wherever it is given, is not part of the request.
\<close>

theorem select_wire_format:
  assumes "msgpack_ok L" "endian_ok E" "get_space_index space = (no_error, n)" "length (select_entries calls n) < 2 ^ 16"
    and "mp_wf (Mp_map (entry_objects (select_entries calls n)))"
    and "length (header_pack L (request_header R_Select rid)) + 3
      + length (pack_entries L (entry_objects (select_entries calls n))) < 2 ^ 32"
  shows "\<exists>body. box_select L E (builder_calls L calls (SelectBuilder_init L space rid))
        = Inr (Inr (rid, wire_frame (header_pack L (request_header R_Select rid) @ body)))
    \<and> box_select L E (builder_calls L calls (SelectBuilder_init_index L space index rid))
        = Inr (Inr (rid, wire_frame (header_pack L (request_header R_Select rid) @ body)))
    \<and> mp_unpack L body 0 = Inr (Mp_map (entry_objects (select_entries calls n)), length body)"
proof -
  have "box_select L E (builder_calls L calls (SelectBuilder_init_index L space index rid))
      = box_select L E (builder_calls L calls (SelectBuilder_init L space rid))"
    using assms(3) by (simp add: box_select_def builder_calls_effect SelectBuilder_init_def SelectBuilder_init_index_def)
  moreover have "\<exists>body. box_select L E (builder_calls L calls (SelectBuilder_init L space rid))
        = Inr (Inr (rid, wire_frame (header_pack L (request_header R_Select rid) @ body)))
    \<and> mp_unpack L body 0 = Inr (Mp_map (entry_objects (select_entries calls n)), length body)"
    using assms(3) by (intro select_packet assms) (simp_all add: SelectBuilder_init_def)
  ultimately show ?thesis by auto
qed

theorem select_wire_format_witness:
  "\<exists>body. box_select msgpack_ref endian_ref (builder_calls msgpack_ref [C_limit 10, C_index (SV_id 1), C_key (Mp_array [])]
        (SelectBuilder_init msgpack_ref (SV_id 512) 3))
      = Inr (Inr (3, wire_frame (header_pack msgpack_ref (request_header R_Select 3) @ body)))
    \<and> mp_unpack msgpack_ref body 0 = Inr (Mp_map [(mp_field F_Limit, Mp_uint 10), (mp_field F_Key, Mp_array []),
        (mp_field F_SpaceId, Mp_uint 512)], length body)"
proof -
  let ?es = "select_entries [C_limit 10, C_index (SV_id 1), C_key (Mp_array [])] 512"
  have "length (header_pack msgpack_ref (request_header R_Select 3)) + 3 + length (pack_entries msgpack_ref (entry_objects ?es)) < 2 ^ 32"
    by (simp add: msgpack_ref_def header_pack_def head_bytes_def field_type_val.simps request_header_def
      set_request_type_def MessageHeader_default_def select_entries_def)
  from select_wire_format [OF msgpack_ref_ok endian_ref_ok _ _ _ this, of "SV_id 512"] show ?thesis
    by (simp add: get_space_index_def select_entries_def) auto
qed


text \<open>A client that calls from a thread of its own with a plain callback.\<close>

definition callback_client :: caller where
  "callback_client = \<lparr>running_in_this_thread = False, keeps_arguments = False\<rparr>"

lemma sample_request_fits:
  assumes "type \<in> {R_Insert, R_Replace, R_Delete}" "field \<in> {F_Tuple, F_Key}"
  shows "length (header_pack msgpack_ref (request_header type 7)
    @ mp_pack msgpack_ref (Mp_map [(mp_field field, Mp_array [Mp_uint 1]), (mp_field F_SpaceId, Mp_uint 0)])) < 2 ^ 32"
  using assms by (auto simp: msgpack_ref_def header_pack_def head_bytes_def field_type_val.simps request_header_def
    set_request_type_def MessageHeader_default_def)


end
