(* ===== verification/Connector_Shutdown.thy ===== *)
theory Connector_Shutdown
  imports Connector_Loop
begin

text \<open>
  How a connector ends. Once its last owner has released it, the receive loop takes at most three more
  steps; while it reconnects and when it has finished nobody waits in the table, so every request
  handed to the connector gets its answer or an error.
\<close>

subsection \<open>Definitions\<close>

text \<open>The connector was released and the destructor's function has run.\<close>

definition released :: "'s cworld \<Rightarrow> bool" where
  "released w \<longleftrightarrow> \<not> w_owned w \<and> \<not> w_dying w"

text \<open>How far the loop is from its end once the connector was released.\<close>

fun loop_rank :: "loop_pc \<Rightarrow> nat" where
  "loop_rank Finished = 0"
| "loop_rank Top = 1"
| "loop_rank Await_message = 2"
| "loop_rank Await_connect = 2"
| "loop_rank (Await_auth h) = 3"

text \<open>A run of the connector with \<open>n\<close> steps of the loop among its steps.\<close>

inductive runs :: "(nat \<Rightarrow> nat) \<Rightarrow> auth_env \<Rightarrow> nat \<Rightarrow> 's cworld \<Rightarrow> 's cworld \<Rightarrow> bool" for grow A where
  run_start: "runs grow A 0 w w"
| run_loop: "runs grow A n w w1 \<Longrightarrow> loop_step grow A w1 w2 \<Longrightarrow> runs grow A (Suc n) w w2"
| run_other: "runs grow A n w w1 \<Longrightarrow> cstep grow A w1 w2 \<Longrightarrow> w_pc w2 = w_pc w1 \<Longrightarrow> runs grow A n w w2"

text \<open>The phases of the loop in which the connector is not connected.\<close>

fun disconnected :: "loop_pc \<Rightarrow> bool" where
  "disconnected Await_connect = True"
| "disconnected (Await_auth h) = True"
| "disconnected Finished = True"
| "disconnected _ = False"

definition idle_inv :: "'s cworld \<Rightarrow> bool" where
  "idle_inv w \<longleftrightarrow>
     (disconnected (w_pc w) \<longrightarrow> m_s (w_k w) \<noteq> Connected)
     \<and> (disconnected (w_pc w) \<or> m_s (w_k w) = Connecting \<longrightarrow> waiting_handlers (m_requests (w_k w)) = [])"

definition owner_inv :: "'s cworld \<Rightarrow> bool" where
  "owner_inv w \<longleftrightarrow> (released w \<and> \<not> loop_holds (w_pc w) \<longrightarrow> m_s (w_k w) = Stopped)
     \<and> (w_owned w \<longrightarrow> \<not> w_dying w) \<and> (\<forall>h. w_start w = Auth_wait h \<longrightarrow> w_owned w)"

subsection \<open>Lemmas: nobody waits while the connector is not connected\<close>

lemma send_request_fields:
  "m_s (send_request grow rid data h k) = m_s k"
  "m_s k \<noteq> Connected \<Longrightarrow> waiting_handlers (m_requests (send_request grow rid data h k)) = waiting_handlers (m_requests k)"
  by (simp_all add: send_request_def insert_request_def Let_def)

lemma idle_inv_cong:
  "idle_inv w \<Longrightarrow> w_pc w' = w_pc w \<Longrightarrow> m_s (w_k w') = m_s (w_k w) \<or> m_s (w_k w') = Stopped
    \<Longrightarrow> m_requests (w_k w') = m_requests (w_k w) \<Longrightarrow> idle_inv w'"
  by (auto simp: idle_inv_def)

lemma waiting_handlers_filter: "waiting_handlers rs = [] \<Longrightarrow> waiting_handlers (filter P rs) = []"
  by (induction rs) (auto simp: waiting_handlers_def map_filter_def split: if_splits)

lemma idle_inv_message:
  assumes "idle_inv w" "w_pc w = Await_message" "on_message ec msg ((w_k w)\<lparr>m_conn := conn\<rparr>) = Inr k"
  shows "idle_inv (w\<lparr>w_k := k, w_pc := Top\<rparr>)"
proof (cases "failed ec")
  case True
  with assms(3) show ?thesis by (auto simp: on_message_def idle_inv_def dest: reset_Inr)
next
  case False
  with assms(3) have "m_s k = m_s (w_k w)" "m_requests k = m_requests (w_k w)
      \<or> m_requests k = filter (\<lambda>r. fst r \<noteq> sync (m_header msg)) (m_requests (w_k w))"
    by (auto simp: on_message_def Let_def split: option.splits)
  with assms(1,2) show ?thesis by (auto simp: idle_inv_def waiting_handlers_filter)
qed

lemma idle_inv_connected:
  assumes inv: "idle_inv w" and pc: "w_pc w = Await_connect" and step: "loop_connected grow A ec conn w = Inr w'"
  shows "idle_inv w'"
  using loop_connected_Inr [OF step]
proof (elim disjE exE conjE)
  fix rid data k assume a: "async_auth_start A (w_k (w\<lparr>w_k := (w_k w)\<lparr>m_conn := conn\<rparr>\<rparr>)) = Inr (Inr (Some (rid, data), k))"
    and w': "w' = w\<lparr>w_k := (w_k w)\<lparr>m_conn := conn\<rparr>, w_k := send_request grow rid data (w_issued w) k,
      w_pc := Await_auth (w_issued w), w_issued := Suc (w_issued w)\<rparr>"
  from async_auth_start_Some(2) [OF a] have "m_s k = m_s (w_k w)" "m_requests k = m_requests (w_k w)" by auto
  with inv pc show ?thesis by (simp add: idle_inv_def w' send_request_fields)
qed (use inv pc in \<open>auto simp: idle_inv_def\<close>)

lemma idle_inv_loop:
  assumes inv: "idle_inv w" and step: "loop_step grow A w w'"
  shows "idle_inv w'"
  using step
proof cases
  case ls_top
  then show ?thesis using inv by (cases "m_s (w_k w)") (auto simp: loop_top_def idle_inv_def dest!: reset_Inr)
next
  case ls_connected
  then show ?thesis using idle_inv_connected [OF inv] by blast
next
  case ls_authed
  then show ?thesis using inv by (auto simp: loop_authed_def idle_inv_def destroy_connector_def Let_def split: if_splits)
next
  case (ls_message rd incoming ec msg conn)
  then show ?thesis using idle_inv_message [OF inv] by (auto simp: loop_message_def)
qed

lemma idle_inv_step:
  assumes inv: "idle_inv w" and step: "cstep grow A w w'"
  shows "idle_inv w'"
  using step
proof cases
  case ks_loop
  then show ?thesis by (rule idle_inv_loop [OF inv])
next
  case ks_dispatch
  then show ?thesis using inv by (auto simp: idle_inv_def send_request_fields)
next
  case ks_started
  show ?thesis using inv by (rule idle_inv_cong) (simp_all add: starter_done_keeps [OF ks_started(3)])
qed (use inv in \<open>auto simp: take_id_def generate_id_def submit_request_def destroy_connector_def
  release_def intro: idle_inv_cong\<close>)

lemma idle_inv_init:
  assumes "cinit grow A w"
  shows "idle_inv w"
proof -
  from assms obtain conn where "connector_start A conn = Inr (Inr w)" by (rule cinit_cases)
  from connector_start_Inr [OF this] show ?thesis by (auto simp: idle_inv_def Connector_init_def)
qed

interpretation connector_idle: inv_system "cinit grow A" "cstep grow A" idle_inv
  by unfold_locales (auto intro: idle_inv_init idle_inv_step)

subsection \<open>Lemmas: a released connector is stopped and its loop ends\<close>

lemma reset_stopped: "reset k = Inr k' \<Longrightarrow> m_s k = Stopped \<Longrightarrow> m_s k' = Stopped"
  by (drule reset_Inr) simp

lemma on_message_stopped:
  "on_message ec msg k = Inr k' \<Longrightarrow> m_s k = Stopped \<Longrightarrow> m_s k' = Stopped"
  by (auto simp: on_message_def Let_def split: if_splits option.splits dest: reset_stopped)

lemma loop_connected_owned:
  "loop_connected grow A ec conn w = Inr w' \<Longrightarrow>
    w_owned w' = w_owned w \<and> w_dying w' = w_dying w \<and> w_start w' = w_start w"
  by (drule loop_connected_Inr) auto

lemma loop_connected_unowned:
  "loop_connected grow A ec conn w = Inr w' \<Longrightarrow> \<not> w_owned w \<Longrightarrow>
    w' = w\<lparr>w_k := (w_k w)\<lparr>m_conn := conn\<rparr>, w_pc := (if failed ec then Top else Finished)\<rparr>"
  by (auto simp: loop_connected_def Let_def split: if_splits)

lemma loop_authed_owner:
  assumes "loop_authed L ec fr w = Inr w'"
  shows "w_owned w' = w_owned w" "w_dying w' = w_dying w" "w_start w' = w_start w" "\<not> loop_holds (w_pc w')"
    "\<not> w_owned w \<Longrightarrow> m_s (w_k w') = Stopped"
  using assms by (auto simp: loop_authed_def destroy_connector_def Let_def split: if_splits)

lemma owner_inv_loop:
  assumes inv: "owner_inv w" and step: "loop_step grow A w w'"
  shows "owner_inv w'"
  using step
proof cases
  case ls_top
  then show ?thesis using inv
    by (auto simp: loop_top_def owner_inv_def released_def split: if_splits dest: reset_stopped)
next
  case ls_connected
  show ?thesis
  proof (cases "w_owned w")
    case True
    with loop_connected_owned [OF ls_connected(3)] inv show ?thesis by (simp add: owner_inv_def released_def)
  next
    case False
    with loop_connected_unowned [OF ls_connected(3)] ls_connected(1) inv show ?thesis
      by (auto simp: owner_inv_def released_def)
  qed
next
  case ls_authed
  then show ?thesis using inv by (auto simp: loop_authed_owner [OF ls_authed(3)] owner_inv_def released_def)
next
  case ls_message
  then show ?thesis using inv
    by (auto simp: loop_message_def owner_inv_def released_def dest: on_message_stopped)
qed

lemma owner_inv_step:
  assumes inv: "owner_inv w" and step: "cstep grow A w w'"
  shows "owner_inv w'"
  using step
proof cases
  case ks_loop
  then show ?thesis by (rule owner_inv_loop [OF inv])
next
  case ks_started
  then show ?thesis using inv by (auto elim!: starter_done_Inr simp: owner_inv_def released_def release_def)
qed (use inv in \<open>auto simp: owner_inv_def released_def take_id_def generate_id_def submit_request_def send_request_fields
  destroy_connector_def release_def\<close>)

lemma owner_inv_init:
  assumes "cinit grow A w"
  shows "owner_inv w"
proof -
  from assms obtain conn where "connector_start A conn = Inr (Inr w)" by (rule cinit_cases)
  from connector_start_Inr [OF this] show ?thesis by (auto simp: owner_inv_def released_def split: option.splits)
qed

interpretation connector_owner: inv_system "cinit grow A" "cstep grow A" owner_inv
  by unfold_locales (auto intro: owner_inv_init owner_inv_step)

text \<open>Released stays released, and every step of the loop brings it closer to its end.\<close>

lemma released_loop:
  assumes inv: "owner_inv w" and rel: "released w" and step: "loop_step grow A w w'"
  shows "released w' \<and> loop_rank (w_pc w') < loop_rank (w_pc w)"
  using step
proof cases
  case ls_top
  with inv rel have "m_s (w_k w) = Stopped" by (simp add: owner_inv_def)
  with ls_top rel show ?thesis by (auto simp: loop_top_def released_def)
next
  case ls_connected
  with loop_connected_unowned [OF ls_connected(3)] rel show ?thesis by (auto simp: released_def)
next
  case ls_authed
  then show ?thesis using rel by (auto simp: loop_authed_def released_def Let_def split: if_splits)
next
  case ls_message
  then show ?thesis using rel by (auto simp: loop_message_def released_def)
qed

lemma released_step:
  assumes rel: "released w" and step: "cstep grow A w w'" and other: "w_pc w' = w_pc w" and inv: "owner_inv w"
  shows "released w'"
  using step
proof cases
  case ks_loop
  with released_loop [OF inv rel] other show ?thesis by fastforce
qed (use rel inv in \<open>auto simp: owner_inv_def released_def take_id_def generate_id_def submit_request_def starter_done_def release_def Let_def\<close>)

lemma runs_steps: "runs grow A n w w' \<Longrightarrow> (cstep grow A)\<^sup>*\<^sup>* w w'"
  by (induction rule: runs.induct) (auto intro: rtranclp.rtrancl_into_rtrancl ks_loop)

lemma runs_rank:
  "runs grow A n w w' \<Longrightarrow> owner_inv w \<Longrightarrow> released w \<Longrightarrow>
    released w' \<and> n + loop_rank (w_pc w') \<le> loop_rank (w_pc w)"
proof (induction rule: runs.induct)
  case (run_loop n w w1 w2)
  from connector_owner.steps_inv [OF runs_steps [OF run_loop(1)] run_loop(4)] have "owner_inv w1" .
  with released_loop [OF this _ run_loop(2)] run_loop(3-5) show ?case by fastforce
next
  case (run_other n w w1 w2)
  from connector_owner.steps_inv [OF runs_steps [OF run_other(1)] run_other(5)] have "owner_inv w1" .
  with released_step [OF _ run_other(2,3)] run_other(3-6) show ?case by auto
qed simp

text \<open>A step of the connector that is not one of the loop leaves the loop where it is.\<close>

lemma other_step_pc:
  assumes "cstep grow A w w'"
  shows "loop_step grow A w w' \<or> w_pc w' = w_pc w"
  using assms by cases (auto simp: take_id_def generate_id_def submit_request_def starter_done_def release_def Let_def)

text \<open>At the top of the loop a released connector finishes, if every entry of the table has its handler.\<close>

lemma loop_top_finishes:
  assumes "m_s (w_k w) = Stopped" "\<forall>rid. (rid, None) \<notin> set (m_requests (w_k w))"
  shows "\<exists>k. loop_top w = Inr (w\<lparr>w_k := k, w_pc := Finished\<rparr>) \<and> m_requests k = []
    \<and> k_done k = k_done (w_k w) @ map (\<lambda>h. (h, errc operation_canceled, IprotoFrame_default)) (waiting_handlers (m_requests (w_k w)))"
proof -
  from assms obtain k where k: "reset (w_k w) = Inr k"
    using call_all_full [of "m_requests (w_k w)" "errc operation_canceled"] by (auto simp: reset_def Let_def)
  with assms(1) reset_Inr [OF k] show ?thesis by (auto simp: loop_top_def)
qed

lemma sample_released:
  "\<exists>w :: byte list cworld. reach (cinit id sample_auth) (cstep id sample_auth) w \<and> released w \<and> w_pc w = Top
    \<and> m_s (w_k w) = Stopped \<and> m_requests (w_k w) = [(0, Some 0)] \<and> w_issued w = 1 \<and> w_outbox w = [] \<and> w_free w = []
    \<and> k_done (w_k w) = []"
proof -
  from sample_waiting obtain w :: "byte list cworld" where w: "reach (cinit id sample_auth) (cstep id sample_auth) w"
    "m_requests (w_k w) = [(0, Some 0)]" "k_done (w_k w) = []" "w_issued w = 1" "w_free w = []" "w_outbox w = []"
    "w_owned w" "w_start w = Started no_error" "w_pc w = Top" by blast
  let ?w1 = "release w"
  let ?w2 = "?w1\<lparr>w_k := destroy_connector (w_k ?w1), w_dying := False\<rparr>"
  have "reach (cinit id sample_auth) (cstep id sample_auth) ?w1" using w(1) ks_release [OF w(7,8)] by (rule reach_step)
  moreover have "cstep id sample_auth ?w1 ?w2" by (rule ks_destroy) (simp add: release_def w(9))
  ultimately have "reach (cinit id sample_auth) (cstep id sample_auth) ?w2" by (rule reach_step)
  then show ?thesis using w
    by (intro exI [of _ ?w2]) (simp add: release_def released_def destroy_connector_def)
qed

text \<open>
  A function that \<open>send_request\<close> has dispatched may run after the connector is gone, although it refers to
  the connector itself: releasing the last pointer does not wait for it.
\<close>

lemma dispatch_outlives_connector:
  "\<exists>w :: byte list cworld. reach (cinit id sample_auth) (cstep id sample_auth) w \<and> \<not> w_owned w
    \<and> \<not> loop_holds (w_pc w) \<and> w_outbox w = [(0, data, 0)]"
proof -
  from sample_connected obtain w :: "byte list cworld" where
    w: "cinit id sample_auth w" "m_request_id (w_k w) = 0" "w_issued w = 0" "w_owned w" "w_start w = Started no_error"
      "w_outbox w = []" "w_free w = []" "w_pc w = Top" by blast
  let ?w1 = "take_id w" and ?w2 = "submit_request (0, 0) data (take_id w)"
  note defs = take_id_def generate_id_def submit_request_def release_def
  have "cstep id sample_auth w ?w1" using w(4,5) by (rule ks_id)
  moreover have "cstep id sample_auth ?w1 ?w2" using w by (intro ks_submit) (simp_all add: defs)
  moreover have "cstep id sample_auth ?w2 (release ?w2)" using w by (intro ks_release [of _ no_error]) (simp_all add: defs)
  ultimately have "reach (cinit id sample_auth) (cstep id sample_auth) (release ?w2)"
    using reach_init [where init = "cinit id sample_auth", OF w(1)] by (blast intro: reach_step)
  then show ?thesis using w by (intro exI [of _ "release ?w2"]) (simp add: defs)
qed

subsection \<open>Properties\<close>

text \<open>
  C5: the receive loop of a released connector ends. After the last owner has released the connector
  and the destructor's function has run, any run of the connector, however its other steps interleave,
  contains at most three steps of the loop (the ends of its awaited calls included); if the loop is at its top and no handler in the table is
  empty, its next step completes every waiting handler with \<open>operation_canceled\<close> and finishes.
\<close>

theorem released_loop_ends:
  assumes "reach (cinit grow A) (cstep grow A) w" "released w"
  shows "(runs grow A n w w' \<longrightarrow> n \<le> 3)
    \<and> (w_pc w = Top \<and> (\<forall>rid. (rid, None) \<notin> set (m_requests (w_k w))) \<longrightarrow>
        (\<exists>w2. loop_step grow A w w2 \<and> w_pc w2 = Finished \<and> m_requests (w_k w2) = []
          \<and> k_done (w_k w2) = k_done (w_k w)
            @ map (\<lambda>h. (h, errc operation_canceled, IprotoFrame_default)) (waiting_handlers (m_requests (w_k w)))))"
proof (intro conjI impI)
  have inv: "owner_inv w" using assms(1) by (rule connector_owner.reach_inv)
  have "loop_rank (w_pc w) \<le> 3" by (cases "w_pc w") simp_all
  with runs_rank [OF _ inv assms(2)] show "n \<le> 3" if "runs grow A n w w'" using that by fastforce
  assume top: "w_pc w = Top \<and> (\<forall>rid. (rid, None) \<notin> set (m_requests (w_k w)))"
  with inv assms(2) have "m_s (w_k w) = Stopped" by (simp add: owner_inv_def)
  from loop_top_finishes [OF this] top obtain k where k: "loop_top w = Inr (w\<lparr>w_k := k, w_pc := Finished\<rparr>)" "m_requests k = []"
    "k_done k = k_done (w_k w) @ map (\<lambda>h. (h, errc operation_canceled, IprotoFrame_default)) (waiting_handlers (m_requests (w_k w)))"
    by blast
  have "loop_step grow A w (w\<lparr>w_k := k, w_pc := Finished\<rparr>)" using top k(1) by (intro ls_top) simp_all
  with k(2,3) show "\<exists>w2. loop_step grow A w w2 \<and> w_pc w2 = Finished \<and> m_requests (w_k w2) = []
      \<and> k_done (w_k w2) = k_done (w_k w)
        @ map (\<lambda>h. (h, errc operation_canceled, IprotoFrame_default)) (waiting_handlers (m_requests (w_k w)))"
    by (intro exI [of _ "w\<lparr>w_k := k, w_pc := Finished\<rparr>"]) simp
qed

theorem released_loop_ends_witness:
  "\<exists>w w2 :: byte list cworld. released w \<and> loop_step id sample_auth w w2 \<and> w_pc w2 = Finished
    \<and> k_done (w_k w2) = [(0, errc operation_canceled, IprotoFrame_default)]"
proof -
  from sample_released obtain w :: "byte list cworld" where w: "reach (cinit id sample_auth) (cstep id sample_auth) w"
    "released w" "w_pc w = Top" "m_requests (w_k w) = [(0, Some 0)]" "k_done (w_k w) = []" by blast
  from released_loop_ends [OF w(1,2), THEN conjunct2] w obtain w2 where "loop_step id sample_auth w w2" "w_pc w2 = Finished"
    "k_done (w_k w2) = [(0, errc operation_canceled, IprotoFrame_default)]" by auto
  with w(2) show ?thesis by blast
qed

text \<open>
  C6: no request is left without an answer. When the receive loop has finished and no call of
  \<open>send_request\<close> is outstanding, every handler of a request that was sent has been called, exactly
  once; in the phases where the loop reconnects or has finished, nobody waits in the table.
\<close>

theorem every_request_is_answered:
  assumes "reach (cinit grow A) (cstep grow A) w" "w_issued w \<le> 2 ^ 64"
  shows "(disconnected (w_pc w) \<longrightarrow> waiting_handlers (m_requests (w_k w)) = [])
    \<and> (w_pc w = Finished \<and> w_outbox w = [] \<longrightarrow> distinct (map fst (k_done (w_k w)))
        \<and> fst ` set (k_done (w_k w)) = {..<w_issued w} - snd ` set (w_free w))"
proof -
  have idle: "idle_inv w" using assms(1) by (rule connector_idle.reach_inv)
  have "handlers_ok w" using connector.reach_inv [OF assms(1)] assms(2) by (simp add: cinv_def)
  note d = handlers_distinct [OF this]
  show ?thesis
  proof (intro conjI impI)
    assume "disconnected (w_pc w)"
    then show "waiting_handlers (m_requests (w_k w)) = []" using idle by (simp add: idle_inv_def)
  next
    assume fin: "w_pc w = Finished \<and> w_outbox w = []"
    then have all: "all_handlers w = map snd (w_free w) @ map fst (k_done (w_k w))"
      using idle by (simp add: idle_inv_def all_handlers_def)
    show "distinct (map fst (k_done (w_k w)))" using d(1) by (simp add: all)
    show "fst ` set (k_done (w_k w)) = {..<w_issued w} - snd ` set (w_free w)"
      using d by (auto simp: all)
  qed
qed

theorem every_request_is_answered_witness:
  "\<exists>w :: byte list cworld. w_pc w = Finished \<and> w_issued w = 1 \<and> fst ` set (k_done (w_k w)) = {0}"
proof -
  from sample_released obtain w :: "byte list cworld" where w: "reach (cinit id sample_auth) (cstep id sample_auth) w"
    "w_pc w = Top" "m_s (w_k w) = Stopped" "m_requests (w_k w) = [(0, Some 0)]" "w_issued w = 1" "w_outbox w = []"
    "w_free w = []" by blast
  from loop_top_finishes [OF w(3)] w(4) obtain k where k: "loop_top w = Inr (w\<lparr>w_k := k, w_pc := Finished\<rparr>)" by auto
  have "cstep id sample_auth w (w\<lparr>w_k := k, w_pc := Finished\<rparr>)" using w(2) k by (intro ks_loop ls_top)
  with w(1) have "reach (cinit id sample_auth) (cstep id sample_auth) (w\<lparr>w_k := k, w_pc := Finished\<rparr>)" by (rule reach_step)
  from every_request_is_answered [OF this] w(5-7) show ?thesis
    by (intro exI [of _ "w\<lparr>w_k := k, w_pc := Finished\<rparr>"]) auto
qed

end
