(* ===== verification/Connector_Spec.thy ===== *)
theory Connector_Spec
  imports Connector_Loop
begin

text \<open>
  What a connector promises its clients, as a small abstract system, and the proof that the connector
  implements it. The abstract state knows how many identifiers were given out, which calls are open,
  and the outcome of each call that has returned. Sockets, packets, the table, the loop and reconnects
  do not appear in it.
\<close>

subsection \<open>Definitions: the specification\<close>

record rpc =
  r_issued :: nat
  r_open :: "handler set"
  r_result :: "handler \<Rightarrow> (error_code \<times> iproto_frame) option"

definition rpc_init :: "rpc \<Rightarrow> bool" where
  "rpc_init s \<longleftrightarrow> r_result s = Map.empty \<and> r_open s = {..<r_issued s}"

text \<open>
  A call is opened once, under an identifier given out before; it returns at most once, with an error
  or with a response that carries its identifier.
\<close>

inductive rpc_step :: "rpc \<Rightarrow> rpc \<Rightarrow> bool" where
  rpc_id: "rpc_step s (s\<lparr>r_issued := Suc (r_issued s)\<rparr>)"
| rpc_call: "h < r_issued s \<Longrightarrow> h \<notin> r_open s \<Longrightarrow> r_result s h = None \<Longrightarrow>
    rpc_step s (s\<lparr>r_open := insert h (r_open s)\<rparr>)"
| rpc_return: "h \<in> r_open s \<Longrightarrow> failed ec \<or> sync (m_header fr) = of_nat h \<Longrightarrow>
    rpc_step s (s\<lparr>r_open := r_open s - {h}, r_result := (r_result s)(h \<mapsto> (ec, fr))\<rparr>)"

inductive_cases rpc_stepE: "rpc_step s t"

text \<open>What a connector is for its clients.\<close>

definition rpc_of :: "'s cworld \<Rightarrow> rpc" where
  "rpc_of w = \<lparr>r_issued = w_issued w,
     r_open = (snd \<circ> snd) ` set (w_outbox w) \<union> set (waiting_handlers (m_requests (w_k w))),
     r_result = map_of (k_done (w_k w))\<rparr>"

abbreviation few_ids :: "'s cworld \<Rightarrow> bool" where
  "few_ids w \<equiv> w_issued w \<le> 2 ^ 64"

subsection \<open>Lemmas: the specification\<close>

text \<open>An open call has no result yet, and a result never changes.\<close>

definition rpc_inv :: "rpc \<Rightarrow> bool" where
  "rpc_inv s \<longleftrightarrow> r_open s \<inter> dom (r_result s) = {} \<and> r_open s \<union> dom (r_result s) \<subseteq> {..<r_issued s}"

interpretation rpc: inv_system rpc_init rpc_step rpc_inv
proof
  show "rpc_init s \<Longrightarrow> rpc_inv s" for s by (auto simp: rpc_init_def rpc_inv_def)
  show "rpc_inv s \<Longrightarrow> rpc_step s t \<Longrightarrow> rpc_inv t" for s t
    by (erule rpc_stepE) (auto simp: rpc_inv_def split: if_splits)
qed

lemma rpc_result_stays:
  assumes "rpc_inv s" "rpc_step s t"
  shows "r_result s \<subseteq>\<^sub>m r_result t"
  using assms(2,1) by (cases rule: rpc_step.cases) (auto simp: rpc_inv_def map_le_def)

lemma rpc_results_stay: "rpc_step\<^sup>*\<^sup>* s t \<Longrightarrow> rpc_inv s \<Longrightarrow> r_result s \<subseteq>\<^sub>m r_result t"
proof (induction rule: rtranclp_induct)
  case (step t u)
  with rpc.steps_inv [OF step(1,4)] show ?case by (blast intro: map_le_trans rpc_result_stays)
qed simp

subsection \<open>Lemmas: the connector implements it\<close>

lemma rpc_of_cong:
  "w_issued w' = w_issued w \<Longrightarrow> w_outbox w' = w_outbox w \<Longrightarrow> m_requests (w_k w') = m_requests (w_k w)
    \<Longrightarrow> k_done (w_k w') = k_done (w_k w) \<Longrightarrow> rpc_of w' = rpc_of w"
  by (simp add: rpc_of_def)

text \<open>Where a handler is: exactly one of the places.\<close>

lemma handlers_disjoint:
  assumes "handlers_ok w"
  shows "distinct (map snd (w_free w))" "distinct (map (snd \<circ> snd) (w_outbox w))"
    "distinct (waiting_handlers (m_requests (w_k w)))" "distinct (map fst (k_done (w_k w)))"
    "snd ` set (w_free w) \<inter> (snd \<circ> snd) ` set (w_outbox w) = {}"
    "snd ` set (w_free w) \<inter> set (waiting_handlers (m_requests (w_k w))) = {}"
    "snd ` set (w_free w) \<inter> fst ` set (k_done (w_k w)) = {}"
    "(snd \<circ> snd) ` set (w_outbox w) \<inter> set (waiting_handlers (m_requests (w_k w))) = {}"
    "(snd \<circ> snd) ` set (w_outbox w) \<inter> fst ` set (k_done (w_k w)) = {}"
    "set (waiting_handlers (m_requests (w_k w))) \<inter> fst ` set (k_done (w_k w)) = {}"
    "snd ` set (w_free w) \<subseteq> {..<w_issued w}"
  using handlers_distinct [OF assms] unfolding all_handlers_def by auto

lemma sim_take_id: "rpc_step (rpc_of w) (rpc_of (take_id w))"
proof -
  have "rpc_of (take_id w) = (rpc_of w)\<lparr>r_issued := Suc (r_issued (rpc_of w))\<rparr>"
    by (simp add: rpc_of_def take_id_def generate_id_def)
  then show ?thesis using rpc_id by metis
qed

lemma sim_submit:
  assumes ok: "handlers_ok w" and i: "i \<in> set (w_free w)"
  shows "rpc_step (rpc_of w) (rpc_of (submit_request i data w))"
proof -
  have "rpc_of (submit_request i data w) = (rpc_of w)\<lparr>r_open := insert (snd i) (r_open (rpc_of w))\<rparr>"
    by (simp add: rpc_of_def submit_request_def)
  moreover have "snd i \<in> snd ` set (w_free w)" using i by simp
  with handlers_disjoint [OF ok] have "snd i < r_issued (rpc_of w)" "snd i \<notin> r_open (rpc_of w)"
    "r_result (rpc_of w) (snd i) = None"
    by (auto simp: rpc_of_def map_of_eq_None_iff)
  ultimately show ?thesis using rpc_call by metis
qed

lemma map_of_snoc: "k \<notin> fst ` set xs \<Longrightarrow> [k \<mapsto> v] ++ map_of xs = (map_of xs)(k \<mapsto> v)"
  using map_add_comm [of "[k \<mapsto> v]" "map_of xs"] by (simp add: dom_map_of_conv_image_fst)

text \<open>Several calls return one after the other.\<close>

lemma rpc_returns:
  "fst ` set called \<subseteq> r_open s \<Longrightarrow> distinct (map fst called) \<Longrightarrow>
    \<forall>(h, ec, fr) \<in> set called. failed ec \<or> sync (m_header fr) = of_nat h \<Longrightarrow>
    rpc_step\<^sup>*\<^sup>* s (s\<lparr>r_open := r_open s - fst ` set called, r_result := r_result s ++ map_of called\<rparr>)"
proof (induction called rule: rev_induct)
  case (snoc c called)
  obtain h ec fr where c: "c = (h, ec, fr)" by (cases c)
  let ?s = "s\<lparr>r_open := r_open s - fst ` set called, r_result := r_result s ++ map_of called\<rparr>"
  have "rpc_step\<^sup>*\<^sup>* s ?s" using snoc by simp
  moreover have "rpc_step ?s (?s\<lparr>r_open := r_open ?s - {h}, r_result := (r_result ?s)(h \<mapsto> (ec, fr))\<rparr>)"
    using snoc(2-4) by (intro rpc_return) (auto simp: c)
  moreover have d: "r_open s - fst ` set called - {h} = r_open s - insert h (fst ` set called)" by blast
  have "?s\<lparr>r_open := r_open ?s - {h}, r_result := (r_result ?s)(h \<mapsto> (ec, fr))\<rparr>
      = s\<lparr>r_open := r_open s - fst ` set (called @ [c]), r_result := r_result s ++ map_of (called @ [c])\<rparr>"
    using snoc(3) d by (simp add: c map_of_snoc)
  ultimately show ?case by (metis rtranclp.rtrancl_into_rtrancl)
qed simp

lemma sim_dispatch:
  assumes ok: "handlers_ok w" and n: "few_ids w" and ob: "w_outbox w = xs @ (rid, data, h) # ys"
  shows "rpc_step\<^sup>*\<^sup>* (rpc_of w) (rpc_of (w\<lparr>w_k := send_request grow rid data h (w_k w), w_outbox := xs @ ys\<rparr>))"
    (is "_ (rpc_of ?w)")
proof -
  note fresh = dispatched_id_fresh(2) [OF ok n ob] and dis = handlers_disjoint [OF ok]
  show ?thesis
  proof (cases "m_s (w_k w) = Connected")
    case True
    with fresh have "rpc_of ?w = rpc_of w"
      by (auto simp: rpc_of_def ob send_request_def insert_request_def Let_def)
    then show ?thesis by simp
  next
    case False
    have h: "h \<in> (snd \<circ> snd) ` set (w_outbox w)" by (simp add: ob)
    then have nd: "h \<notin> fst ` set (k_done (w_k w))" "h \<notin> set (waiting_handlers (m_requests (w_k w)))"
      "h \<notin> (snd \<circ> snd) ` set (xs @ ys)"
      using dis(2,8,9) by (auto simp: ob)
    have "rpc_of ?w = (rpc_of w)\<lparr>r_open := r_open (rpc_of w) - {h},
        r_result := (r_result (rpc_of w))(h \<mapsto> (errc not_connected, IprotoFrame_default))\<rparr>"
      using False fresh nd by (auto simp: rpc_of_def ob send_request_def insert_request_def Let_def map_of_snoc)
    moreover have "h \<in> r_open (rpc_of w)" using h by (simp add: rpc_of_def)
    ultimately have "rpc_step (rpc_of w) (rpc_of ?w)" using rpc_return [of h "rpc_of w" "errc not_connected"] by simp
    then show ?thesis by blast
  qed
qed

lemma sim_reset:
  assumes ok: "handlers_ok w" and r: "reset (w_k w) = Inr k"
  shows "rpc_step\<^sup>*\<^sup>* (rpc_of w) (rpc_of (w\<lparr>w_k := k\<rparr>))"
proof -
  note dis = handlers_disjoint [OF ok]
  define called where "called = map (\<lambda>h. (h, errc (if m_s (w_k w) = Stopped then operation_canceled else broken_pipe),
    IprotoFrame_default)) (waiting_handlers (m_requests (w_k w)))"
  have keys: "fst ` set called = set (waiting_handlers (m_requests (w_k w)))"
    "distinct (map fst called)" using dis(3) by (auto simp: called_def comp_def image_image)
  have "map_of (k_done (w_k w)) ++ map_of called = map_of called ++ map_of (k_done (w_k w))"
    using dis(10) keys(1) by (intro map_add_comm) (auto simp: dom_map_of_conv_image_fst)
  moreover have "(snd \<circ> snd) ` set (w_outbox w) \<union> set (waiting_handlers (m_requests (w_k w))) - fst ` set called
      = (snd \<circ> snd) ` set (w_outbox w)" using dis(8) unfolding keys(1) by blast
  ultimately have "rpc_of (w\<lparr>w_k := k\<rparr>) = (rpc_of w)\<lparr>r_open := r_open (rpc_of w) - fst ` set called,
      r_result := r_result (rpc_of w) ++ map_of called\<rparr>"
    using reset_Inr [OF r] by (simp add: rpc_of_def called_def [symmetric])
  moreover have "\<forall>(h, ec, fr) \<in> set called. failed ec \<or> sync (m_header fr) = of_nat h" by (auto simp: called_def)
  ultimately show ?thesis using rpc_returns [of called "rpc_of w"] keys by (simp add: rpc_of_def)
qed

lemma sim_message:
  assumes ok: "handlers_ok w" and m: "on_message ec msg (w_k w) = Inr k"
  shows "rpc_step\<^sup>*\<^sup>* (rpc_of w) (rpc_of (w\<lparr>w_k := k\<rparr>))"
proof (cases "failed ec")
  case True
  with m show ?thesis by (auto simp: on_message_def intro: sim_reset [OF ok])
next
  case False
  let ?rs = "m_requests (w_k w)" and ?rid = "sync (m_header msg)"
  show ?thesis
  proof (cases "map_of ?rs ?rid")
    case None
    with False m have "rpc_of (w\<lparr>w_k := k\<rparr>) = rpc_of w" by (auto simp: on_message_def Let_def rpc_of_def)
    then show ?thesis by simp
  next
    case (Some ho)
    have d: "distinct (map fst ?rs)" using ok by (simp add: handlers_ok_def Let_def)
    let ?k1 = "(w_k w)\<lparr>m_schema_version := schema_version (m_header msg)\<rparr>"
    from on_message_takes [OF m False Some d] obtain rs1 rs2 where rs: "?rs = rs1 @ (?rid, ho) # rs2"
      and k: "k = (case ho of None \<Rightarrow> ?k1\<lparr>m_requests := rs1 @ rs2\<rparr>
        | Some h \<Rightarrow> ?k1\<lparr>m_requests := rs1 @ rs2, k_done := k_done (w_k w) @ [(h, no_error, msg)]\<rparr>)" .
    show ?thesis
    proof (cases ho)
      case None
      then have "rpc_of (w\<lparr>w_k := k\<rparr>) = rpc_of w" by (simp add: rpc_of_def k rs)
      then show ?thesis by simp
    next
      case h: (Some h)
      have hw: "h \<in> set (waiting_handlers ?rs)" and sy: "?rid = of_nat h"
        using ok by (auto simp: rs h handlers_ok_def Let_def)
      with handlers_disjoint(3,8,10) [OF ok] have nd: "h \<notin> fst ` set (k_done (w_k w))"
        "h \<notin> (snd \<circ> snd) ` set (w_outbox w)" "h \<notin> set (waiting_handlers (rs1 @ rs2))" by (auto simp: rs h)
      have "rpc_of (w\<lparr>w_k := k\<rparr>) = (rpc_of w)\<lparr>r_open := r_open (rpc_of w) - {h},
          r_result := (r_result (rpc_of w))(h \<mapsto> (no_error, msg))\<rparr>"
        using nd by (auto simp: rpc_of_def k h rs map_of_snoc)
      moreover have "h \<in> r_open (rpc_of w)" using hw by (simp add: rpc_of_def)
      ultimately have "rpc_step (rpc_of w) (rpc_of (w\<lparr>w_k := k\<rparr>))"
        using rpc_return [of h "rpc_of w" no_error msg] sy by simp
      then show ?thesis by blast
    qed
  qed
qed

text \<open>The login of the loop: an identifier, a call and its dispatch.\<close>

lemma sim_login:
  assumes ok: "handlers_ok w" and n: "Suc (w_issued w) \<le> 2 ^ 64"
    and start: "async_auth_start A (w_k w) = Inr (Inr (Some (rid, data), k))"
  shows "rpc_step\<^sup>*\<^sup>* (rpc_of w) (rpc_of (w\<lparr>w_k := send_request grow rid data (w_issued w) k, w_issued := Suc (w_issued w)\<rparr>))"
proof -
  note auth = async_auth_start_Some [OF start]
  let ?w1 = "take_id w" and ?i = "(m_request_id (w_k w), w_issued w)"
  let ?w2 = "submit_request ?i data ?w1"
  have ok1: "handlers_ok ?w1" using ok by (rule handlers_ok_take_id)
  have i: "?i \<in> set (w_free ?w1)" by (simp add: take_id_def generate_id_def)
  have ok2: "handlers_ok ?w2" using handlers_ok_submit [OF ok1 i] .
  have ob: "w_outbox ?w2 = w_outbox w @ (rid, data, w_issued w) # []"
    by (simp add: submit_request_def take_id_def generate_id_def auth(1))
  have n2: "few_ids ?w2" using n by (simp add: submit_request_def take_id_def generate_id_def)
  have "rpc_step\<^sup>*\<^sup>* (rpc_of w) (rpc_of ?w2)"
    using sim_take_id [of w] sim_submit [OF ok1 i, of data] by (meson r_into_rtranclp rtranclp.rtrancl_into_rtrancl)
  moreover note sim_dispatch [OF ok2 n2 ob, of grow]
  moreover have "rpc_of (?w2\<lparr>w_k := send_request grow rid data (w_issued w) (w_k ?w2), w_outbox := w_outbox w @ []\<rparr>)
      = rpc_of (w\<lparr>w_k := send_request grow rid data (w_issued w) k, w_issued := Suc (w_issued w)\<rparr>)"
    using auth(2) by (auto simp: rpc_of_def submit_request_def take_id_def generate_id_def send_request_def Let_def)
  ultimately show ?thesis by (metis rtranclp_trans)
qed

lemma sim_connected:
  assumes ok: "handlers_ok w" and n: "few_ids w'" and step: "loop_connected grow A ec conn w = Inr w'"
  shows "rpc_step\<^sup>*\<^sup>* (rpc_of w) (rpc_of w')"
  using loop_connected_Inr [OF step]
proof (elim disjE exE conjE)
  let ?w = "w\<lparr>w_k := (w_k w)\<lparr>m_conn := conn\<rparr>\<rparr>"
  fix rid data k assume a: "async_auth_start A (w_k ?w) = Inr (Inr (Some (rid, data), k))"
    and w': "w' = ?w\<lparr>w_k := send_request grow rid data (w_issued w) k, w_pc := Await_auth (w_issued w),
      w_issued := Suc (w_issued w)\<rparr>"
  have "handlers_ok ?w" using ok by (rule handlers_ok_cong) simp_all
  from sim_login [OF this _ a, of grow] n w' show ?thesis by (simp add: rpc_of_def)
next
  fix k assume "async_auth_start A (w_k (w\<lparr>w_k := (w_k w)\<lparr>m_conn := conn\<rparr>\<rparr>)) = Inr (Inr (None, k))"
    "w' = w\<lparr>w_k := (w_k w)\<lparr>m_conn := conn\<rparr>, w_k := k\<lparr>m_s := Connected\<rparr>, w_pc := Await_message\<rparr>"
  with async_auth_start_None have "rpc_of w' = rpc_of w" by (fastforce intro: rpc_of_cong)
  then show ?thesis by simp
next
  assume "failed ec" "w' = w\<lparr>w_k := (w_k w)\<lparr>m_conn := conn\<rparr>, w_pc := (if failed ec then Top else Finished)\<rparr>"
  then have "rpc_of w' = rpc_of w" by (simp add: rpc_of_def)
  then show ?thesis by simp
next
  assume "\<not> w_owned w" "w' = w\<lparr>w_k := (w_k w)\<lparr>m_conn := conn\<rparr>, w_pc := (if failed ec then Top else Finished)\<rparr>"
  then have "rpc_of w' = rpc_of w" by (simp add: rpc_of_def)
  then show ?thesis by simp
qed

lemma sim_loop:
  assumes ok: "handlers_ok w" and n: "few_ids w'" and step: "loop_step grow A w w'"
  shows "rpc_step\<^sup>*\<^sup>* (rpc_of w) (rpc_of w')"
  using step
proof cases
  case ls_top
  show ?thesis
  proof (cases "m_s (w_k w) = Stopped")
    case True
    with ls_top obtain k where "reset (w_k w) = Inr k" "w' = w\<lparr>w_k := k, w_pc := Finished\<rparr>" by (auto simp: loop_top_def)
    with sim_reset [OF ok] show ?thesis by (simp add: rpc_of_def)
  next
    case False
    with ls_top have "rpc_of w' = rpc_of w" by (auto simp: loop_top_def rpc_of_def split: if_splits)
    then show ?thesis by simp
  qed
next
  case ls_connected
  then show ?thesis using sim_connected [OF ok n] by blast
next
  case ls_authed
  then have "rpc_of w' = rpc_of w" by (simp add: rpc_of_def loop_authed_keeps [OF ls_authed(3)])
  then show ?thesis by simp
next
  case (ls_message rd incoming ec msg conn)
  let ?w = "w\<lparr>w_k := (w_k w)\<lparr>m_conn := conn\<rparr>\<rparr>"
  have "handlers_ok ?w" using ok by (rule handlers_ok_cong) simp_all
  with ls_message show ?thesis using sim_message [of ?w ec msg] by (auto simp: loop_message_def rpc_of_def)
qed

lemma sim_cstep:
  assumes inv: "cinv w" and n: "few_ids w'" and step: "cstep grow A w w'"
  shows "rpc_step\<^sup>*\<^sup>* (rpc_of w) (rpc_of w')"
proof -
  from cstep_issued [OF step] n have nw: "few_ids w" by simp
  with inv have ok: "handlers_ok w" by (simp add: cinv_def)
  from step show ?thesis
  proof cases
    case ks_loop
    then show ?thesis by (rule sim_loop [OF ok n])
  next
    case ks_id
    then show ?thesis using sim_take_id [of w] by auto
  next
    case (ks_submit i data)
    then show ?thesis using sim_submit [OF ok, of i data] by auto
  next
    case ks_dispatch
    then show ?thesis using sim_dispatch [OF ok nw] by blast
  next
    case ks_started
    show ?thesis by (simp add: rpc_of_def starter_done_keeps [OF ks_started(3)])
  qed (auto simp: rpc_of_def release_def destroy_connector_def)
qed

lemma sim_cinit:
  assumes "cinit grow A w"
  shows "rpc_init (rpc_of w)"
proof -
  from assms obtain conn where "connector_start A conn = Inr (Inr w)" by (rule cinit_cases)
  from connector_start_Inr [OF this] show ?thesis
    by (auto simp: rpc_init_def rpc_of_def Connector_init_def split: option.splits)
qed

interpretation connector_rpc: simulation "cinit grow A" "cstep grow A" cinv rpc_init rpc_step rpc_of few_ids
proof
  show "cstep grow A w w' \<Longrightarrow> few_ids w' \<Longrightarrow> few_ids w" for w w' :: "'s cworld"
    using cstep_issued by fastforce
qed (auto intro: cinv_init cinv_step sim_cinit sim_cstep)

subsection \<open>Properties\<close>

text \<open>
  C4: the connector implements its specification. Every reachable state, as long as no more than
  \<open>2 ^ 64\<close> identifiers were used, is reached by the abstract system too: calls return at most once, with
  an error or with the response to their own request; and the outcome of a call never changes in
  whatever the connector does afterwards.
\<close>

theorem connector_implements_rpc:
  assumes "reach (cinit grow A) (cstep grow A) w" "(cstep grow A)\<^sup>*\<^sup>* w w'" "w_issued w' \<le> 2 ^ 64"
  shows "(\<exists>s0. rpc_init s0 \<and> rpc_step\<^sup>*\<^sup>* s0 (rpc_of w)) \<and> rpc_step\<^sup>*\<^sup>* (rpc_of w) (rpc_of w')
    \<and> r_result (rpc_of w) \<subseteq>\<^sub>m r_result (rpc_of w')"
proof -
  have mono: "(cstep grow A)\<^sup>*\<^sup>* w w' \<Longrightarrow> w_issued w \<le> w_issued w'" for w w' :: "'a cworld"
    by (induction rule: rtranclp_induct) (auto dest: cstep_issued)
  from assms(2,3) mono have good: "few_ids w" by fastforce
  from connector_rpc.reach_sim [OF assms(1) good] obtain s0 where s0: "rpc_init s0" "rpc_step\<^sup>*\<^sup>* s0 (rpc_of w)" by blast
  have inv: "cinv w" using assms(1) by (rule connector.reach_inv)
  have st: "rpc_step\<^sup>*\<^sup>* (rpc_of w) (rpc_of w')" using connector_rpc.sim_steps [OF assms(2) inv assms(3)] .
  have "rpc_inv (rpc_of w)" using s0 rpc.init_inv rpc.steps_inv by blast
  with st s0 rpc_results_stay show ?thesis by blast
qed

theorem connector_implements_rpc_witness:
  "\<exists>(w :: byte list cworld) (w' :: byte list cworld). rpc_step\<^sup>*\<^sup>* (rpc_of w) (rpc_of w') \<and> r_open (rpc_of w) = {0} \<and> r_issued (rpc_of w') = 2"
proof -
  from sample_waiting obtain w :: "byte list cworld" where w: "reach (cinit id sample_auth) (cstep id sample_auth) w"
    "m_requests (w_k w) = [(0, Some 0)]" "w_issued w = 1" "w_outbox w = []" "w_owned w" "w_start w = Started no_error" by blast
  have "(cstep id sample_auth)\<^sup>*\<^sup>* w (take_id w)" using ks_id [OF w(5,6)] by blast
  moreover have "w_issued (take_id w) = 2" by (simp add: take_id_def generate_id_def w(3))
  ultimately have "rpc_step\<^sup>*\<^sup>* (rpc_of w) (rpc_of (take_id w))"
    using connector_implements_rpc [OF w(1), of "take_id w"] by simp
  then show ?thesis using w(2,4) \<open>w_issued (take_id w) = 2\<close>
    by (intro exI [of _ w] exI [of _ "take_id w"]) (simp add: rpc_of_def)
qed

end
