(* ===== verification/Connector_Buffers.thy ===== *)
theory Connector_Buffers
  imports Connector_Loop
begin

text \<open>
  The receive buffer over the life of a connector. A response handed to a client is a view into a block
  of the buffer, which the connection goes on using: for later messages, and after reconnects. The
  bytes a client sees never change.
\<close>

subsection \<open>Definitions\<close>

definition buffer_of :: "'s cworld \<Rightarrow> mutable_buffer" where
  "buffer_of w = fst (c_stream (m_conn (w_k w)))"

text \<open>The buffer is well formed, and so is every response that was handed out.\<close>

definition buffers_inv :: "'s cworld \<Rightarrow> bool" where
  "buffers_inv w \<longleftrightarrow> framing_ok (c_stream (m_conn (w_k w)))
     \<and> (\<forall>(h, ec, fr) \<in> set (k_done (w_k w)). \<not> failed ec \<longrightarrow> frozen_ok (buffer_of w) (m_body fr))"

subsection \<open>Lemmas: the parts of a connection\<close>

lemma framing_clear_keeps:
  assumes "framing_ok st"
  shows "framing_ok (framing_clear st)" "keeps_frozen (fst st) (fst (framing_clear st))"
  using assms mb_clear_ok [of "fst st"]
  by (auto simp: framing_ok_def framing_clear_def mb_clear_def set_new_buffer_simps split: prod.splits)

lemma connect_loop_keeps:
  "connect_loop rd dial as c = (ec, c') \<Longrightarrow> framing_ok (c_stream c) \<Longrightarrow>
    framing_ok (c_stream c') \<and> keeps_frozen (fst (c_stream c)) (fst (c_stream c'))"
proof (induction as arbitrary: c)
  case (Cons a as)
  obtain ec1 op s where d: "dial a (m_port (c_config c)) = (ec1, op, s)" by (metis prod.exhaust)
  obtain ec2 salt s' where h: "read_tarantool_hello rd s = ((ec2, salt), s')" by (metis prod.exhaust)
  note cl = framing_clear_keeps [OF Cons.prems(2)]
  have ok: "framing_ok (fst (framing_clear (c_stream c)), t)" for t using cl(1) by (simp add: framing_ok_def)
  show ?case
  proof (cases "failed ec1 \<or> failed ec2")
    case True
    then obtain c2 where c2: "connect_loop rd dial as c2 = (ec, c')" "fst (c_stream c2) = fst (framing_clear (c_stream c))"
      using Cons.prems(1) d h by (fastforce simp: Let_def split: if_splits)
    then have "framing_ok (c_stream c2)" using cl(1) by (simp add: framing_ok_def)
    from Cons.IH [OF c2(1) this] cl(2) show ?thesis by (auto simp: c2(2) intro: keeps_frozen_trans)
  next
    case False
    then have c': "c_stream c' = framing_clear (fst (framing_clear (c_stream c)), s')"
      using Cons.prems(1) d h by (auto simp: Let_def)
    from framing_clear_keeps [OF ok, of s'] keeps_frozen_trans [OF cl(2)] show ?thesis unfolding c' by simp
  qed
qed (auto simp: keeps_frozen_refl)

lemma connect_keeps:
  "connect rd resolve dial c = Inr (ec, c') \<Longrightarrow> framing_ok (c_stream c) \<Longrightarrow>
    framing_ok (c_stream c') \<and> keeps_frozen (fst (c_stream c)) (fst (c_stream c'))"
  by (auto simp: connect_def keeps_frozen_refl split: prod.splits if_splits dest: connect_loop_keeps)

lemma receive_message_frame_ok:
  assumes rd: "reader_ok rd incoming" and st: "framing_ok st"
    and r: "receive_message L E rd st = Inr ((ec, fr), st')" and ok: "\<not> failed ec"
  shows "frozen_ok (fst st') (m_body fr)"
proof -
  from read_message_length_safe [OF rd st, of E] obtain ec1 len st1 where
    r1: "read_message_length E rd st = Inr ((ec1, len), st1)" "framing_ok st1" by (rule safe_callE)
  have "unat len < 2 ^ 32" using unsigned_less [of len, where ?'a = nat] by simp
  from transfer_exactly_spec [OF rd r1(2) this] obtain ec2 f where
    t: "transfer_exactly rd (unat len) st1 = Inr ((ec2, f), st')" "\<not> failed ec2 \<Longrightarrow> frozen_ok (fst st') f"
    and d: "\<not> failed ec2" "decode_message L (fst st') f = Inr (ec, fr)"
    using r r1(1) ok by (fastforce simp: receive_message_def split: if_splits)
  from d(2) ok obtain off where "fb_slice f off size_max = Inr (m_body fr)" "off < fb_size f"
    by (auto simp: decode_message_def fb_slice_def catch_decode_def split: sum.splits if_splits)
  with fb_slice_rest [OF t(2) [OF d(1)]] show ?thesis by fastforce
qed

lemma conn_receive_keeps:
  assumes rd: "reader_ok rd incoming" and st: "framing_ok (c_stream c)"
    and r: "conn_receive_message L E rd c = Inr ((ec, fr), c')"
  shows "framing_ok (c_stream c')" "keeps_frozen (fst (c_stream c)) (fst (c_stream c'))"
    "\<not> failed ec \<Longrightarrow> frozen_ok (fst (c_stream c')) (m_body fr)"
proof -
  from r obtain st' where r': "receive_message L E rd (c_stream c) = Inr ((ec, fr), st')" "c_stream c' = st'"
    by (auto simp: conn_receive_message_def)
  with receive_message_safe_or_header_only [OF rd st, of L E]
  have "safe_call incoming (c_stream c) (Inr ((ec, fr), st'))" by simp
  then show "framing_ok (c_stream c')" "keeps_frozen (fst (c_stream c)) (fst (c_stream c'))"
    by (auto simp: safe_call_def r'(2))
  show "\<not> failed ec \<Longrightarrow> frozen_ok (fst (c_stream c')) (m_body fr)"
    using receive_message_frame_ok [OF rd st r'(1)] r'(2) by simp
qed

lemma stream_untouched [simp]:
  "c_stream (send_data grow data c) = c_stream c" "c_stream (on_data_sent ec c) = c_stream c" "c_stream (stop c) = c_stream c"
  by (simp_all add: send_defs stop_def Let_def split_def)

subsection \<open>Lemmas: the steps of the connector\<close>

text \<open>A step keeps the buffers when it keeps well-formedness and everything handed out.\<close>

definition keeps_buffers :: "'s cworld \<Rightarrow> 's cworld \<Rightarrow> bool" where
  "keeps_buffers w w' \<longleftrightarrow> buffers_inv w' \<and> keeps_frozen (buffer_of w) (buffer_of w')"

lemma keeps_buffers_stream:
  assumes inv: "buffers_inv w" and st: "framing_ok (c_stream (m_conn (w_k w')))" "keeps_frozen (buffer_of w) (buffer_of w')"
    and d: "\<forall>(h, ec, fr) \<in> set (k_done (w_k w')). (h, ec, fr) \<in> set (k_done (w_k w)) \<or> failed ec \<or> frozen_ok (buffer_of w') (m_body fr)"
  shows "keeps_buffers w w'"
  using assms by (fastforce simp: keeps_buffers_def buffers_inv_def keeps_frozen_def)

lemma keeps_buffers_same:
  assumes "buffers_inv w" "c_stream (m_conn (w_k w')) = c_stream (m_conn (w_k w))"
    "\<forall>(h, ec, fr) \<in> set (k_done (w_k w')). (h, ec, fr) \<in> set (k_done (w_k w)) \<or> failed ec"
  shows "keeps_buffers w w'"
  using assms by (intro keeps_buffers_stream) (auto simp: buffers_inv_def buffer_of_def keeps_frozen_refl)

lemma send_request_done:
  "\<forall>(h', ec, fr) \<in> set (k_done (send_request grow rid data h k)). (h', ec, fr) \<in> set (k_done k) \<or> failed ec"
  by (auto simp: send_request_def Let_def)

lemma reset_done:
  "reset k = Inr k' \<Longrightarrow> c_stream (m_conn k') = c_stream (m_conn k)
    \<and> (\<forall>(h, ec, fr) \<in> set (k_done k'). (h, ec, fr) \<in> set (k_done k) \<or> failed ec)"
  by (drule reset_Inr) (auto simp: stop_def)

lemma on_message_done:
  assumes "on_message ec msg k = Inr k'"
  shows "c_stream (m_conn k') = c_stream (m_conn k)"
    "\<forall>(h, ec', fr) \<in> set (k_done k'). (h, ec', fr) \<in> set (k_done k) \<or> failed ec' \<or> \<not> failed ec \<and> fr = msg"
  using assms reset_done [of k k'] by (auto simp: on_message_def Let_def split: if_splits option.splits)

lemma keeps_buffers_connected:
  assumes inv: "buffers_inv w" and c: "connect rd resolve dial (m_conn (w_k w)) = Inr (ec, conn)"
    and step: "loop_connected grow A ec conn w = Inr w'"
  shows "keeps_buffers w w'"
proof -
  from inv connect_keeps [OF c] have ok: "framing_ok (c_stream conn)" "keeps_frozen (buffer_of w) (fst (c_stream conn))"
    by (auto simp: buffers_inv_def buffer_of_def)
  have "c_stream (m_conn (w_k w')) = c_stream conn
    \<and> (\<forall>(h, ec, fr) \<in> set (k_done (w_k w')). (h, ec, fr) \<in> set (k_done (w_k w)) \<or> failed ec)"
    using loop_connected_Inr [OF step]
  proof (elim disjE exE conjE)
    fix rid data k assume a: "async_auth_start A (w_k (w\<lparr>w_k := (w_k w)\<lparr>m_conn := conn\<rparr>\<rparr>)) = Inr (Inr (Some (rid, data), k))"
      and w': "w' = w\<lparr>w_k := (w_k w)\<lparr>m_conn := conn\<rparr>, w_k := send_request grow rid data (w_issued w) k,
        w_pc := Await_auth (w_issued w), w_issued := Suc (w_issued w)\<rparr>"
    from async_auth_start_Some(2) [OF a] have "c_stream (m_conn k) = c_stream conn" "k_done k = k_done (w_k w)" by auto
    with send_request_done [of grow rid data "w_issued w" k] show ?thesis by (simp add: w' send_request_conn)
  next
    fix k assume "async_auth_start A (w_k (w\<lparr>w_k := (w_k w)\<lparr>m_conn := conn\<rparr>\<rparr>)) = Inr (Inr (None, k))"
      "w' = w\<lparr>w_k := (w_k w)\<lparr>m_conn := conn\<rparr>, w_k := k\<lparr>m_s := Connected\<rparr>, w_pc := Await_message\<rparr>"
    with async_auth_start_None show ?thesis by fastforce
  qed auto
  with ok show ?thesis by (intro keeps_buffers_stream [OF inv]) (auto simp: buffer_of_def)
qed

lemma keeps_buffers_loop:
  assumes inv: "buffers_inv w" and step: "loop_step grow A w w'"
  shows "keeps_buffers w w'"
  using step
proof cases
  case ls_top
  then show ?thesis by (intro keeps_buffers_same [OF inv])
      (auto simp: loop_top_def split: if_splits dest!: reset_done)
next
  case ls_connected
  then show ?thesis using keeps_buffers_connected [OF inv] by blast
next
  case ls_authed
  show ?thesis by (rule keeps_buffers_same [OF inv]) (auto simp: loop_authed_keeps [OF ls_authed(3)])
next
  case (ls_message rd incoming ec msg conn)
  then obtain k where k: "on_message ec msg ((w_k w)\<lparr>m_conn := conn\<rparr>) = Inr k" "w' = w\<lparr>w_k := k, w_pc := Top\<rparr>"
    by (auto simp: loop_message_def)
  have "framing_ok (c_stream (m_conn (w_k w)))" using inv by (simp add: buffers_inv_def)
  note r = conn_receive_keeps [OF ls_message(2) this ls_message(3)] and d = on_message_done [OF k(1)]
  show ?thesis using r d by (intro keeps_buffers_stream [OF inv]) (auto simp: k(2) buffer_of_def)
qed

lemma keeps_buffers_step:
  assumes inv: "buffers_inv w" and step: "cstep grow A w w'"
  shows "keeps_buffers w w'"
  using step
proof cases
  case ks_loop
  then show ?thesis by (rule keeps_buffers_loop [OF inv])
next
  case (ks_dispatch xs rid data h ys)
  then show ?thesis using send_request_done [of grow rid data h "w_k w"]
    by (intro keeps_buffers_same [OF inv]) (simp_all add: send_request_conn)
next
  case ks_started
  show ?thesis by (rule keeps_buffers_same [OF inv]) (auto simp: starter_done_keeps [OF ks_started(3)])
qed (intro keeps_buffers_same [OF inv]; auto simp: take_id_def generate_id_def submit_request_def release_def
  destroy_connector_def)+

lemma buffers_inv_init:
  assumes "cinit grow A w"
  shows "buffers_inv w"
proof -
  from assms obtain rd resolve dial s cfg ec conn where sz: "m_receive_buffer_size cfg < 2 ^ 63"
    and c: "connect rd resolve dial (Connection_init grow s cfg) = Inr (ec, conn)" and st: "connector_start A conn = Inr (Inr w)"
    by (rule cinit_cases)
  have "framing_ok (c_stream (Connection_init grow s cfg))"
    using sz mb_ok_init [of "m_receive_buffer_size cfg"]
    by (simp add: Connection_init_def framing_ok_def) (simp add: MutableBuffer_init_def)
  with connect_keeps [OF c] connector_start_Inr [OF st] show ?thesis by (auto simp: buffers_inv_def Connector_init_def)
qed

interpretation connector_buffers: inv_system "cinit grow A" "cstep grow A" buffers_inv
  by unfold_locales (auto intro: buffers_inv_init dest: keeps_buffers_step simp: keeps_buffers_def)

lemma keeps_buffers_steps:
  "(cstep grow A)\<^sup>*\<^sup>* w w' \<Longrightarrow> buffers_inv w \<Longrightarrow> keeps_frozen (buffer_of w) (buffer_of w')"
proof (induction rule: rtranclp_induct)
  case (step w1 w2)
  from connector_buffers.steps_inv [OF step(1,4)] have "buffers_inv w1" .
  from keeps_buffers_step [OF this step(2)] step show ?case by (auto simp: keeps_buffers_def intro: keeps_frozen_trans)
qed (simp add: keeps_frozen_refl)

text \<open>A server's answer to the first request, and a connector that has received it.\<close>

definition sample_answer :: mp_object where
  "sample_answer = Mp_map [(mp_field F_RequestType, Mp_uint 0), (mp_field F_Sync, Mp_uint 0)]"

lemma sample_answer_convert:
  "header_convert msgpack_ref sample_answer MessageHeader_default = Inr (MessageHeader_default\<lparr>request_type := 0\<rparr>)"
  by (simp add: sample_answer_def header_convert_def header_setter_def msgpack_convert [OF msgpack_ref_ok])
    (simp add: MessageHeader_default_def)

lemma sample_answer_fits: "frame_fits msgpack_ref Uint32 sample_answer [0x80]"
  by (simp add: sample_answer_def frame_fits_def msgpack_ref_def head_bytes_def field_type_val.simps)

lemmas sample_answer_ok = sample_answer_convert sample_answer_fits

lemma sample_answered:
  "\<exists>(w :: byte list cworld) fr. reach (cinit id sample_auth) (cstep id sample_auth) w \<and> k_done (w_k w) = [(0, no_error, fr)]
    \<and> frame_body_bytes (buffer_of w) fr = [0x80] \<and> w_owned w \<and> w_start w = Started no_error"
proof -
  let ?bs = "server_frame msgpack_ref Uint32 sample_answer [0x80] @ []"
  from sample_waiting_on [of ?bs] obtain w :: "byte list cworld" where
    w: "reach (cinit id sample_auth) (cstep id sample_auth) w" "m_requests (w_k w) = [(0, Some 0)]" "k_done (w_k w) = []"
      "m_s (w_k w) = Connected" "w_owned w" "w_start w = Started no_error" "w_pc w = Top"
      "pending id (c_stream (m_conn (w_k w))) = ?bs" by blast
  let ?w1 = "w\<lparr>w_pc := Await_message\<rparr>"
  have "cstep id sample_auth w ?w1" using w(4,7) by (intro ks_loop ls_top) (simp_all add: loop_top_def)
  with w(1) have r1: "reach (cinit id sample_auth) (cstep id sample_auth) ?w1" by (rule reach_step)
  have "framing_ok (c_stream (m_conn (w_k w)))"
    using connector_buffers.reach_inv [OF w(1)] by (simp add: buffers_inv_def)
  from receive_message_ok [OF chunk_reader_ok chunk_reader_live this msgpack_ref_ok endian_ref_ok sample_answer_ok(2,1) _ w(8)]
  obtain fr st where m: "receive_message msgpack_ref endian_ref (chunk_reader 3) (c_stream (m_conn (w_k w))) = Inr ((no_error, fr), st)"
    "m_header fr = MessageHeader_default\<lparr>request_type := 0\<rparr>" "frame_body_bytes (fst st) fr = [0x80]" by fastforce
  let ?conn = "(m_conn (w_k w))\<lparr>c_stream := st\<rparr>"
  let ?k = "(w_k w)\<lparr>m_conn := ?conn, m_schema_version := 0, m_requests := [], k_done := [(0, no_error, fr)]\<rparr>"
  have "on_message no_error fr ((w_k w)\<lparr>m_conn := ?conn\<rparr>) = Inr ?k"
    using m(2) w(2,3) by (simp add: on_message_def Let_def MessageHeader_default_def)
  then have "loop_message no_error fr ?conn ?w1 = Inr (w\<lparr>w_k := ?k, w_pc := Top\<rparr>)" by (simp add: loop_message_def del: run_bind_Inr)
  then have "cstep id sample_auth ?w1 (w\<lparr>w_k := ?k, w_pc := Top\<rparr>)" using m(1)
    by (intro ks_loop ls_message [OF _ chunk_reader_ok [of 3]])
      (simp_all add: conn_receive_message_def sample_auth_def del: run_bind_Inr)
  with r1 have "reach (cinit id sample_auth) (cstep id sample_auth) (w\<lparr>w_k := ?k, w_pc := Top\<rparr>)" by (rule reach_step)
  then show ?thesis using w(5,6) m(3)
    by (intro exI [of _ "w\<lparr>w_k := ?k, w_pc := Top\<rparr>"] exI [of _ fr]) (simp add: buffer_of_def)
qed

subsection \<open>Properties\<close>

text \<open>
  C27: a response never changes under its reader's hands. Once a handler was called with a response, the
  bytes of its body stay valid and the same, whatever the connector does later: receiving into the same
  block, moving to a new one, reconnecting, or being released.
\<close>

theorem response_bodies_never_change:
  assumes "reach (cinit grow A) (cstep grow A) w" "(cstep grow A)\<^sup>*\<^sup>* w w'"
    and "(h, ec, fr) \<in> set (k_done (w_k w))" "\<not> failed ec"
  shows "frozen_ok (buffer_of w') (m_body fr)
    \<and> frame_body_bytes (buffer_of w') fr = frame_body_bytes (buffer_of w) fr"
proof -
  have inv: "buffers_inv w" using assms(1) by (rule connector_buffers.reach_inv)
  with assms(3,4) have "frozen_ok (buffer_of w) (m_body fr)" by (auto simp: buffers_inv_def)
  with keeps_buffers_steps [OF assms(2) inv] show ?thesis by (simp add: keeps_frozen_def)
qed

theorem response_bodies_never_change_witness:
  "\<exists>(w :: byte list cworld) fr. k_done (w_k w) = [(0, no_error, fr)] \<and> frame_body_bytes (buffer_of (release w)) fr = [0x80]"
proof -
  from sample_answered obtain w :: "byte list cworld" and fr where
    w: "reach (cinit id sample_auth) (cstep id sample_auth) w" "k_done (w_k w) = [(0, no_error, fr)]"
      "frame_body_bytes (buffer_of w) fr = [0x80]" "w_owned w" "w_start w = Started no_error" by blast
  have "(cstep id sample_auth)\<^sup>*\<^sup>* w (release w)" using ks_release [OF w(4,5)] by blast
  from response_bodies_never_change [OF w(1) this, of 0 no_error fr] w(2,3) show ?thesis by auto
qed

text \<open>
  C28: the receive buffer of a connector is always well formed, so that receiving a message completes or
  reports an error in every state the connector reaches; the only thing that aborts it is a message
  that consists of a header.
\<close>

theorem connector_receives_safely:
  assumes "reach (cinit grow A) (cstep grow A) w" "reader_ok rd incoming"
  shows "mb_ok (buffer_of w) \<and>
    ((\<exists>ec fr conn. conn_receive_message L E rd (m_conn (w_k w)) = Inr ((ec, fr), conn) \<and> framing_ok (c_stream conn))
     \<or> conn_receive_message L E rd (m_conn (w_k w)) = Inl Assertion_failed
       \<and> header_only_in L (pending incoming (c_stream (m_conn (w_k w)))))"
proof -
  have ok: "framing_ok (c_stream (m_conn (w_k w)))"
    using connector_buffers.reach_inv [OF assms(1)] by (simp add: buffers_inv_def)
  from receive_message_safe_or_header_only [OF assms(2) ok, of L E] show ?thesis
  proof
    assume "safe_call incoming (c_stream (m_conn (w_k w))) (receive_message L E rd (c_stream (m_conn (w_k w))))"
    then obtain ec fr st where "receive_message L E rd (c_stream (m_conn (w_k w))) = Inr ((ec, fr), st)" "framing_ok st"
      by (rule safe_callE)
    then show ?thesis using ok
      by (intro conjI disjI1) (simp_all add: buffer_of_def framing_ok_def conn_receive_message_def del: run_bind_Inr)
  next
    assume "receive_message L E rd (c_stream (m_conn (w_k w))) = Inl Assertion_failed
      \<and> header_only_in L (pending incoming (c_stream (m_conn (w_k w))))"
    then show ?thesis using ok
      by (intro conjI disjI2) (simp_all add: buffer_of_def framing_ok_def conn_receive_message_def del: run_bind_Inr)
  qed
qed

theorem connector_receives_safely_witness:
  "\<exists>w :: byte list cworld. mb_ok (buffer_of w) \<and> m_requests (w_k w) = [(0, Some 0)]"
proof -
  from sample_waiting obtain w :: "byte list cworld" where
    w: "reach (cinit id sample_auth) (cstep id sample_auth) w" "m_requests (w_k w) = [(0, Some 0)]" by blast
  from connector_receives_safely [OF w(1) chunk_reader_ok] w(2) show ?thesis by blast
qed

end
