(* ===== verification/Connector_Delivery.thy ===== *)
theory Connector_Delivery
  imports Connector_Buffers
begin

text \<open>
  From the bytes of the server to the handlers of the clients: the receive loop, the framing, the
  receive buffer and the request table together. The responses may come in any order and in any
  pieces; each handler gets its own. A response that comes too early is delivered as well, while the
  request it answers still waits to be written.
\<close>

subsection \<open>Definitions\<close>

text \<open>A response of the server: the format of its size field, its header as an object and read back, and its body.\<close>

type_synonym response = "uint_format \<times> mp_object \<times> message_header \<times> byte list"

definition response_ok :: "msgpack_lib \<Rightarrow> response \<Rightarrow> bool" where
  "response_ok L r = (case r of (width, hobj, header, body) \<Rightarrow> frame_fits L width hobj body \<and> body \<noteq> []
     \<and> header_convert L hobj MessageHeader_default = Inr header)"

definition response_bytes :: "msgpack_lib \<Rightarrow> response \<Rightarrow> byte list" where
  "response_bytes L r = (case r of (width, hobj, header, body) \<Rightarrow> server_frame L width hobj body)"

definition response_header :: "response \<Rightarrow> message_header" where
  "response_header r = fst (snd (snd r))"

definition response_body :: "response \<Rightarrow> byte list" where
  "response_body r = snd (snd (snd r))"

abbreviation response_sync :: "response \<Rightarrow> u64" where
  "response_sync r \<equiv> sync (response_header r)"

text \<open>The bytes that the connection of a connector will still read.\<close>

definition unread :: "('s \<Rightarrow> byte list) \<Rightarrow> 's cworld \<Rightarrow> byte list" where
  "unread incoming w = pending incoming (c_stream (m_conn (w_k w)))"

text \<open>The handlers that were given a response are recorded with it and without an error.\<close>

definition answered :: "handler \<times> iproto_frame \<Rightarrow> handler \<times> error_code \<times> iproto_frame" where
  "answered p = (fst p, no_error, snd p)"

subsection \<open>Lemmas\<close>

lemma response_delivered:
  assumes "reader_ok rd incoming" "reader_live rd incoming"
    and L: "msgpack_ok (ae_msgpack A)" "endian_ok (ae_endian A)" and inv: "buffers_inv w"
    and at: "w_pc w = Top" "m_s (w_k w) = Connected"
    and r: "response_ok (ae_msgpack A) r" "unread incoming w = response_bytes (ae_msgpack A) r @ rest"
    and h: "map_of (m_requests (w_k w)) (response_sync r) = Some (Some h)"
  obtains w' fr where "(loop_step grow A)\<^sup>*\<^sup>* w w'" "w_pc w' = Top" "m_s (w_k w') = Connected" "unread incoming w' = rest"
    "k_done (w_k w') = k_done (w_k w) @ [(h, no_error, fr)]"
    "m_requests (w_k w') = filter (\<lambda>e. fst e \<noteq> response_sync r) (m_requests (w_k w))"
    "m_header fr = response_header r" "frame_body_bytes (buffer_of w') fr = response_body r"
    "frozen_ok (buffer_of w') (m_body fr)" "same_sender (m_conn (w_k w)) (m_conn (w_k w'))"
proof -
  obtain width hobj header body where r_eq: "r = (width, hobj, header, body)" by (cases r)
  have ok: "framing_ok (c_stream (m_conn (w_k w)))" using inv by (simp add: buffers_inv_def)
  from receive_message_ok [OF assms(1,2) ok L, of width hobj body header rest] r obtain fr st where
    m: "receive_message (ae_msgpack A) (ae_endian A) rd (c_stream (m_conn (w_k w))) = Inr ((no_error, fr), st)"
      "pending incoming st = rest" "m_header fr = header" "frozen_ok (fst st) (m_body fr)" "frame_body_bytes (fst st) fr = body"
    by (auto simp: r_eq response_ok_def response_bytes_def unread_def)
  let ?conn = "(m_conn (w_k w))\<lparr>c_stream := st\<rparr>"
  let ?k = "(w_k w)\<lparr>m_conn := ?conn, m_schema_version := schema_version header,
    m_requests := filter (\<lambda>e. fst e \<noteq> sync header) (m_requests (w_k w)), k_done := k_done (w_k w) @ [(h, no_error, fr)]\<rparr>"
  let ?w1 = "w\<lparr>w_pc := Await_message\<rparr>" and ?w' = "w\<lparr>w_k := ?k, w_pc := Top\<rparr>"
  have "on_message no_error fr ((w_k w)\<lparr>m_conn := ?conn\<rparr>) = Inr ?k"
    using h m(3) by (simp add: on_message_def Let_def r_eq response_header_def)
  then have "loop_message no_error fr ?conn ?w1 = Inr ?w'" by (simp add: loop_message_def del: run_bind_Inr)
  then have "loop_step grow A ?w1 ?w'" using m(1)
    by (intro ls_message [OF _ assms(1)]) (simp_all add: conn_receive_message_def del: run_bind_Inr)
  moreover have "loop_step grow A w ?w1" using at by (intro ls_top) (simp_all add: loop_top_def)
  ultimately have "(loop_step grow A)\<^sup>*\<^sup>* w ?w'" by (meson r_into_rtranclp rtranclp.rtrancl_into_rtrancl)
  then show thesis
    by (rule that) (use at m in \<open>simp_all add: r_eq response_header_def response_body_def unread_def buffer_of_def same_sender_def\<close>)
qed

lemma loop_steps_csteps: "(loop_step grow A)\<^sup>*\<^sup>* w w' \<Longrightarrow> (cstep grow A)\<^sup>*\<^sup>* w w'"
  by (erule rtranclp_mono [THEN predicate2D, rotated]) (blast intro: ks_loop)

lemma map_of_filter_other: "P rid \<Longrightarrow> map_of (filter (\<lambda>e. P (fst e)) rs) rid = map_of rs rid"
  by (induction rs) auto

lemma responses_delivered:
  assumes rd: "reader_ok rd incoming" "reader_live rd incoming" and L: "msgpack_ok (ae_msgpack A)" "endian_ok (ae_endian A)"
  shows "buffers_inv w \<Longrightarrow> w_pc w = Top \<Longrightarrow> m_s (w_k w) = Connected \<Longrightarrow>
    \<forall>r \<in> set rs. response_ok (ae_msgpack A) r \<Longrightarrow> unread incoming w = concat (map (response_bytes (ae_msgpack A)) rs) @ rest \<Longrightarrow>
    distinct (map (\<lambda>r. response_sync r) rs) \<Longrightarrow>
    map (\<lambda>r. map_of (m_requests (w_k w)) (response_sync r)) rs = map (\<lambda>h. Some (Some h)) hs \<Longrightarrow>
    \<exists>w' frs. (loop_step grow A)\<^sup>*\<^sup>* w w' \<and> length frs = length hs
      \<and> k_done (w_k w') = k_done (w_k w) @ map answered (zip hs frs)
      \<and> map (\<lambda>fr. (m_header fr, frame_body_bytes (buffer_of w') fr)) frs = map (\<lambda>r. (response_header r, response_body r)) rs
      \<and> m_requests (w_k w') = filter (\<lambda>e. fst e \<notin> set (map (\<lambda>r. response_sync r) rs)) (m_requests (w_k w))
      \<and> unread incoming w' = rest \<and> w_pc w' = Top \<and> m_s (w_k w') = Connected"
proof (induction rs arbitrary: w hs)
  case Nil
  then show ?case by (intro exI [of _ w] exI [of _ "[]"]) simp
next
  case (Cons r rs)
  from Cons.prems(7) obtain h hs' where hs: "hs = h # hs'"
    and h: "map_of (m_requests (w_k w)) (response_sync r) = Some (Some h)"
    and hs': "map (\<lambda>r. map_of (m_requests (w_k w)) (response_sync r)) rs = map (\<lambda>h. Some (Some h)) hs'" by (cases hs) auto
  have r: "response_ok (ae_msgpack A) r"
    "unread incoming w = response_bytes (ae_msgpack A) r @ concat (map (response_bytes (ae_msgpack A)) rs) @ rest"
    using Cons.prems(4,5) by auto
  from response_delivered [OF rd L Cons.prems(1-3) r h, of grow] obtain w1 fr where
    w1: "(loop_step grow A)\<^sup>*\<^sup>* w w1" "w_pc w1 = Top" "m_s (w_k w1) = Connected"
      "unread incoming w1 = concat (map (response_bytes (ae_msgpack A)) rs) @ rest"
      "k_done (w_k w1) = k_done (w_k w) @ [(h, no_error, fr)]"
      "m_requests (w_k w1) = filter (\<lambda>e. fst e \<noteq> response_sync r) (m_requests (w_k w))"
      "m_header fr = response_header r" "frame_body_bytes (buffer_of w1) fr = response_body r"
      "frozen_ok (buffer_of w1) (m_body fr)" .
  have inv1: "buffers_inv w1" using connector_buffers.steps_inv [OF loop_steps_csteps [OF w1(1)] Cons.prems(1)] .
  have "map_of (m_requests (w_k w1)) (response_sync r') = map_of (m_requests (w_k w)) (response_sync r')" if "r' \<in> set rs" for r'
  proof -
    have "response_sync r' \<noteq> response_sync r" using Cons.prems(6) that by (auto simp: rev_image_eqI)
    then show ?thesis by (simp add: w1(6) map_of_filter_other [where P = "\<lambda>x. x \<noteq> response_sync r"])
  qed
  then have hs1: "map (\<lambda>r. map_of (m_requests (w_k w1)) (response_sync r)) rs = map (\<lambda>h. Some (Some h)) hs'"
    using hs' by (metis (no_types, lifting) map_eq_conv)
  from Cons.IH [OF inv1 w1(2,3) _ w1(4) _ hs1] Cons.prems(4,6) obtain w' frs where
    w': "(loop_step grow A)\<^sup>*\<^sup>* w1 w'" "length frs = length hs'" "k_done (w_k w') = k_done (w_k w1) @ map answered (zip hs' frs)"
      "map (\<lambda>fr. (m_header fr, frame_body_bytes (buffer_of w') fr)) frs = map (\<lambda>r. (response_header r, response_body r)) rs"
      "m_requests (w_k w') = filter (\<lambda>e. fst e \<notin> set (map (\<lambda>r. response_sync r) rs)) (m_requests (w_k w1))"
      "unread incoming w' = rest" "w_pc w' = Top" "m_s (w_k w') = Connected" by (auto simp del: set_map)
  have "frame_body_bytes (buffer_of w') fr = response_body r"
    using keeps_buffers_steps [OF loop_steps_csteps [OF w'(1)] inv1] w1(8,9) by (simp add: keeps_frozen_def)
  moreover have "(loop_step grow A)\<^sup>*\<^sup>* w w'" using w1(1) w'(1) by simp
  ultimately show ?case using w' w1(5-7)
    by (intro exI [of _ w'] exI [of _ "fr # frs"]) (simp add: hs answered_def conj_commute)
qed

text \<open>The second request in line: it is queued behind a write in flight.\<close>

lemma dispatched_behind_write:
  assumes "m_sending (m_conn (w_k w))" "m_s (w_k w) = Connected" "w_outbox w = xs @ (rid, data, h) # ys"
    "rid \<notin> fst ` set (m_requests (w_k w))"
  obtains w1 where "cstep grow A w w1" "w_pc w1 = w_pc w" "m_s (w_k w1) = Connected" "unread incoming w1 = unread incoming w"
    "m_requests (w_k w1) = m_requests (w_k w) @ [(rid, Some h)]" "m_sending (m_conn (w_k w1))"
    "data \<in> set (waiting_elems (m_queue (m_conn (w_k w1))))"
proof -
  let ?w1 = "w\<lparr>w_k := send_request grow rid data h (w_k w), w_outbox := xs @ ys\<rparr>"
  have "m_s (w_k ?w1) = Connected" "m_requests (w_k ?w1) = m_requests (w_k w) @ [(rid, Some h)]"
    using assms(2,4) by (simp_all add: send_request_def insert_request_def Let_def)
  moreover have "unread incoming ?w1 = unread incoming w" by (simp add: unread_def send_request_conn)
  moreover have "m_sending (m_conn (w_k ?w1))" "data \<in> set (waiting_elems (m_queue (m_conn (w_k ?w1))))"
    using assms(1) by (simp_all add: send_request_conn send_data_def dbq.waiting_enq)
  ultimately show thesis using ks_dispatch [OF assms(3), of grow A] by (intro that [of ?w1]) simp_all
qed

lemma queued_is_sent_next:
  assumes "waiting_elems (m_queue c) \<noteq> []"
  shows "c_writes (on_data_sent no_error c) = c_writes c @ [waiting_elems (m_queue c)]"
proof -
  have "fst (swap (m_queue c)) = waiting_elems (m_queue c)" by (subst swap_eq) simp
  with assms show ?thesis by (simp add: send_defs Let_def is_ready_def split_def)
qed

text \<open>With a usable address \<open>connect\<close> succeeds, and the socket's configuration stays.\<close>

lemma connect_succeeds:
  assumes "\<not> c_open c" "mb_ok (fst (c_stream c))" "resolve (m_host (c_config c)) = (no_error, as)"
    and "\<exists>a \<in> set as. usable rd dial (m_port (c_config c)) a"
  obtains c' where "connect rd resolve dial c = Inr (no_error, c')" "c_config c' = c_config c"
proof -
  obtain ec c' where l: "connect_loop rd dial as c = (ec, c')" by force
  from connect_loop_outcome [OF assms(2), of rd dial as] l have "connect_outcome rd dial (m_port (c_config c)) as (ec, c')" by simp
  with assms(4) have "ec = no_error" by (auto simp: connect_outcome_def find_None_iff split: option.splits)
  moreover have "c_config c' = c_config c" using connect_loop_same_sender [OF l] by (simp add: same_sender_def)
  ultimately show thesis using that l assms(1,3) by (simp add: connect_def)
qed

subsection \<open>Properties\<close>

text \<open>
  C7: what the server answers reaches the handlers it is meant for. If the bytes to come start with
  responses to requests that wait in the table, in any order and cut into any pieces, the receive
  loop calls exactly the handlers of these requests, each once and without an error, in the order of
  the responses; each is given the header and the body of its own response, all of them still intact
  at the end; the other requests go on waiting and exactly the rest of the bytes is left.
\<close>

theorem responses_reach_their_handlers:
  assumes "reader_ok rd incoming" "reader_live rd incoming" "msgpack_ok (ae_msgpack A)" "endian_ok (ae_endian A)"
    and "reach (cinit grow A) (cstep grow A) w" "w_pc w = Top" "m_s (w_k w) = Connected"
    and "\<forall>r \<in> set rs. response_ok (ae_msgpack A) r" "distinct (map (\<lambda>r. response_sync r) rs)"
    and "unread incoming w = concat (map (response_bytes (ae_msgpack A)) rs) @ rest"
    and "map (\<lambda>r. map_of (m_requests (w_k w)) (response_sync r)) rs = map (\<lambda>h. Some (Some h)) hs"
  shows "\<exists>w' frs. (loop_step grow A)\<^sup>*\<^sup>* w w' \<and> w_pc w' = Top \<and> m_s (w_k w') = Connected \<and> length frs = length hs
    \<and> k_done (w_k w') = k_done (w_k w) @ map answered (zip hs frs)
    \<and> map (\<lambda>fr. (m_header fr, frame_body_bytes (buffer_of w') fr)) frs = map (\<lambda>r. (response_header r, response_body r)) rs
    \<and> m_requests (w_k w') = filter (\<lambda>e. fst e \<notin> set (map (\<lambda>r. response_sync r) rs)) (m_requests (w_k w))
    \<and> unread incoming w' = rest"
  using responses_delivered [OF assms(1-4) connector_buffers.reach_inv [OF assms(5)] assms(6-8,10,9,11)] by blast

definition sample_response :: response where
  "sample_response = (Uint32, sample_answer, MessageHeader_default\<lparr>request_type := 0\<rparr>, [0x80])"

lemma sample_response_facts:
  "response_header sample_response = MessageHeader_default\<lparr>request_type := 0\<rparr>" "response_body sample_response = [0x80]"
  "sync MessageHeader_default = 0" "response_ok msgpack_ref sample_response"
  by (simp_all add: sample_response_def response_header_def response_body_def response_ok_def sample_answer_ok)
    (simp add: MessageHeader_default_def)

lemma sample_auth_libs:
  "ae_msgpack sample_auth = msgpack_ref" "msgpack_ok (ae_msgpack sample_auth)" "endian_ok (ae_endian sample_auth)"
  by (simp_all add: sample_auth_def msgpack_ref_ok endian_ref_ok)

theorem responses_reach_their_handlers_witness:
  "\<exists>(w' :: byte list cworld) fr. k_done (w_k w') = [(0, no_error, fr)] \<and> m_requests (w_k w') = [] \<and> unread id w' = [0xce]
    \<and> m_header fr = MessageHeader_default\<lparr>request_type := 0\<rparr> \<and> frame_body_bytes (buffer_of w') fr = [0x80]"
proof -
  from sample_waiting_on [of "response_bytes msgpack_ref sample_response @ [0xce]"] obtain w :: "byte list cworld" where
    w: "reach (cinit id sample_auth) (cstep id sample_auth) w" "m_requests (w_k w) = [(0, Some 0)]" "k_done (w_k w) = []"
      "m_s (w_k w) = Connected" "w_pc w = Top" "unread id w = response_bytes msgpack_ref sample_response @ [0xce]"
    by (auto simp: unread_def)
  from responses_reach_their_handlers [OF chunk_reader_ok [of 3] chunk_reader_live sample_auth_libs(2,3) w(1,5,4),
      of "[sample_response]" "[0xce]" "[0]"] w(2,6)
  obtain w' fr where "k_done (w_k w') = k_done (w_k w) @ [answered (0, fr)]" "m_requests (w_k w') = []" "unread id w' = [0xce]"
    "m_header fr = MessageHeader_default\<lparr>request_type := 0\<rparr>" "frame_body_bytes (buffer_of w') fr = [0x80]"
    by (auto simp: sample_auth_libs(1) sample_response_facts)
  then show ?thesis using w(3) by (intro exI [of _ w'] exI [of _ fr]) (simp add: answered_def)
qed

text \<open>
  C19: a response is not checked against what was sent. While a write is in flight the packet of the
  next request waits in the send queue, but its handler is in the table already. A response with its
  identifier ends the request, and with it the coroutine that owns the packet's bytes, although
  the queue still refers to them; the completion of the write in flight hands them to the socket.
\<close>

theorem early_response_leaves_data_queued:
  assumes "reader_ok rd incoming" "reader_live rd incoming" "msgpack_ok (ae_msgpack A)" "endian_ok (ae_endian A)"
    and "reach (cinit grow A) (cstep grow A) w" "w_pc w = Top" "m_s (w_k w) = Connected" "m_sending (m_conn (w_k w))"
    and "w_outbox w = xs @ (rid, data, h) # ys" "rid \<notin> fst ` set (m_requests (w_k w))"
    and "response_ok (ae_msgpack A) r" "response_sync r = rid" "unread incoming w = response_bytes (ae_msgpack A) r @ rest"
  shows "\<exists>w' fr. (cstep grow A)\<^sup>*\<^sup>* w w' \<and> (h, no_error, fr) \<in> set (k_done (w_k w')) \<and> rid \<notin> fst ` set (m_requests (w_k w'))
    \<and> data \<in> set (waiting_elems (m_queue (m_conn (w_k w'))))
    \<and> data \<in> set (concat (c_writes (on_data_sent no_error
        ((m_conn (w_k w'))\<lparr>c_writes := tl (c_writes (m_conn (w_k w')))\<rparr>))))"
proof -
  from dispatched_behind_write [OF assms(8,7,9,10)] obtain w1 where w1: "cstep grow A w w1" "w_pc w1 = Top"
    "m_s (w_k w1) = Connected" "unread incoming w1 = unread incoming w"
    "m_requests (w_k w1) = m_requests (w_k w) @ [(rid, Some h)]" "m_sending (m_conn (w_k w1))"
    "data \<in> set (waiting_elems (m_queue (m_conn (w_k w1))))" using assms(6) by metis
  have "map_of (m_requests (w_k w1)) (response_sync r) = Some (Some h)"
    using assms(10,12) by (simp add: w1(5) map_add_def map_of_eq_None_iff [THEN iffD2] del: map_of_eq_None_iff)
  note m1 = this
  have inv1: "buffers_inv w1" using connector_buffers.step_inv [OF connector_buffers.reach_inv [OF assms(5)] w1(1)] .
  have u1: "unread incoming w1 = response_bytes (ae_msgpack A) r @ rest" using w1(4) assms(13) by simp
  from response_delivered [OF assms(1-4) inv1 w1(2,3) assms(11) u1 m1, of grow] obtain w' fr where
    w': "(loop_step grow A)\<^sup>*\<^sup>* w1 w'" "k_done (w_k w') = k_done (w_k w1) @ [(h, no_error, fr)]"
    "m_requests (w_k w') = filter (\<lambda>e. fst e \<noteq> response_sync r) (m_requests (w_k w1))"
    "same_sender (m_conn (w_k w1)) (m_conn (w_k w'))" by blast
  have q: "data \<in> set (waiting_elems (m_queue (m_conn (w_k w'))))" using w'(4) w1(7) by (simp add: same_sender_def)
  have "(cstep grow A)\<^sup>*\<^sup>* w w'" using w1(1) loop_steps_csteps [OF w'(1)] by (rule converse_rtranclp_into_rtranclp)
  moreover from q have "data \<in> set (concat (c_writes (on_data_sent no_error
      ((m_conn (w_k w'))\<lparr>c_writes := tl (c_writes (m_conn (w_k w')))\<rparr>))))"
    using queued_is_sent_next [of "(m_conn (w_k w'))\<lparr>c_writes := tl (c_writes (m_conn (w_k w')))\<rparr>"] by fastforce
  ultimately show ?thesis using q w'(2,3) assms(12) by (intro exI [of _ w'] exI [of _ fr]) auto
qed

text \<open>A server that answers the second request before it can have received it.\<close>

definition early_response :: response where
  "early_response = (Uint32, Mp_map [(mp_field F_RequestType, Mp_uint 0), (mp_field F_Sync, Mp_uint 1)],
     MessageHeader_default\<lparr>request_type := 0, sync := 1\<rparr>, [0x80])"

lemma early_response_facts: "response_sync early_response = 1" "response_ok msgpack_ref early_response"
  by (simp_all add: early_response_def response_header_def response_ok_def header_convert_def header_setter_def
      msgpack_convert [OF msgpack_ref_ok])
    (simp add: frame_fits_def msgpack_ref_def head_bytes_def field_type_val.simps)

theorem early_response_leaves_data_queued_witness:
  "\<exists>(w' :: byte list cworld) fr. reach (cinit id sample_auth) (cstep id sample_auth) w' \<and> (1, no_error, fr) \<in> set (k_done (w_k w'))
    \<and> [2] \<in> set (waiting_elems (m_queue (m_conn (w_k w'))))"
proof -
  from sample_waiting_on [of "response_bytes msgpack_ref early_response @ []"] obtain w :: "byte list cworld" where
    w: "reach (cinit id sample_auth) (cstep id sample_auth) w" "m_requests (w_k w) = [(0, Some 0)]" "w_issued w = 1"
      "m_s (w_k w) = Connected" "w_free w = []" "w_outbox w = []" "w_owned w" "w_start w = Started no_error" "w_pc w = Top"
      "unread id w = response_bytes msgpack_ref early_response @ []" "m_sending (m_conn (w_k w))" "m_request_id (w_k w) = 1"
    by (auto simp: unread_def)
  let ?w2 = "submit_request (1, 1) [2] (take_id w)"
  have "cstep id sample_auth (take_id w) ?w2" using w(3,5,7,12) by (intro ks_submit) (simp_all add: take_id_def generate_id_def)
  with reach_step [OF w(1) ks_id [OF w(7,8)]] have w2: "reach (cinit id sample_auth) (cstep id sample_auth) ?w2" by (rule reach_step)
  have same: "w_pc ?w2 = Top" "m_s (w_k ?w2) = Connected" "m_sending (m_conn (w_k ?w2))" "w_outbox ?w2 = [] @ (1, [2], 1) # []"
    "1 \<notin> fst ` set (m_requests (w_k ?w2))" "unread id ?w2 = response_bytes (ae_msgpack sample_auth) early_response @ []"
    using w by (simp_all add: submit_request_def take_id_def generate_id_def unread_def sample_auth_libs(1))
  have "response_ok (ae_msgpack sample_auth) early_response" by (simp only: sample_auth_libs(1) early_response_facts)
  from early_response_leaves_data_queued [OF chunk_reader_ok [of 3] chunk_reader_live sample_auth_libs(2,3) w2 same(1-5)
      this early_response_facts(1) same(6)]
  obtain w' fr where "(cstep id sample_auth)\<^sup>*\<^sup>* ?w2 w'" "(1, no_error, fr) \<in> set (k_done (w_k w'))"
    "[2] \<in> set (waiting_elems (m_queue (m_conn (w_k w'))))" by blast
  with reach_steps [OF this(1) w2] show ?thesis by blast
qed

text \<open>
  C18: without credentials the connector reconnects. When receiving fails, every waiting request is
  completed with \<open>broken_pipe\<close>, each once, and if one of the resolved addresses is usable three steps of the
  loop lead to a connected connector with an empty table that waits for messages; the identifiers go on
  where they were.
\<close>

theorem reconnects_without_credentials:
  fixes w :: "'s cworld" and rd' :: "'s reader"
  assumes "reach (cinit grow A) (cstep grow A) w" "w_pc w = Await_message" "m_s (w_k w) = Connected" "w_owned w"
    and "m_credentials (c_config (m_conn (w_k w))) = None" "\<forall>rid. (rid, None) \<notin> set (m_requests (w_k w))"
    and "reader_ok rd incoming" "conn_receive_message (ae_msgpack A) (ae_endian A) rd (m_conn (w_k w)) = Inr ((ec, msg), conn)"
    and "failed ec" "resolve (m_host (c_config (m_conn (w_k w)))) = (no_error, as)"
    and "\<exists>a \<in> set as. usable rd' dial (m_port (c_config (m_conn (w_k w)))) a"
  shows "\<exists>w1 w2 w'. loop_step grow A w w1 \<and> loop_step grow A w1 w2 \<and> loop_step grow A w2 w'
    \<and> w_pc w' = Await_message \<and> m_s (w_k w') = Connected \<and> m_requests (w_k w') = [] \<and> m_request_id (w_k w') = m_request_id (w_k w)
    \<and> k_done (w_k w') = k_done (w_k w) @ map (\<lambda>h. (h, errc broken_pipe, IprotoFrame_default)) (waiting_handlers (m_requests (w_k w)))"
proof -
  let ?k = "(w_k w)\<lparr>m_conn := conn\<rparr>"
  have cfg: "c_config conn = c_config (m_conn (w_k w))" using receive_same_sender [OF assms(8)] by (simp add: same_sender_def)
  have "framing_ok (c_stream (m_conn (w_k w)))" using connector_buffers.reach_inv [OF assms(1)] by (simp add: buffers_inv_def)
  from conn_receive_keeps(1) [OF assms(7) this assms(8)] have ok: "mb_ok (fst (c_stream (stop conn)))"
    by (simp add: framing_ok_def stop_def)
  from assms(6) obtain k where k: "reset ?k = Inr k"
    using call_all_full [of "m_requests (w_k w)" "errc broken_pipe"] assms(3) by (auto simp: reset_def Let_def)
  note r = reset_Inr [OF k]
  let ?w1 = "w\<lparr>w_k := k, w_pc := Top\<rparr>" and ?w2 = "w\<lparr>w_k := k, w_pc := Await_connect\<rparr>"
  have "loop_message ec msg conn w = Inr ?w1" using assms(9) k by (simp add: loop_message_def on_message_def del: run_bind_Inr)
  then have s1: "loop_step grow A w ?w1" using assms(8) by (intro ls_message [OF assms(2,7)])
  have s2: "loop_step grow A ?w1 ?w2" using assms(3) by (intro ls_top) (simp_all add: loop_top_def r)
  from connect_succeeds [of "stop conn" resolve as rd' dial] ok assms(10,11) obtain c' where
    c': "connect rd' resolve dial (m_conn k) = Inr (no_error, c')" "c_config c' = c_config (m_conn (w_k w))"
    by (auto simp: r stop_def cfg)
  let ?w' = "w\<lparr>w_k := k\<lparr>m_conn := c', m_s := Connected\<rparr>, w_pc := Await_message\<rparr>"
  have "loop_connected grow A no_error c' ?w2 = Inr ?w'"
    using assms(4,5) c'(2) by (simp add: loop_connected_def async_auth_start_def Let_def del: run_bind_Inr)
  then have "loop_step grow A ?w2 ?w'" using c'(1) by (intro ls_connected) simp_all
  with s1 s2 show ?thesis using assms(3)
    by (intro exI [of _ ?w1] exI [of _ ?w2] exI [of _ ?w']) (simp add: r)
qed

theorem reconnects_without_credentials_witness:
  "\<exists>w w' :: byte list cworld. m_requests (w_k w) = [(0, Some 0)] \<and> (loop_step id sample_auth)\<^sup>*\<^sup>* w w' \<and> w_pc w' = Await_message
    \<and> m_s (w_k w') = Connected \<and> m_requests (w_k w') = [] \<and> k_done (w_k w') = [(0, errc broken_pipe, IprotoFrame_default)]"
proof -
  from sample_waiting_on [of "uint_field Uint16 300 @ []"] obtain w0 :: "byte list cworld" where
    w0: "reach (cinit id sample_auth) (cstep id sample_auth) w0" "m_requests (w_k w0) = [(0, Some 0)]" "k_done (w_k w0) = []"
      "m_s (w_k w0) = Connected" "w_owned w0" "w_pc w0 = Top" "pending id (c_stream (m_conn (w_k w0))) = uint_field Uint16 300 @ []"
      "m_credentials (c_config (m_conn (w_k w0))) = None" by blast
  let ?w = "w0\<lparr>w_pc := Await_message\<rparr>" and ?resolve = "\<lambda>h :: string. (no_error, [''up''])"
  have "loop_step id sample_auth w0 ?w" using w0(4,6) by (intro ls_top) (simp_all add: loop_top_def)
  with w0(1) have w: "reach (cinit id sample_auth) (cstep id sample_auth) ?w" by (blast intro: reach_step ks_loop)
  have "framing_ok (c_stream (m_conn (w_k w0)))" using connector_buffers.reach_inv [OF w0(1)] by (simp add: buffers_inv_def)
  from uint16_message_fails [OF chunk_reader_ok chunk_reader_live this msgpack_ref_ok w0(7), of endian_ref] obtain st where
    "receive_message msgpack_ref endian_ref (chunk_reader 3) (c_stream (m_conn (w_k w0)))
      = Inr ((errc state_not_recoverable, IprotoFrame_default), st)" by blast
  then have m: "conn_receive_message (ae_msgpack sample_auth) (ae_endian sample_auth) (chunk_reader 3) (m_conn (w_k ?w))
      = Inr ((errc state_not_recoverable, IprotoFrame_default), (m_conn (w_k w0))\<lparr>c_stream := st\<rparr>)"
    by (simp add: conn_receive_message_def sample_auth_def del: run_bind_Inr)
  have "\<exists>a \<in> set [''up'']. usable (chunk_reader 9) sample_dial (m_port (c_config (m_conn (w_k ?w)))) a"
    by (simp add: usable_def sample_dial_def greeting_hello)
  from reconnects_without_credentials [OF w _ _ _ _ _ chunk_reader_ok m _ _ this, of ?resolve] w0
  obtain w1 w2 w' where "loop_step id sample_auth ?w w1" "loop_step id sample_auth w1 w2" "loop_step id sample_auth w2 w'"
    "w_pc w' = Await_message" "m_s (w_k w') = Connected" "m_requests (w_k w') = []"
    "k_done (w_k w') = [(0, errc broken_pipe, IprotoFrame_default)]" by auto
  moreover from this(1-3) have "(loop_step id sample_auth)\<^sup>*\<^sup>* ?w w'" by (meson converse_rtranclp_into_rtranclp rtranclp.rtrancl_refl)
  ultimately show ?thesis using w0(2) by (intro exI [of _ ?w] exI [of _ w']) simp
qed

end
