(* ===== verification/Spec2Isabelle.thy ===== *)
theory Spec2Isabelle
  imports Box Connector_Shutdown Connector_Spec Connector_Delivery
begin

text \<open>
  A verification of \<open>tarantool_connector\<close>, a C++20 header library that talks to a Tarantool database
  over its binary protocol IPROTO. All source paths below are relative to
  \<open>src/include/tarantool_connector/\<close>.

  \<^bold>\<open>The program.\<close> A \<open>Box\<close> (\<open>box/tntpp_box.h\<close>) builds data requests. A \<open>Connector\<close>
  (\<open>tarantool_connector.hpp\<close>) gives each request an identifier, keeps its completion handler in a table,
  hands the packet to a \<open>Connection\<close>, and runs a receive loop that matches responses with handlers,
  reconnects and logs in. A \<open>Connection\<close> (\<open>connection.h\<close>) owns the socket: it connects over the
  resolved addresses and sends through a double buffer queue (\<open>detail/tntpp_queue.h\<close>) with one write in
  flight. \<open>IprotoFraming\<close> (\<open>detail/tntpp_iproto_framing.h\<close>) cuts the incoming bytes into messages held in
  a shared receive buffer (\<open>detail/tntpp_mutable_buffer.h\<close>). \<open>RequestPacker\<close> (\<open>detail/tntpp_request.h\<close>)
  and the adaptors of \<open>detail/iproto_typedefs.h\<close> produce and read the MessagePack bytes; \<open>detail/sha1.h\<close>
  and \<open>detail/tntpp_crypto.h\<close> compute the login scramble; \<open>tntpp_config.h\<close>, \<open>tntpp_logger.h\<close> and
  \<open>tntpp_cout_logger.h\<close> hold options and logging.

  \<^bold>\<open>The theories.\<close>
  \<^item> \<open>Prelude\<close>: integers, \<open>size_t\<close> arithmetic, code that may abort (\<open>run\<close>, with a failed assertion,
    \<open>std::terminate\<close>, an access out of bounds and one through a dangling reference as its errors), exceptions, error codes, reachable
    states, the locale \<open>inv_system\<close> of an invariant of a step relation, and the locale \<open>simulation\<close> of a
    refinement, which extends it.
  \<^item> \<open>Msgpack\<close>, \<open>Endian\<close>: the two libraries the connector calls, as records of functions with their
    documented laws (\<open>msgpack_ok\<close>, \<open>endian_ok\<close>), and one instance of each that satisfies the laws.
  \<^item> \<open>DBQueue\<close>: every member of \<open>DBQueue\<close> with the capacities of its vectors; the locale \<open>send_queue\<close>
    of a loss-free queue, interpreted by it. It is a FIFO, and never gives memory back.
  \<^item> \<open>Mutable_Buffer\<close>: \<open>SharedBuffer\<close>, \<open>FrozenBuffer\<close> and \<open>MutableBuffer\<close> over an explicit heap of blocks; the
    locale \<open>stream_buffer\<close>. Views handed out show the received stream and never change afterwards.
  \<^item> \<open>Iproto_Errors\<close>, \<open>Iproto_Types\<close>: the error table, its messages and the texts documented for them, request
    and field types, the message header, its two adaptors and their round trip.
  \<^item> \<open>Request\<close>: every member of \<open>RequestPacker\<close>; the wire format of requests whose map length is counted
    beforehand or patched afterwards.
  \<^item> \<open>Framing\<close>: \<open>read_tarantool_hello\<close>, \<open>IprotoFrame\<close>, \<open>IprotoFraming\<close>. However the reads cut the stream,
    messages are received in order and exactly; every input is survived, apart from a message
    without a body; the 16-bit size field is misread.
  \<^item> \<open>Logger_Config\<close>: levels, the logging macro, \<open>StdoutLogger\<close>, \<open>Config\<close>.
  \<^item> \<open>Connection\<close>: \<open>connect\<close>, \<open>send_data\<close> and the completions, as functions and as the step relation
    \<open>conn_step\<close>; order and completeness of what is sent, and that a queue drains.
  \<^item> \<open>Sha1\<close>, \<open>Sha1_Context\<close>, \<open>Crypto\<close>: \<open>sha1.h\<close> with its in-place block against the specification of FIPS
    180, and \<open>ScramblePassword\<close> against the server's check of \<open>chap-sha1\<close>.
  \<^item> \<open>Connector\<close>: the request table, \<open>send_request\<close>, \<open>reset\<close>, the login and the requests the class builds
    itself, as functions: what each does to the table, and the wire format of the packets.
  \<^item> \<open>Connector_Loop\<close>: \<open>Connector::connect\<close>, the coroutine \<open>start\<close> as the step relation \<open>loop_step\<close>, and \<open>cstep\<close>,
    in which it interleaves with client threads, dispatched functions, write completions, the release
    of the last pointer and the destructor. The accounting of completion handlers as an invariant;
    what goes wrong in logins.
  \<^item> \<open>Connector_Shutdown\<close>: the loop of a released connector ends, by a rank of its suspension points, and
    no request is left without an answer; what was dispatched may outlive the connector.
  \<^item> \<open>Connector_Spec\<close>: an abstract system of remote calls (\<open>rpc_step\<close>), which the connector implements by a
    forward simulation.
  \<^item> \<open>Connector_Buffers\<close>: the receive buffer over the life of a connector; responses in the hands of
    clients never change.
  \<^item> \<open>Connector_Delivery\<close>: from the bytes of the server to the handlers: delivery of responses in any
    order, reconnecting without credentials, and a response that comes before its request is written.
  \<^item> \<open>Box\<close>: the select builder, \<open>insert\<close>, \<open>replace\<close> and \<open>remove\<close> with the locale \<open>space_request\<close> of what they
    share, their packets, and what becomes of the packer while a name is looked up.
  \<^item> This theory: properties of several of these parts together, among them that a request of \<open>Box\<close> reaches
    the socket as one frame and its handler the table.

  \<^bold>\<open>Correspondence.\<close> A class is a record with the members' names, an enumeration a datatype, a
  function of the code a definition of the same name (with a prefix where names clash). A coroutine is
  cut at its \<open>co_await\<close>s: what runs on the strand between two of them is one function and one step.
  Whole calls of \<open>connect\<close> and \<open>receive_message\<close>, which only the receive loop makes, are one step of the
  connector, taken when they complete; \<open>connect_send\<close> and \<open>receive_send\<close> show that it makes no difference
  when in between a request is sent. Assertions are checked, as in a debug build. The number of
  handlers is not bounded, but statements about identifiers hold until \<open>2 ^ 64\<close> of them were used.
  The configured size of the receive buffer is taken to be below \<open>2 ^ 63\<close> bytes, since no larger block can
  be allocated. The shared pointer to the connector is a flag (\<open>w_owned\<close>) and the loop's own temporary
  pointer a property of where it is suspended (\<open>loop_holds\<close>); the destructor's function runs on the strand
  later, or at once when the loop releases the last pointer.
  Loops over data are structural or have a termination proof (\<open>update_loop\<close> and \<open>pad_loop\<close> of
  \<open>SHA1Update\<close> and \<open>SHA1Final\<close>), so the model needs no fuel; only the example instance of MessagePack
  decodes with a depth bound, one more than the number of bytes, which is always enough.

  \<^bold>\<open>Parameters.\<close> The reader (\<open>reader_ok\<close>, \<open>reader_live\<close>), the resolver, \<open>async_connect\<close>, MessagePack,
  byte order (a little-endian platform), vector growth, trimming, base64 and message formatting are
  arguments of the definitions that use them.

  \<^bold>\<open>Not modelled.\<close> The texts of log messages in the coroutines, which do not change the state (the one of
  \<open>async_auth\<close> may end the process while it is built, which is modelled);
  \<open>detail/asio_printers.h\<close> (printing endpoints for the log); \<open>detail/tntpp_typedefs.h\<close> and other headers
  with aliases and macros only; the schema cache and \<open>picodata\<close>, which are empty in the source;
  \<open>Box::select\<close> with a key and \<open>Box::fetch_schema\<close>, which have no body; \<open>Box::remove\<close> with an index, which
  cannot be instantiated; allocators, executors and thread identity, apart from the strand's promise
  that its functions do not overlap and from where a request of \<open>Box\<close> is called (\<open>caller\<close>). \<open>send_request\<close> keeps a pointer to the connector in the function it
  dispatches; the model lets that function run on the connector's state also when the connector is gone, which
  \<open>dispatch_outlives_connector\<close> shows to be possible, where the code would use freed memory. The bytes of a packet
  belong to the coroutine of \<open>send_request\<close>, which ends when its handler is called; the queue keeps the bytes
  themselves, where the code keeps a pointer. The closures of the coroutines are taken to live as long as these. Completion
  handlers are taken not to call back into the connector from within their call, and not to throw in
  \<open>reset\<close>. Calls of the operating system that report failure by an exception (\<open>close\<close>, \<open>set_option\<close>, \<open>remote_endpoint\<close>) are
  taken to succeed.
\<close>

subsection \<open>Properties across components\<close>

text \<open>
  C9: the connector is a correct client of the connection. In every state it reaches, through any
  interleaving of requests, write completions, responses, failures and reconnects, at most one write
  is in flight, \<open>m_sending\<close> tells whether there is one, and no data waits in the queue without one.
\<close>

theorem connector_one_write_in_flight:
  assumes "reach (cinit grow A) (cstep grow A) w"
  shows "length (c_writes (m_conn (w_k w))) \<le> 1
    \<and> (m_sending (m_conn (w_k w)) \<longleftrightarrow> c_writes (m_conn (w_k w)) \<noteq> [])
    \<and> (c_writes (m_conn (w_k w)) = [] \<longrightarrow> waiting_elems (m_queue (m_conn (w_k w))) = [])"
  using connector_send.reach_inv [OF assms] by (auto simp: sender_inv_def send_inv_def Let_def)

theorem connector_one_write_in_flight_witness:
  "\<exists>w :: byte list cworld. reach (cinit id sample_auth) (cstep id sample_auth) w \<and> m_requests (w_k w) = [(0, Some 0)]
    \<and> length (c_writes (m_conn (w_k w))) \<le> 1 \<and> (m_sending (m_conn (w_k w)) \<longleftrightarrow> c_writes (m_conn (w_k w)) \<noteq> [])"
proof -
  from sample_waiting obtain w :: "byte list cworld" where
    w: "reach (cinit id sample_auth) (cstep id sample_auth) w" "m_requests (w_k w) = [(0, Some 0)]" by blast
  from connector_one_write_in_flight [OF w(1)] w show ?thesis by blast
qed

text \<open>
  C25: what a client asks of \<open>Box\<close> is what the connection is given. On a connected connector, in any state
  it can reach, \<open>insert\<close>, \<open>replace\<close> and \<open>remove\<close> lead, by steps of the connector, to a state in which the
  table has gained the handler under the fresh identifier and the bytes on their way to the socket have gained
  one frame at their end: the header of the request's type, its argument and the number of the space. A
  space that was not set makes them complete with \<open>invalid_argument\<close>, and nothing is dispatched.
\<close>

theorem box_requests_reach_the_socket:
  assumes "reach (cinit grow A) (cstep grow A) w" "w_owned w" "w_start w = Started ec" "m_s (w_k w) = Connected" "w_issued w < 2 ^ 64"
    and "msgpack_ok L" "endian_ok E"
    and "(request, type, field) \<in> {(box_insert, R_Insert, F_Tuple), (box_replace, R_Replace, F_Tuple), (box_remove, R_Delete, F_Key)}"
    and "length (header_pack L (request_header type (m_request_id (w_k w)))
      @ mp_pack L (Mp_map [(mp_field field, obj), (mp_field F_SpaceId, Mp_uint n)])) < 2 ^ 32"
  shows "(\<exists>w1 w2. box_request (\<lambda>rid. request L E cl rid (SV_id n) obj) w = Inr (None, w1)
      \<and> reach (cinit grow A) (cstep grow A) w1 \<and> cstep grow A w1 w2
      \<and> m_requests (w_k w2) = m_requests (w_k w) @ [(m_request_id (w_k w), Some (w_issued w))]
      \<and> outgoing (m_conn (w_k w2)) = outgoing (m_conn (w_k w)) @ [wire_frame (header_pack L (request_header type (m_request_id (w_k w)))
          @ mp_pack L (Mp_map [(mp_field field, obj), (mp_field F_SpaceId, Mp_uint n)]))]
      \<and> k_done (w_k w2) = k_done (w_k w) \<and> w_outbox w2 = w_outbox w)
    \<and> box_request (\<lambda>rid. request L E cl rid SV_monostate obj) w = Inr (Some (errc invalid_argument), take_id w)"
proof -
  have r: "request L E cl (m_request_id (w_k w)) (SV_id n) obj = Inr (Inr (m_request_id (w_k w),
      wire_frame (header_pack L (request_header type (m_request_id (w_k w)))
        @ mp_pack L (Mp_map [(mp_field field, obj), (mp_field F_SpaceId, Mp_uint n)]))))"
    using assms(6-9) by (auto simp: ins.request_frame repl.request_frame rem.request_frame)
  have "request L E cl rid SV_monostate obj = Inr (Inl (errc invalid_argument))" for rid
    using assms(8) by (auto simp: ins.unset_space repl.unset_space rem.unset_space)
  then have "box_request (\<lambda>rid. request L E cl rid SV_monostate obj) w = Inr (Some (errc invalid_argument), take_id w)"
    by (simp add: box_request_def box_send_def)
  moreover from box_request_is_sent [OF assms(1-5), of "\<lambda>rid. request L E cl rid (SV_id n) obj", OF r] obtain w1 w2
    where "box_request (\<lambda>rid. request L E cl rid (SV_id n) obj) w = Inr (None, w1)"
      "reach (cinit grow A) (cstep grow A) w1" "cstep grow A w1 w2"
      "request_sent (m_request_id (w_k w)) (w_issued w) (wire_frame (header_pack L (request_header type (m_request_id (w_k w)))
        @ mp_pack L (Mp_map [(mp_field field, obj), (mp_field F_SpaceId, Mp_uint n)]))) w w2" by blast
  ultimately show ?thesis unfolding request_sent_def by blast
qed

theorem box_requests_reach_the_socket_witness:
  "\<exists>w2 :: byte list cworld. reach (cinit id sample_auth) (cstep id sample_auth) w2 \<and> m_requests (w_k w2) = [(0, Some 0), (1, Some 1)]
    \<and> last (outgoing (m_conn (w_k w2))) = wire_frame [0x82, 0x01, 0x01, 0x00, 0x05, 0x82, 0x20, 0x91, 0x01, 0x10, 0x03]"
proof -
  from sample_waiting obtain w :: "byte list cworld" where w: "reach (cinit id sample_auth) (cstep id sample_auth) w"
    "w_owned w" "w_start w = Started no_error" "m_s (w_k w) = Connected" "m_requests (w_k w) = [(0, Some 0)]" "w_issued w = 1"
    "m_request_id (w_k w) = 1" by blast
  let ?obj = "Mp_array [Mp_uint 1]"
  have fits: "length (header_pack msgpack_ref (request_header R_Delete (m_request_id (w_k w)))
      @ mp_pack msgpack_ref (Mp_map [(mp_field F_Key, ?obj), (mp_field F_SpaceId, Mp_uint 3)])) < 2 ^ 32"
    by (simp add: w(7) msgpack_ref_def header_pack_def head_bytes_def field_type_val.simps request_header_def
      set_request_type_def MessageHeader_default_def)
  have n: "w_issued w < 2 ^ 64" by (simp add: w(6))
  have "(box_remove, R_Delete, F_Key) \<in> {(box_insert, R_Insert, F_Tuple), (box_replace, R_Replace, F_Tuple), (box_remove, R_Delete, F_Key)}"
    by simp
  from box_requests_reach_the_socket [OF w(1-4) n msgpack_ref_ok endian_ref_ok this fits, of callback_client]
  obtain w1 w2 :: "byte list cworld" where s: "reach (cinit id sample_auth) (cstep id sample_auth) w1" "cstep id sample_auth w1 w2"
    "m_requests (w_k w2) = m_requests (w_k w) @ [(m_request_id (w_k w), Some (w_issued w))]"
    "outgoing (m_conn (w_k w2)) = outgoing (m_conn (w_k w)) @ [wire_frame (header_pack msgpack_ref (request_header R_Delete (m_request_id (w_k w)))
      @ mp_pack msgpack_ref (Mp_map [(mp_field F_Key, ?obj), (mp_field F_SpaceId, Mp_uint 3)]))]" by blast
  have "m_requests (w_k w2) = [(0, Some 0), (1, Some 1)]
    \<and> last (outgoing (m_conn (w_k w2))) = wire_frame [0x82, 0x01, 0x01, 0x00, 0x05, 0x82, 0x20, 0x91, 0x01, 0x10, 0x03]"
    by (simp add: s(3,4) w(5-7) msgpack_ref_def header_pack_def head_bytes_def field_type_val.simps request_header_def
      set_request_type_def MessageHeader_default_def)
  with reach_step [OF s(1,2)] show ?thesis by blast
qed

text \<open>
  C26: a select request may be built while other requests are made. \<open>get_select_builder\<close> takes an identifier;
  after any steps of the connector that leave it connected and its identifier unused, \<open>select\<close> of the
  builder with any calls made on it leads to a state in which the table has gained the builder's
  identifier and the bytes on their way to the socket one frame, whose body unpacks to the entries of the calls in order
  and the number of the space. Without a space it completes with \<open>invalid_argument\<close> and changes nothing.
\<close>

theorem select_reaches_the_socket:
  assumes "reach (cinit grow A) (cstep grow A) w" "w_owned w" "w_start w = Started ec"
    and "get_select_builder L space w = (b, w0)" "(cstep grow A)\<^sup>*\<^sup>* w0 w1" "(sr_sync b, w_issued w) \<in> set (w_free w1)"
    and "w_owned w1" "m_s (w_k w1) = Connected" "w_issued w1 \<le> 2 ^ 64" "msgpack_ok L" "endian_ok E"
    and "space \<noteq> SV_monostate \<Longrightarrow> get_space_index space = (no_error, n)" "length (select_entries calls n) < 2 ^ 16"
    and "mp_wf (Mp_map (entry_objects (select_entries calls n)))"
    and "length (header_pack L (request_header R_Select (sr_sync b))) + 3
      + length (pack_entries L (entry_objects (select_entries calls n))) < 2 ^ 32"
  shows "if space = SV_monostate
    then box_send (w_issued w) (box_select L E (builder_calls L calls b)) w1 = Inr (Some (errc invalid_argument), w1)
    else (\<exists>body w2 w3. box_send (w_issued w) (box_select L E (builder_calls L calls b)) w1 = Inr (None, w2)
      \<and> reach (cinit grow A) (cstep grow A) w2 \<and> cstep grow A w2 w3
      \<and> m_requests (w_k w3) = m_requests (w_k w1) @ [(m_request_id (w_k w), Some (w_issued w))]
      \<and> outgoing (m_conn (w_k w3)) = outgoing (m_conn (w_k w1))
          @ [wire_frame (header_pack L (request_header R_Select (m_request_id (w_k w))) @ body)]
      \<and> mp_unpack L body 0 = Inr (Mp_map (entry_objects (select_entries calls n)), length body)
      \<and> k_done (w_k w3) = k_done (w_k w1) \<and> w_outbox w3 = w_outbox w1)"
proof (cases "space = SV_monostate")
  case True
  from assms(4) have "sr_space b = SV_monostate" by (auto simp: get_select_builder_def SelectBuilder_init_def True)
  then show ?thesis by (simp add: True box_send_def box_select_def builder_calls_effect get_space_index_def)
next
  case False
  from assms(4) have b: "b = SelectBuilder_init L space (m_request_id (w_k w))" and w0: "w0 = take_id w"
    by (auto simp: get_select_builder_def)
  then have id: "sr_sync b = m_request_id (w_k w)" by (simp add: SelectBuilder_init_def)
  have "reach (cinit grow A) (cstep grow A) w0" unfolding w0 using assms(1) ks_id [OF assms(2,3)] by (rule reach_step)
  with assms(5) have w1: "reach (cinit grow A) (cstep grow A) w1" by (blast intro: reach_steps)
  have "sr_packer b = begin_map (pack (header_pack L) (request_header R_Select (sr_sync b)) RequestPacker_init)"
    "get_space_index (sr_space b) = (no_error, n)" using assms(12) False by (simp_all add: b SelectBuilder_init_def)
  from select_packet [OF assms(10,11,13-15) this(1) refl this(2)] obtain body where
    p: "box_select L E (builder_calls L calls b) = Inr (Inr (sr_sync b, wire_frame (header_pack L (request_header R_Select (sr_sync b)) @ body)))"
      "mp_unpack L body 0 = Inr (Mp_map (entry_objects (select_entries calls n)), length body)"
    by blast
  let ?data = "wire_frame (header_pack L (request_header R_Select (sr_sync b)) @ body)"
  let ?w2 = "submit_request (sr_sync b, w_issued w) ?data w1"
  from submitted_request_is_sent [OF w1 assms(7-9,6)] obtain w3 where
    s: "cstep grow A w1 ?w2" "cstep grow A ?w2 w3" "request_sent (sr_sync b) (w_issued w) ?data w1 w3" by blast
  have "box_send (w_issued w) (box_select L E (builder_calls L calls b)) w1 = Inr (None, ?w2)"
    by (simp add: box_send_def p(1))
  with reach_step [OF w1 s(1)] s(2,3) p(2) False show ?thesis unfolding request_sent_def id by auto
qed

theorem select_reaches_the_socket_witness:
  "\<exists>(w3 :: byte list cworld) body. reach (cinit id sample_auth) (cstep id sample_auth) w3
    \<and> m_requests (w_k w3) = [(0, Some 0), (1, Some 1)]
    \<and> last (outgoing (m_conn (w_k w3))) = wire_frame (header_pack msgpack_ref (request_header R_Select 1) @ body)
    \<and> mp_unpack msgpack_ref body 0 = Inr (Mp_map [(mp_field F_Limit, Mp_uint 10), (mp_field F_SpaceId, Mp_uint 512)], length body)"
proof -
  from sample_waiting obtain w :: "byte list cworld" where w: "reach (cinit id sample_auth) (cstep id sample_auth) w"
    "w_owned w" "w_start w = Started no_error" "m_s (w_k w) = Connected" "m_requests (w_k w) = [(0, Some 0)]" "w_issued w = 1"
    "m_request_id (w_k w) = 1" "w_free w = []" by blast
  obtain b w0 where b: "get_select_builder msgpack_ref (SV_id 512) w = (b, w0)" by force
  then have f: "w0 = take_id w" "sr_sync b = 1" by (auto simp: get_select_builder_def SelectBuilder_init_def w(7))
  have w0: "(sr_sync b, w_issued w) \<in> set (w_free w0)" "w_owned w0" "m_s (w_k w0) = Connected" "w_issued w0 \<le> 2 ^ 64"
    "m_requests (w_k w0) = [(0, Some 0)]" using w f by (simp_all add: take_id_def generate_id_def)
  let ?es = "select_entries [C_limit 10] 512"
  have es: "get_space_index (SV_id 512) = (no_error, 512)" "length ?es < 2 ^ 16" "mp_wf (Mp_map (entry_objects ?es))"
    "length (header_pack msgpack_ref (request_header R_Select (sr_sync b))) + 3 + length (pack_entries msgpack_ref (entry_objects ?es)) < 2 ^ 32"
    by (simp_all add: f(2) get_space_index_def msgpack_ref_def header_pack_def head_bytes_def field_type_val.simps request_header_def
      set_request_type_def MessageHeader_default_def select_entries_def)
  from select_reaches_the_socket [OF w(1-3) b rtranclp.rtrancl_refl w0(1-4) msgpack_ref_ok endian_ref_ok es]
  obtain body and w2 w3 :: "byte list cworld" where s: "reach (cinit id sample_auth) (cstep id sample_auth) w2" "cstep id sample_auth w2 w3"
    "m_requests (w_k w3) = m_requests (w_k w0) @ [(m_request_id (w_k w), Some (w_issued w))]"
    "outgoing (m_conn (w_k w3)) = outgoing (m_conn (w_k w0)) @ [wire_frame (header_pack msgpack_ref (request_header R_Select (m_request_id (w_k w))) @ body)]"
    "mp_unpack msgpack_ref body 0 = Inr (Mp_map (entry_objects ?es), length body)" by (auto split: if_splits)
  have "m_requests (w_k w3) = [(0, Some 0), (1, Some 1)]
    \<and> last (outgoing (m_conn (w_k w3))) = wire_frame (header_pack msgpack_ref (request_header R_Select 1) @ body)
    \<and> mp_unpack msgpack_ref body 0 = Inr (Mp_map [(mp_field F_Limit, Mp_uint 10), (mp_field F_SpaceId, Mp_uint 512)], length body)"
    using s(5) by (simp add: s(3,4) w0(5) w(6,7) select_entries_def)
  with reach_step [OF s(1,2)] show ?thesis by blast
qed

end
